(* ===== verification/Prelude.thy ===== *)
theory Prelude
  imports Main "HOL-Library.Word" "HOL-Library.AList" "HOL-Library.Multiset"
begin

text \<open>
  Shared types, error values, hash maps and generic lemmas.

  \<^item> Fixed-width integers are words: \<open>+\<close> and \<open>-\<close> wrap, as the release profile of the
    crate does (the manifest sets no \<open>overflow-checks\<close>).
  \<^item> \<open>UInt256\<close>, \<open>H256\<close> and \<open>[u8; 32]\<close> are 256-bit words read big-endian, \<open>H160\<close> and
    \<open>[u8; 20]\<close> are 160-bit words.
  \<^item> A hash map (\<open>FxHashMap\<close>, \<open>FxDashMap\<close>) is an association list with distinct keys; the
    order of the list stands for the unspecified iteration order of the map.
  \<^item> \<open>anyhow::Error\<close> is the datatype \<open>error\<close>: one constructor for each error enum of the
    crate, \<open>Foreign\<close> for an error made by a library, \<open>Context\<close> for \<open>.context(..)\<close>.
\<close>

unbundle bit_operations_syntax

section \<open>Types\<close>

type_synonym u8 = "8 word"
type_synonym u16 = "16 word"
type_synonym u32 = "32 word"
type_synonym u64 = "64 word"
type_synonym u128 = "128 word"
type_synonym usize = "64 word"
type_synonym uint256 = "256 word"
type_synonym h256 = "256 word"
type_synonym h160 = "160 word"

text \<open>\<open>u32::MAX\<close>.\<close>

abbreviation u32_MAX :: u32 where
  "u32_MAX \<equiv> - 1"

section \<open>Errors\<close>

datatype queue_error = AlreadyExists

datatype shard_utils_error = InvalidContractAddress

datatype ton_subscriber_error = AccountIsFrozen

datatype eth_subscriber_error = EthUnknownChainId

datatype engine_error = ExternalTonMessageExpected | EngineBridgeAccountNotFound

datatype existing_contract_error = NonZeroResultCode "32 word"

datatype bridge_error =
    UnknownChainId
  | UnknownConnector
  | UnknownConfiguration
  | BridgeAccountNotFound
  | InvalidEventConfiguration
  | EventConfigurationAlreadyExists

datatype staking_error =
    RequiredEthNetworkNotFound
  | UserDataEthAddressMismatch
  | UserDataTonPublicKeyMismatch

datatype error =
    QueueErr queue_error
  | ShardUtilsErr shard_utils_error
  | TonSubscriberErr ton_subscriber_error
  | EthSubscriberErr eth_subscriber_error
  | EngineErr engine_error
  | ExistingContractErr existing_contract_error
  | BridgeErr bridge_error
  | StakingErr staking_error
  | Foreign string
  | Context string error

text \<open>\<open>Result<T>\<close> is \<open>error + T\<close>; these are \<open>.context(..)\<close> on a result and on an option,
  and \<open>and_then\<close>.\<close>

type_synonym 'a result = "error + 'a"

definition context_res :: "string \<Rightarrow> 'a result \<Rightarrow> 'a result" where
  "context_res c r = (case r of Inl e \<Rightarrow> Inl (Context c e) | Inr x \<Rightarrow> Inr x)"

definition context_opt :: "string \<Rightarrow> 'a option \<Rightarrow> 'a result" where
  "context_opt c x = (case x of None \<Rightarrow> Inl (Foreign c) | Some y \<Rightarrow> Inr y)"

definition and_then :: "'a result \<Rightarrow> ('a \<Rightarrow> 'b result) \<Rightarrow> 'b result" where
  "and_then r f = (case r of Inl e \<Rightarrow> Inl e | Inr x \<Rightarrow> f x)"

named_theorems result_simps \<open>evaluation of the result combinators\<close>

lemma context_res_simps [simp, result_simps]:
  "context_res c (Inl e) = Inl (Context c e)"
  "context_res c (Inr x) = Inr x"
  by (simp_all add: context_res_def)

lemma context_opt_simps [simp, result_simps]:
  "context_opt c None = Inl (Foreign c)"
  "context_opt c (Some x) = Inr x"
  by (simp_all add: context_opt_def)

lemma and_then_simps [simp, result_simps]:
  "and_then (Inl e) f = Inl e"
  "and_then (Inr x) f = f x"
  by (simp_all add: and_then_def)

lemma and_then_Inr_iff:
  "and_then r f = Inr y \<longleftrightarrow> (\<exists>x. r = Inr x \<and> f x = Inr y)"
  by (cases r) auto

lemma context_res_Inr_iff [simp]: "context_res c r = Inr x \<longleftrightarrow> r = Inr x"
  by (cases r) auto

lemma context_opt_Inr_iff [simp]: "context_opt c r = Inr x \<longleftrightarrow> r = Some x"
  by (cases r) auto

text \<open>\<open>Error::to_string\<close>: the message of the outermost context, and the \<open>#[error(..)]\<close> texts.
  \<open>show_i32\<close> renders the result code of \<open>NonZeroResultCode\<close>.\<close>

fun error_to_string :: "(32 word \<Rightarrow> string) \<Rightarrow> error \<Rightarrow> string" where
  "error_to_string show_i32 (QueueErr AlreadyExists) = ''Already exists''"
| "error_to_string show_i32 (ShardUtilsErr InvalidContractAddress) = ''Invalid contract address''"
| "error_to_string show_i32 (TonSubscriberErr AccountIsFrozen) = ''Account is frozen''"
| "error_to_string show_i32 (EthSubscriberErr EthUnknownChainId) = ''Unknown chain id''"
| "error_to_string show_i32 (EngineErr ExternalTonMessageExpected) = ''External ton message expected''"
| "error_to_string show_i32 (EngineErr EngineBridgeAccountNotFound) = ''Bridge account not found''"
| "error_to_string show_i32 (ExistingContractErr (NonZeroResultCode c)) =
     ''Non zero result code: '' @ show_i32 c"
| "error_to_string show_i32 (BridgeErr UnknownChainId) = ''Unknown chain id''"
| "error_to_string show_i32 (BridgeErr UnknownConnector) = ''Unknown connector''"
| "error_to_string show_i32 (BridgeErr UnknownConfiguration) = ''Unknown event configuration''"
| "error_to_string show_i32 (BridgeErr BridgeAccountNotFound) = ''Bridge account not found''"
| "error_to_string show_i32 (BridgeErr InvalidEventConfiguration) = ''Invalid event configuration''"
| "error_to_string show_i32 (BridgeErr EventConfigurationAlreadyExists) =
     ''Event configuration already exists''"
| "error_to_string show_i32 (StakingErr RequiredEthNetworkNotFound) = ''Required ETH network not found''"
| "error_to_string show_i32 (StakingErr UserDataEthAddressMismatch) = ''UserData ETH address mismatch''"
| "error_to_string show_i32 (StakingErr UserDataTonPublicKeyMismatch) =
     ''UserData TON public key mismatch''"
| "error_to_string show_i32 (Foreign s) = s"
| "error_to_string show_i32 (Context c e) = c"

text \<open>\<open>str::contains\<close>.\<close>

fun str_contains :: "string \<Rightarrow> string \<Rightarrow> bool" where
  "str_contains pat [] = (pat = [])"
| "str_contains pat (c # cs) = (take (length pat) (c # cs) = pat \<or> str_contains pat cs)"

text \<open>\<open>unwrap_or_default\<close> on a \<open>Result<u32>\<close>.\<close>

definition unwrap_or :: "'a \<Rightarrow> 'a result \<Rightarrow> 'a" where
  "unwrap_or d r = (case r of Inl _ \<Rightarrow> d | Inr x \<Rightarrow> x)"

lemma unwrap_or_simps [simp, result_simps]:
  "unwrap_or d (Inl e) = d"
  "unwrap_or d (Inr x) = x"
  by (simp_all add: unwrap_or_def)

section \<open>Hash maps\<close>

type_synonym ('k, 'v) hmap = "('k \<times> 'v) list"

abbreviation hm_wf :: "('k, 'v) hmap \<Rightarrow> bool" where
  "hm_wf m \<equiv> distinct (map fst m)"

abbreviation hm_get :: "('k, 'v) hmap \<Rightarrow> 'k \<Rightarrow> 'v option" where
  "hm_get m k \<equiv> map_of m k"

abbreviation hm_insert :: "'k \<Rightarrow> 'v \<Rightarrow> ('k, 'v) hmap \<Rightarrow> ('k, 'v) hmap" where
  "hm_insert k v m \<equiv> AList.update k v m"

abbreviation hm_remove :: "'k \<Rightarrow> ('k, 'v) hmap \<Rightarrow> ('k, 'v) hmap" where
  "hm_remove k m \<equiv> AList.delete k m"

definition hm_contains :: "'k \<Rightarrow> ('k, 'v) hmap \<Rightarrow> bool" where
  "hm_contains k m \<longleftrightarrow> hm_get m k \<noteq> None"

text \<open>\<open>retain\<close> keeps the entries the predicate accepts.\<close>

definition hm_retain :: "('k \<Rightarrow> 'v \<Rightarrow> bool) \<Rightarrow> ('k, 'v) hmap \<Rightarrow> ('k, 'v) hmap" where
  "hm_retain P m = filter (\<lambda>(k, v). P k v) m"

named_theorems hmap_simps \<open>lookups after the hash map operations\<close>

lemma hm_get_insert [hmap_simps]: "hm_get (hm_insert k v m) = (hm_get m)(k \<mapsto> v)"
  by (rule update_conv')

lemma hm_get_remove [hmap_simps]: "hm_get (hm_remove k m) = (hm_get m)(k := None)"
  by (rule delete_conv')

lemma hm_wf_insert [simp, intro]: "hm_wf m \<Longrightarrow> hm_wf (hm_insert k v m)"
  by (rule distinct_update)

lemma hm_wf_remove [simp, intro]: "hm_wf m \<Longrightarrow> hm_wf (hm_remove k m)"
  by (rule distinct_delete)

lemma hm_wf_retain [simp, intro]: "hm_wf m \<Longrightarrow> hm_wf (hm_retain P m)"
  by (auto simp: hm_retain_def distinct_map intro: inj_on_subset)

lemma hm_get_retain [hmap_simps]:
  assumes "hm_wf m"
  shows "hm_get (hm_retain P m) k =
    (case hm_get m k of None \<Rightarrow> None | Some v \<Rightarrow> if P k v then Some v else None)"
  using assms
proof (induction m)
  case Nil
  then show ?case by (simp add: hm_retain_def)
next
  case (Cons x m)
  obtain k' v' where x: "x = (k', v')" by (cases x)
  have "hm_get m k' = None" if "k = k'"
    using Cons.prems by (auto simp: x map_of_eq_None_iff image_iff)
  with Cons show ?case
    by (auto simp: x hm_retain_def split: option.splits)
qed

lemma hm_contains_simps [hmap_simps]:
  "hm_contains k [] \<longleftrightarrow> False"
  "hm_contains k (hm_insert k' v m) \<longleftrightarrow> k = k' \<or> hm_contains k m"
  "hm_contains k (hm_remove k' m) \<longleftrightarrow> k \<noteq> k' \<and> hm_contains k m"
  by (auto simp: hm_contains_def hmap_simps)

lemma hm_contains_keys: "hm_contains k m \<longleftrightarrow> k \<in> fst ` set m"
  by (simp add: hm_contains_def map_of_eq_None_iff)

lemma hm_get_in_set: "hm_get m k = Some v \<Longrightarrow> (k, v) \<in> set m"
  by (rule map_of_SomeD)

lemma hm_in_set_iff: "hm_wf m \<Longrightarrow> (k, v) \<in> set m \<longleftrightarrow> hm_get m k = Some v"
  by simp

text \<open>Insertion of a new key appends the entry, removal drops one entry.\<close>

lemma hm_insert_new: "hm_get m k = None \<Longrightarrow> hm_insert k v m = m @ [(k, v)]"
  by (induction m) (auto split: if_splits)

lemma hm_insert_length:
  "length (hm_insert k v m) = (if hm_contains k m then length m else Suc (length m))"
  by (induction m) (auto simp: hm_contains_def)

lemma hm_remove_absent: "hm_get m k = None \<Longrightarrow> hm_remove k m = m"
  by (simp add: map_of_eq_None_iff delete_id)

lemma hm_remove_length:
  assumes "hm_wf m"
  shows "length (hm_remove k m) = (if hm_contains k m then length m - 1 else length m)"
  using assms
proof (induction m)
  case Nil
  then show ?case by (simp add: hm_contains_def)
next
  case (Cons x m)
  obtain k' v' where x: "x = (k', v')" by (cases x)
  have absent: "hm_remove k' m = m"
    using Cons.prems by (simp add: x delete_id)
  have "m \<noteq> []" if "hm_contains k m"
    using that by (auto simp: hm_contains_def)
  with Cons absent show ?case
    by (cases "k = k'") (auto simp: x hm_contains_def)
qed

lemma hm_remove_mset:
  assumes "hm_wf m" "hm_get m k = Some v"
  shows "mset m = add_mset (k, v) (mset (hm_remove k m))"
  using assms
proof (induction m)
  case (Cons x m)
  obtain k' v' where x: "x = (k', v')" by (cases x)
  have "hm_remove k' m = m" using Cons.prems by (simp add: x delete_id)
  with Cons show ?case by (auto simp: x)
qed simp

lemma hm_remove_set:
  assumes "hm_wf m" "hm_get m k = Some v"
  shows "set (hm_remove k m) = set m - {(k, v)}"
  using assms by (auto simp: AList.delete_eq dest: eq_key_imp_eq_value map_of_SomeD)

lemma hm_remove_filter: "hm_remove k m = filter (\<lambda>(k', _). k \<noteq> k') m"
  by (simp add: AList.delete_eq)

text \<open>Insertion over a key replaces its value in place.\<close>

lemma hm_insert_existing:
  assumes "hm_wf m" "hm_get m k \<noteq> None"
  shows "hm_insert k v m = map (\<lambda>(k', x). (k', if k' = k then v else x)) m"
  using assms
proof (induction m)
  case (Cons y m)
  obtain k' x where y: "y = (k', x)" by (cases y)
  have "map (\<lambda>(k'', x). (k'', if k'' = k' then v else x)) m = m"
    using Cons.prems by (intro map_idI) (auto simp: y rev_image_eqI)
  with Cons show ?case by (cases "k = k'") (simp_all add: y)
qed simp

lemma hm_insert_existing_mset:
  assumes "hm_wf m" "hm_get m k = Some v0"
  shows "add_mset (k, v0) (mset (hm_insert k v m)) = add_mset (k, v) (mset m)"
  using assms
proof (induction m)
  case (Cons y m)
  obtain k' x where y: "y = (k', x)" by (cases y)
  from Cons show ?case by (auto simp: y add_mset_commute split: if_splits)
qed simp

lemma hm_insert_elem: "x \<in> set (hm_insert k v m) \<Longrightarrow> x = (k, v) \<or> x \<in> set m"
  by (induction m) (auto split: if_splits)

lemma hm_get_filter:
  "hm_wf m \<Longrightarrow> hm_get (filter P m) k =
     (case hm_get m k of None \<Rightarrow> None | Some v \<Rightarrow> if P (k, v) then Some v else None)"
  using hm_get_retain [of m "\<lambda>k v. P (k, v)" k] by (simp add: hm_retain_def case_prod_unfold)

lemma hm_wf_filter [simp, intro]: "hm_wf m \<Longrightarrow> hm_wf (filter P m)"
  by (auto simp: distinct_map intro: inj_on_subset)

lemma hm_get_map_snd:
  "hm_get (map (\<lambda>(k, v). (k, f k v)) m) k = map_option (f k) (hm_get m k)"
  by (induction m) auto

section \<open>Lists\<close>

text \<open>A search whose predicate has at most one solution does not depend on the order.\<close>

lemma find_Some_iff_unique:
  assumes "\<And>x y. x \<in> set xs \<Longrightarrow> y \<in> set xs \<Longrightarrow> P x \<Longrightarrow> P y \<Longrightarrow> x = y"
  shows "List.find P xs = Some z \<longleftrightarrow> z \<in> set xs \<and> P z"
  using assms by (auto simp: find_Some_iff) (metis in_set_conv_nth find_Some_iff find_None_iff
      option.exhaust)

lemma find_SomeD: "List.find P xs = Some x \<Longrightarrow> x \<in> set xs \<and> P x"
  by (auto simp: find_Some_iff)

lemma find_append:
  "List.find P (xs @ ys) = (case List.find P xs of None \<Rightarrow> List.find P ys | Some x \<Rightarrow> Some x)"
  by (induction xs) auto

lemma find_perm:
  assumes "set xs = set ys"
    and "\<And>x y. x \<in> set xs \<Longrightarrow> y \<in> set xs \<Longrightarrow> P x \<Longrightarrow> P y \<Longrightarrow> x = y"
  shows "List.find P xs = List.find P ys"
proof (cases "List.find P ys")
  case None
  then have "List.find P xs = None"
    using assms(1) by (auto simp: find_None_iff)
  with None show ?thesis by simp
next
  case (Some z)
  then show ?thesis
    using assms find_Some_iff_unique [of ys P z] find_Some_iff_unique [of xs P z] by simp
qed

section \<open>Multisets\<close>

lemma mset_concat_map_order:
  "mset xs = mset ys \<Longrightarrow> mset (concat (map f xs)) = mset (concat (map f ys))"
  by (simp add: mset_concat flip: sum_mset_sum_list)


lemma count_mset_set_le: "count (mset_set A) x \<le> 1"
  by (simp add: count_mset_set')

lemma mset_plus_set_distinct:
  assumes "mset xs + N = mset_set A"
  shows "distinct xs"
proof -
  have "count (mset xs) x \<le> 1" for x
    using count_mset_set_le [of A x] by (simp flip: assms)
  then have "count (mset xs) x = (if x \<in> set xs then 1 else 0)" for x
    by (metis One_nat_def count_greater_zero_iff count_mset_0_iff le_Suc_eq le_zero_eq
        not_gr_zero set_mset_mset)
  then show ?thesis by (simp add: distinct_count_atmost_1)
qed

lemma mset_plus_set_disjoint:
  assumes "mset xs + mset ys = mset_set A"
  shows "set xs \<inter> set ys = {}"
proof -
  have "mset (xs @ ys) + {#} = mset_set A" using assms by simp
  then have "distinct (xs @ ys)" by (rule mset_plus_set_distinct)
  then show ?thesis by simp
qed

lemma mset_plus_set_union:
  assumes "mset xs + mset ys = mset_set A" "finite A"
  shows "set xs \<union> set ys = A"
proof -
  have "set_mset (mset xs + mset ys) = A"
    using assms(2) by (simp only: assms(1) finite_set_mset_mset_set)
  then show ?thesis by simp
qed

section \<open>Words\<close>

text \<open>Widening keeps the value.\<close>

lemma unat_ucast_up:
  fixes x :: "'a::len word"
  assumes "LENGTH('a) \<le> LENGTH('b::len)"
  shows "unat (ucast x :: 'b word) = unat x"
proof -
  have "unat x < 2 ^ LENGTH('b)"
    by (rule order.strict_trans2 [OF unsigned_less]) (use assms in simp)
  then show ?thesis by (simp add: unsigned_ucast_eq take_bit_nat_eq_self)
qed

lemma unat_add_nowrap:
  fixes x y :: "'a::len word"
  shows "unat x + unat y < 2 ^ LENGTH('a) \<Longrightarrow> unat (x + y) = unat x + unat y"
  by (simp add: unat_word_ariths)

lemma add_below_2_63:
  fixes f m :: u64
  assumes "f < 2 ^ 63" "m < 2 ^ 63"
  shows "unat (f + m) = unat f + unat m"
proof (rule unat_add_nowrap)
  have "unat f < 2 ^ 63" "unat m < 2 ^ 63"
    using assms by (simp_all add: word_less_nat_alt)
  then show "unat f + unat m < 2 ^ LENGTH(64)" by simp
qed

lemma less_add_below_2_63:
  fixes f m :: u64
  assumes "0 < m" "f < 2 ^ 63" "m < 2 ^ 63"
  shows "f < f + m"
  using assms(1) by (simp add: word_less_nat_alt add_below_2_63 [OF assms(2,3)])

lemma sub_le_below_2_63:
  fixes f m t :: u64
  assumes "t \<le> f + m" "f \<le> t" "f < 2 ^ 63" "m < 2 ^ 63"
  shows "t - f \<le> m"
  using assms(1,2) by (simp add: word_le_nat_alt add_below_2_63 [OF assms(3,4)] unat_sub)

lemma unat_u32_bound: "unat (x :: u32) < 2 ^ 32"
  using unsigned_less [of x, where ?'a = nat] by simp

lemma unat_u16_bound: "unat (x :: u16) < 2 ^ 16"
  using unsigned_less [of x, where ?'a = nat] by simp

end
