(* ===== verification/Contract_Models.thy ===== *)
theory Contract_Models
  imports Prelude
begin

text \<open>
  \<open>engine/ton_contracts/models.rs\<close>: the data that the contracts' getters and events carry, and
  the two hand-written unpackers for arrays of tokens. A field keeps the source's name behind a
  prefix for its struct. \<open>'cell\<close> is \<open>ton_types::Cell\<close>.
\<close>

section \<open>Enumerations\<close>

text \<open>The enums are packed by their discriminants, in the order of the constructors.\<close>

datatype event_status = Initializing | Pending | Confirmed | Rejected

datatype event_vote = VoteReserved | VoteEmpty | VoteConfirm | VoteReject

datatype event_type = Eth | Ton

instantiation event_status :: enum
begin

definition "enum_event_status = [Initializing, Pending, Confirmed, Rejected]"

definition "enum_all_event_status P \<longleftrightarrow> list_all P [Initializing, Pending, Confirmed, Rejected]"

definition "enum_ex_event_status P \<longleftrightarrow> list_ex P [Initializing, Pending, Confirmed, Rejected]"

instance
proof
  have UNIV: "(UNIV :: event_status set) = set [Initializing, Pending, Confirmed, Rejected]"
    using event_status.exhaust by auto
  show "(UNIV :: event_status set) = set enum_class.enum"
    by (simp only: UNIV enum_event_status_def)
  show "distinct (enum_class.enum :: event_status list)"
    by (simp add: enum_event_status_def)
  show "enum_class.enum_all P \<longleftrightarrow> Ball UNIV P" for P :: "event_status \<Rightarrow> bool"
    by (auto simp: enum_all_event_status_def) (metis event_status.exhaust)
  show "enum_class.enum_ex P \<longleftrightarrow> Bex UNIV P" for P :: "event_status \<Rightarrow> bool"
    by (auto simp: enum_ex_event_status_def) (metis event_status.exhaust)
qed

end

section \<open>Events on EVM chains and on TON\<close>

record 'cell eth_event_vote_data =
  evd_event_transaction :: uint256
  evd_event_index :: u32
  evd_event_data :: 'cell
  evd_event_block_number :: u32
  evd_event_block :: uint256

record 'cell eth_event_init_data =
  eid_vote_data :: "'cell eth_event_vote_data"
  eid_configuration :: uint256
  eid_staking :: uint256
  eid_chain_id :: u32

record 'cell ton_event_vote_data =
  tvd_event_transaction_lt :: u64
  tvd_event_timestamp :: u32
  tvd_event_data :: 'cell

record 'cell ton_event_init_data =
  tid_vote_data :: "'cell ton_event_vote_data"
  tid_configuration :: uint256
  tid_staking :: uint256

section \<open>Event configurations\<close>

record 'cell basic_configuration =
  bc_event_abi :: string
  bc_staking :: uint256
  bc_event_initial_balance :: u64
  bc_event_code :: 'cell

record eth_event_configuration =
  eec_chain_id :: u32
  eec_event_emitter :: h160
  eec_event_blocks_to_confirm :: u16
  eec_proxy :: uint256
  eec_start_block_number :: u32
  eec_end_block_number :: u32

record ton_event_configuration =
  tec_event_emitter :: uint256
  tec_proxy :: h160
  tec_start_timestamp :: u32
  tec_end_timestamp :: u32

record 'cell eth_event_configuration_details =
  ecd_basic_configuration :: "'cell basic_configuration"
  ecd_network_configuration :: eth_event_configuration
  ecd_meta :: 'cell

record 'cell ton_event_configuration_details =
  tcd_basic_configuration :: "'cell basic_configuration"
  tcd_network_configuration :: ton_event_configuration
  tcd_meta :: 'cell

section \<open>Bridge and connectors\<close>

record 'cell bridge_details =
  bd_connector_code :: 'cell
  bd_connector_deploy_value :: u64
  bd_connector_counter :: u64
  bd_staking :: uint256
  bd_active :: bool

record connector_details =
  cd_id :: u64
  cd_event_configuration :: uint256
  cd_enabled :: bool

record connector_deployed_event =
  cde_id :: u64
  cde_connector :: uint256
  cde_event_configuration :: uint256

section \<open>Staking, elections and user data\<close>

record relay_config_details =
  rcd_relay_lock_time :: u32
  rcd_relay_round_time :: u32
  rcd_election_time :: u32
  rcd_time_before_election :: u32
  rcd_min_round_gap_time :: u32
  rcd_relays_count :: u16
  rcd_min_relay_count :: u16
  rcd_min_relay_deposit :: u128
  rcd_relay_initial_ton_deposit :: u128
  rcd_relay_reward_per_second :: u128
  rcd_user_reward_per_second :: u128

record relay_rounds_details =
  rrd_current_relay_round :: u32
  rrd_current_relay_round_start_time :: u32
  rrd_current_relay_round_end_time :: u32
  rrd_current_election_start_time :: u32
  rrd_current_election_ended :: bool

record relay_round_initialized_event =
  rri_round_num :: u32
  rri_round_start_time :: u32
  rri_round_end_time :: u32
  rri_round_addr :: uint256
  rri_relays_count :: u32
  rri_duplicate :: bool

record election_started_event =
  ese_round_num :: u32
  ese_election_start_time :: u32
  ese_election_end_time :: u32
  ese_election_addr :: uint256

record election_ended_event =
  eee_round_num :: u32
  eee_relay_requests :: u32
  eee_min_relays_ok :: bool

record relay_round_details =
  rd_root :: uint256
  rd_round_num :: u32
  rd_ton_keys :: "uint256 list"
  rd_eth_addrs :: "h160 list"
  rd_staker_addrs :: "uint256 list"
  rd_staked_tokens :: "u128 list"
  rd_relays_installed :: bool
  rd_code_version :: u32

record user_data_reward_round =
  udr_reward_balance :: u128
  udr_reward_debt :: u128

record user_data_details =
  ud_token_balance :: u128
  ud_relay_lock_until :: u32
  ud_reward_rounds :: "user_data_reward_round list"
  ud_relay_eth_address :: h160
  ud_eth_address_confirmed :: bool
  ud_relay_ton_pubkey :: uint256
  ud_ton_pubkey_confirmed :: bool
  ud_slashed :: bool
  ud_root :: uint256
  ud_user :: uint256
  ud_dao_root :: uint256

record reward_round =
  rwr_account_reward_per_share :: uint256
  rwr_reward_tokens :: u128
  rwr_total_reward :: u128
  rwr_start_time :: u32

record staking_details =
  sd_dao_root :: uint256
  sd_bridge_event_config_eth_ton :: uint256
  sd_bridge_event_config_ton_eth :: uint256
  sd_token_root :: uint256
  sd_token_wallet :: uint256
  sd_admin :: uint256
  sd_rescuer :: uint256
  sd_rewarder :: uint256
  sd_token_balance :: u128
  sd_reward_token_balance :: u128
  sd_last_reward_time :: u32
  sd_reward_rounds :: "reward_round list"
  sd_emergency :: bool

record relay_config_updated_event =
  rcu_config :: relay_config_details

record ton_pubkey_confirmed_event =
  tpc_ton_pubkey :: uint256

record eth_address_confirmed_event =
  eac_eth_addr :: h160

record relay_keys_updated_event =
  rku_ton_pubkey :: uint256
  rku_eth_address :: h160

record relay_membership_requested_event =
  rmr_round_num :: u32
  rmr_tokens :: u128
  rmr_ton_pubkey :: uint256
  rmr_eth_address :: h160
  rmr_lock_until :: u32

record deposit_processed_event =
  dpe_tokens_deposited :: u128
  dpe_new_balance :: u128

section \<open>Unpacking arrays of tokens\<close>

text \<open>The token values the two unpackers tell apart; every other value is \<open>TokOther\<close>.\<close>

datatype token_value =
    TokArray "token_value list"
  | TokAddrStd uint256
  | TokAddrNone
  | TokUint nat nat \<comment> \<open>number and size\<close>
  | TokOther

definition InvalidAbi :: error where
  "InvalidAbi = Foreign ''InvalidAbi''"

fun unpack_nonzero_hashes :: "token_value list \<Rightarrow> uint256 list result" where
  "unpack_nonzero_hashes [] = Inr []"
| "unpack_nonzero_hashes (value # vals) =
     (case value of
        TokAddrStd address \<Rightarrow>
          and_then (unpack_nonzero_hashes vals) (\<lambda>result. Inr (address # result))
      | TokAddrNone \<Rightarrow> unpack_nonzero_hashes vals
      | _ \<Rightarrow> Inl InvalidAbi)"

definition array_address_only_nonzero_hash_unpack :: "token_value \<Rightarrow> uint256 list result" where
  "array_address_only_nonzero_hash_unpack value =
     (case value of TokArray vals \<Rightarrow> unpack_nonzero_hashes vals | _ \<Rightarrow> Inl InvalidAbi)"

fun unpack_uint128s :: "token_value list \<Rightarrow> u128 list result" where
  "unpack_uint128s [] = Inr []"
| "unpack_uint128s (value # vals) =
     (case value of
        TokUint number bits \<Rightarrow>
          if bits = 128 \<and> number < 2 ^ 128
          then and_then (unpack_uint128s vals) (\<lambda>result. Inr (of_nat number # result))
          else Inl InvalidAbi
      | _ \<Rightarrow> Inl InvalidAbi)"

definition array_uint128_number_unpack :: "token_value \<Rightarrow> u128 list result" where
  "array_uint128_number_unpack value =
     (case value of TokArray vals \<Rightarrow> unpack_uint128s vals | _ \<Rightarrow> Inl InvalidAbi)"

lemma unpack_nonzero_hashes_Inr:
  "unpack_nonzero_hashes vals = Inr hs \<longleftrightarrow>
     (\<forall>v \<in> set vals. v = TokAddrNone \<or> (\<exists>h. v = TokAddrStd h)) \<and>
     map TokAddrStd hs = filter (\<lambda>v. v \<noteq> TokAddrNone) vals"
proof (induction vals arbitrary: hs)
  case Nil
  then show ?case by auto
next
  case (Cons v vals)
  then show ?case by (cases v) (auto simp: and_then_Inr_iff map_eq_Cons_conv)
qed

lemma unpack_uint128s_Inr:
  "unpack_uint128s vals = Inr ns \<Longrightarrow> map (\<lambda>n. TokUint (unat n) 128) ns = vals"
proof (induction vals arbitrary: ns)
  case Nil
  then show ?case by simp
next
  case (Cons v vals)
  then show ?case
    by (cases v) (auto simp: and_then_Inr_iff unat_of_nat split: if_splits)
qed

lemma unpack_uint128s_pack: "unpack_uint128s (map (\<lambda>n. TokUint (unat n) 128) ns) = Inr ns"
proof (induction ns)
  case (Cons n ns)
  have "unat n < 2 ^ 128" using unsigned_less [of n] by simp
  with Cons show ?case by simp
qed simp

section \<open>Properties\<close>

text \<open>Unpacking a list of staker addresses succeeds exactly when every element is an address
  or empty, and returns the non-empty addresses in order; an array of 128-bit numbers is the
  packed form of exactly the list it unpacks to.\<close>

theorem array_unpackers_correct:
  "(array_address_only_nonzero_hash_unpack (TokArray vals) = Inr hs \<longleftrightarrow>
      (\<forall>v \<in> set vals. v = TokAddrNone \<or> (\<exists>h. v = TokAddrStd h)) \<and>
      map TokAddrStd hs = filter (\<lambda>v. v \<noteq> TokAddrNone) vals) \<and>
   (array_uint128_number_unpack (TokArray vals) = Inr ns \<longleftrightarrow>
      vals = map (\<lambda>n. TokUint (unat n) 128) ns)"
  using unpack_nonzero_hashes_Inr [of vals hs] unpack_uint128s_Inr [of vals ns]
    unpack_uint128s_pack [of ns]
  by (auto simp: array_address_only_nonzero_hash_unpack_def array_uint128_number_unpack_def)

theorem array_unpackers_correct_witness:
  "array_address_only_nonzero_hash_unpack (TokArray [TokAddrStd 5, TokAddrNone, TokAddrStd 7]) =
     Inr [5, 7] \<and>
   array_uint128_number_unpack (TokArray [TokUint 5 128]) = Inr [5]"
  using array_unpackers_correct [of "[TokAddrStd 5, TokAddrNone, TokAddrStd 7]" "[5, 7]" "[]"]
    array_unpackers_correct [of "[TokUint 5 128]" "[]" "[5]"] by simp

end
