(* ===== verification/Eth_Events.thy ===== *)
theory Eth_Events
  imports Prelude
begin

text \<open>
  \<open>engine/eth_subscriber/models.rs\<close> and the log parsing of \<open>engine/eth_subscriber/mod.rs\<close>:
  \<open>web3\<close> logs are turned into parsed events, and a receipt is searched for one event.
\<close>

type_synonym eth_event_id = "h256 \<times> u32"

record removed_eth_event =
  rm_address :: h160
  rm_transaction_hash :: h256
  rm_event_index :: u32

record received_eth_event =
  rc_address :: h160
  rc_topic_hash :: h256
  rc_transaction_hash :: h256
  rc_event_index :: u32
  rc_block_number :: u64
  rc_block_hash :: h256
  rc_data :: "u8 list"

datatype parsed_eth_event = Removed removed_eth_event | Received received_eth_event

fun event_id :: "parsed_eth_event \<Rightarrow> eth_event_id" where
  "event_id (Removed event) = (rm_transaction_hash event, rm_event_index event)"
| "event_id (Received event) = (rc_transaction_hash event, rc_event_index event)"

fun transaction_hash :: "parsed_eth_event \<Rightarrow> h256" where
  "transaction_hash (Removed event) = rm_transaction_hash event"
| "transaction_hash (Received event) = rc_transaction_hash event"

fun event_index :: "parsed_eth_event \<Rightarrow> u32" where
  "event_index (Removed event) = rm_event_index event"
| "event_index (Received event) = rc_event_index event"

text \<open>A \<open>web3\<close> log: the optional fields, the index and block number as \<open>as_u32\<close> and \<open>as_u64\<close>
  return them.\<close>

record web3_log =
  log_address :: h160
  log_topics :: "h256 list"
  log_data :: "u8 list"
  log_block_hash :: "h256 option"
  log_block_number :: "u64 option"
  log_transaction_hash :: "h256 option"
  log_log_index :: "u32 option"
  log_removed :: "bool option"

definition parsed_eth_event_try_from :: "web3_log \<Rightarrow> parsed_eth_event result" where
  "parsed_eth_event_try_from log =
     and_then (context_opt ''Transaction hash was not found in event'' (log_transaction_hash log))
       (\<lambda>transaction_hash.
     and_then (context_opt ''Event index was not found in event'' (log_log_index log))
       (\<lambda>event_index.
     if log_removed log = Some True
     then Inr (Removed \<lparr>rm_address = log_address log, rm_transaction_hash = transaction_hash,
                        rm_event_index = event_index\<rparr>)
     else
     and_then (context_opt ''Topic hash not found''
         (case log_topics log of [] \<Rightarrow> None | topic # _ \<Rightarrow> Some topic))
       (\<lambda>topic_hash.
     and_then (context_opt ''Block number was not found in event'' (log_block_number log))
       (\<lambda>block_number.
     and_then (context_opt ''Block hash was not found in event'' (log_block_hash log))
       (\<lambda>block_hash.
     Inr (Received \<lparr>rc_address = log_address log, rc_topic_hash = topic_hash,
                    rc_transaction_hash = transaction_hash, rc_event_index = event_index,
                    rc_block_number = block_number, rc_block_hash = block_hash,
                    rc_data = log_data log\<rparr>))))))"

text \<open>\<open>parse_transaction_logs\<close> drops the logs that do not parse.\<close>

fun parse_transaction_logs :: "web3_log list \<Rightarrow> parsed_eth_event list" where
  "parse_transaction_logs [] = []"
| "parse_transaction_logs (log # logs) =
     (case parsed_eth_event_try_from log of
        Inr event \<Rightarrow> event # parse_transaction_logs logs
      | Inl _ \<Rightarrow> parse_transaction_logs logs)"

record web3_receipt =
  receipt_status :: "u64 option"
  receipt_logs :: "web3_log list"

text \<open>\<open>find_event\<close>, from the outcome of the receipt request (retries included).\<close>

definition find_event ::
  "(h256 \<Rightarrow> web3_receipt option result) \<Rightarrow> eth_event_id \<Rightarrow> parsed_eth_event option result" where
  "find_event transaction_receipt ev =
     (let (transaction_hash', event_index') = ev
      in and_then (transaction_receipt transaction_hash') (\<lambda>receipt.
           Inr (case receipt of
                  None \<Rightarrow> None
                | Some receipt \<Rightarrow>
                    if receipt_status receipt = Some 1
                    then List.find (\<lambda>event. transaction_hash event = transaction_hash' \<and>
                                            event_index event = event_index')
                           (rev (parse_transaction_logs (receipt_logs receipt)))
                    else None)))"

section \<open>Facts\<close>

lemma event_id_parts: "event_id e = (transaction_hash e, event_index e)"
  by (cases e) simp_all

lemma try_from_Received:
  "parsed_eth_event_try_from log = Inr (Received r) \<longleftrightarrow>
     log_removed log \<noteq> Some True \<and> log_address log = rc_address r \<and> log_data log = rc_data r \<and>
     log_transaction_hash log = Some (rc_transaction_hash r) \<and>
     log_log_index log = Some (rc_event_index r) \<and>
     (\<exists>topics. log_topics log = rc_topic_hash r # topics) \<and>
     log_block_number log = Some (rc_block_number r) \<and> log_block_hash log = Some (rc_block_hash r)"
  by (cases r) (auto simp: parsed_eth_event_try_from_def and_then_Inr_iff
      split: if_splits list.splits)

lemma set_parse_transaction_logs:
  "e \<in> set (parse_transaction_logs logs) \<longleftrightarrow> (\<exists>log \<in> set logs. parsed_eth_event_try_from log = Inr e)"
  by (induction logs) (auto split: sum.splits)

lemma find_event_Some:
  assumes "find_event rcpt ev = Inr (Some e)"
  shows "\<exists>receipt. rcpt (fst ev) = Inr (Some receipt) \<and> receipt_status receipt = Some 1 \<and>
    e \<in> set (parse_transaction_logs (receipt_logs receipt)) \<and> event_id e = ev"
  using assms
  by (auto simp: find_event_def and_then_Inr_iff event_id_parts
      split: prod.splits option.splits if_splits dest!: find_SomeD)

section \<open>Properties\<close>

text \<open>An event that \<open>find_event\<close> returns is backed by the chain: the transaction has a receipt
  with status 1 whose logs contain a log that parses to exactly this event, and the event has
  the transaction hash and index that were asked for.\<close>

theorem find_event_sound:
  assumes "find_event transaction_receipt (h, i) = Inr (Some e)"
  shows "\<exists>receipt log. transaction_receipt h = Inr (Some receipt) \<and>
    receipt_status receipt = Some 1 \<and> log \<in> set (receipt_logs receipt) \<and>
    parsed_eth_event_try_from log = Inr e \<and> event_id e = (h, i)"
  using find_event_Some [OF assms] by (auto simp: set_parse_transaction_logs)

definition example_log :: web3_log where
  "example_log = \<lparr>log_address = 1, log_topics = [2], log_data = [3], log_block_hash = Some 4,
     log_block_number = Some 5, log_transaction_hash = Some 6, log_log_index = Some 7,
     log_removed = None\<rparr>"

theorem find_event_sound_witness:
  "\<exists>receipt log. (\<lambda>_. Inr (Some \<lparr>receipt_status = Some 1, receipt_logs = [example_log]\<rparr>)) (6 :: h256)
      = (Inr (Some receipt) :: web3_receipt option result) \<and>
    receipt_status receipt = Some 1 \<and> log \<in> set (receipt_logs receipt) \<and>
    (\<exists>e. parsed_eth_event_try_from log = Inr e \<and> event_id e = (6, 7))"
proof -
  let ?r = "\<lambda>_ :: h256. Inr (Some \<lparr>receipt_status = Some 1, receipt_logs = [example_log]\<rparr>) ::
    web3_receipt option result"
  obtain e where "find_event ?r (6, 7) = Inr (Some e)"
    by (simp add: find_event_def example_log_def parsed_eth_event_try_from_def)
  from find_event_sound [OF this] show ?thesis by blast
qed

text \<open>A log becomes a received event exactly when it is not marked as removed and carries a
  transaction hash, an index, a first topic, a block number and a block hash; the event copies
  these fields, so no default value ever stands for a missing one.\<close>

theorem log_parsing_exact:
  "parsed_eth_event_try_from log = Inr (Received r) \<longleftrightarrow>
     log_removed log \<noteq> Some True \<and> log_address log = rc_address r \<and> log_data log = rc_data r \<and>
     log_transaction_hash log = Some (rc_transaction_hash r) \<and>
     log_log_index log = Some (rc_event_index r) \<and>
     (\<exists>topics. log_topics log = rc_topic_hash r # topics) \<and>
     log_block_number log = Some (rc_block_number r) \<and> log_block_hash log = Some (rc_block_hash r)"
  by (rule try_from_Received)

end
