(* ===== verification/Eth_Topics.thy ===== *)
theory Eth_Topics
  imports Prelude
begin

text \<open>
  \<open>TopicsMap\<close> of \<open>engine/eth_subscriber/mod.rs\<close>: the subscriptions of a chain and the address
  and topic lists derived from them for the log filter.
\<close>

record topics_map_entry =
  tm_address :: h160
  tm_topic_hash :: h256
  tm_configuration_account :: uint256

text \<open>\<open>tm_entries\<close> is a hash set: a list without duplicates.\<close>

record topics_map =
  tm_entries :: "topics_map_entry list"
  tm_unique_addresses :: "h160 list"
  tm_unique_topics :: "h256 list"

definition topics_default :: topics_map where
  "topics_default = \<lparr>tm_entries = [], tm_unique_addresses = [], tm_unique_topics = []\<rparr>"

text \<open>The log filter: the values given to \<open>FilterBuilder\<close>.\<close>

record log_filter =
  lf_address :: "h160 list"
  lf_topics :: "h256 list"
  lf_from_block :: u64
  lf_to_block :: u64

definition make_filter :: "topics_map \<Rightarrow> u64 \<Rightarrow> u64 \<Rightarrow> log_filter option" where
  "make_filter t from_block to_block =
     (if tm_unique_addresses t = [] \<or> tm_unique_topics t = [] then None
      else Some \<lparr>lf_address = tm_unique_addresses t, lf_topics = tm_unique_topics t,
                 lf_from_block = from_block, lf_to_block = to_block\<rparr>)"

definition topics_update :: "topics_map \<Rightarrow> topics_map" where
  "topics_update t =
     t\<lparr>tm_unique_addresses := remdups (map tm_address (tm_entries t)),
       tm_unique_topics := remdups (map tm_topic_hash (tm_entries t))\<rparr>"

definition add_entry :: "h160 \<Rightarrow> h256 \<Rightarrow> uint256 \<Rightarrow> topics_map \<Rightarrow> topics_map" where
  "add_entry address topic_hash configuration_account t =
     (let entry = \<lparr>tm_address = address, tm_topic_hash = topic_hash,
                   tm_configuration_account = configuration_account\<rparr>
      in if entry \<notin> set (tm_entries t)
         then topics_update (t\<lparr>tm_entries := tm_entries t @ [entry]\<rparr>)
         else t)"

text \<open>The loop of \<open>remove_entries\<close>: the remaining entries and \<open>should_update\<close>.\<close>

fun remove_entries_loop ::
  "(h160 \<times> h256 \<times> uint256) list \<Rightarrow> topics_map_entry list \<Rightarrow> bool \<Rightarrow>
   topics_map_entry list \<times> bool" where
  "remove_entries_loop [] es should_update = (es, should_update)"
| "remove_entries_loop ((address, topic_hash, configuration_account) # xs) es should_update =
     (let entry = \<lparr>tm_address = address, tm_topic_hash = topic_hash,
                   tm_configuration_account = configuration_account\<rparr>
      in remove_entries_loop xs (removeAll entry es) (should_update \<or> entry \<in> set es))"

definition remove_entries :: "(h160 \<times> h256 \<times> uint256) list \<Rightarrow> topics_map \<Rightarrow> topics_map" where
  "remove_entries xs t =
     (let (es, should_update) = remove_entries_loop xs (tm_entries t) False;
          t1 = t\<lparr>tm_entries := es\<rparr>
      in if should_update then topics_update t1 else t1)"

section \<open>The derived lists follow the entries\<close>

definition topics_inv :: "topics_map \<Rightarrow> bool" where
  "topics_inv t \<longleftrightarrow>
     distinct (tm_entries t) \<and> distinct (tm_unique_addresses t) \<and> distinct (tm_unique_topics t) \<and>
     set (tm_unique_addresses t) = tm_address ` set (tm_entries t) \<and>
     set (tm_unique_topics t) = tm_topic_hash ` set (tm_entries t)"

definition entry_of :: "h160 \<times> h256 \<times> uint256 \<Rightarrow> topics_map_entry" where
  "entry_of x = (case x of (a, h, c) \<Rightarrow>
     \<lparr>tm_address = a, tm_topic_hash = h, tm_configuration_account = c\<rparr>)"

lemma topics_inv_default: "topics_inv topics_default"
  by (simp add: topics_inv_def topics_default_def)

lemma topics_inv_update: "distinct (tm_entries t) \<Longrightarrow> topics_inv (topics_update t)"
  by (simp add: topics_inv_def topics_update_def)

lemma topics_entries_update [simp]: "tm_entries (topics_update t) = tm_entries t"
  by (simp add: topics_update_def)

lemma topics_inv_distinct: "topics_inv t \<Longrightarrow> distinct (tm_entries t)"
  by (simp add: topics_inv_def)

lemma topics_inv_add: "topics_inv t \<Longrightarrow> topics_inv (add_entry a h c t)"
  by (simp add: add_entry_def Let_def topics_inv_update topics_inv_distinct)

lemma set_add_entry:
  "set (tm_entries (add_entry a h c t)) = insert (entry_of (a, h, c)) (set (tm_entries t))"
  by (auto simp: add_entry_def entry_of_def Let_def)

lemma remove_entries_loop_eq:
  "remove_entries_loop xs es b =
     (filter (\<lambda>e. e \<notin> entry_of ` set xs) es, b \<or> (\<exists>e \<in> set es. e \<in> entry_of ` set xs))"
proof (induction xs es b rule: remove_entries_loop.induct)
  case (2 a h c xs es b)
  let ?e = "entry_of (a, h, c)"
  have loop: "remove_entries_loop ((a, h, c) # xs) es b =
      remove_entries_loop xs (removeAll ?e es) (b \<or> ?e \<in> set es)"
    by (simp add: Let_def entry_of_def)
  have IH: "remove_entries_loop xs (removeAll ?e es) (b \<or> ?e \<in> set es) =
      (filter (\<lambda>e. e \<notin> entry_of ` set xs) (removeAll ?e es),
       (b \<or> ?e \<in> set es) \<or> (\<exists>e \<in> set (removeAll ?e es). e \<in> entry_of ` set xs))"
    using 2 by (simp add: Let_def entry_of_def)
  have "filter (\<lambda>e. e \<notin> entry_of ` set xs) (removeAll ?e es) =
      filter (\<lambda>e. e \<notin> entry_of ` set ((a, h, c) # xs)) es"
    by (simp add: removeAll_filter_not_eq) (rule filter_cong, auto)
  moreover have "((b \<or> ?e \<in> set es) \<or> (\<exists>e \<in> set (removeAll ?e es). e \<in> entry_of ` set xs)) =
      (b \<or> (\<exists>e \<in> set es. e \<in> entry_of ` set ((a, h, c) # xs)))"
    by auto
  ultimately show ?case
    unfolding loop IH by simp
qed simp

lemma remove_entries_entries:
  "tm_entries (remove_entries xs t) = filter (\<lambda>e. e \<notin> entry_of ` set xs) (tm_entries t)"
  by (auto simp: remove_entries_def remove_entries_loop_eq Let_def)

lemma topics_inv_remove:
  assumes "topics_inv t"
  shows "topics_inv (remove_entries xs t)"
proof (cases "\<exists>e \<in> set (tm_entries t). e \<in> entry_of ` set xs")
  case True
  have "distinct (filter (\<lambda>e. e \<notin> entry_of ` set xs) (tm_entries t))"
    using assms by (simp add: topics_inv_def)
  then show ?thesis
    using True by (simp add: remove_entries_def remove_entries_loop_eq topics_inv_update)
next
  case False
  then have "filter (\<lambda>e. e \<notin> entry_of ` set xs) (tm_entries t) = tm_entries t"
    by (intro filter_True) auto
  then show ?thesis
    using False assms by (simp add: remove_entries_def remove_entries_loop_eq topics_inv_def)
qed

lemma make_filter_None:
  "topics_inv t \<Longrightarrow> make_filter t f u = None \<longleftrightarrow> tm_entries t = []"
  by (auto simp: make_filter_def topics_inv_def)

text \<open>The operations a subscriber performs on its topics.\<close>

datatype topics_op = Subscribe h160 h256 uint256 | Unsubscribe "(h160 \<times> h256 \<times> uint256) list"

fun topics_run :: "topics_op list \<Rightarrow> topics_map \<Rightarrow> topics_map" where
  "topics_run [] t = t"
| "topics_run (Subscribe a h c # ops) t = topics_run ops (add_entry a h c t)"
| "topics_run (Unsubscribe xs # ops) t = topics_run ops (remove_entries xs t)"

fun spec_subscriptions ::
  "topics_op list \<Rightarrow> topics_map_entry set \<Rightarrow> topics_map_entry set" where
  "spec_subscriptions [] S = S"
| "spec_subscriptions (Subscribe a h c # ops) S =
     spec_subscriptions ops (insert (entry_of (a, h, c)) S)"
| "spec_subscriptions (Unsubscribe xs # ops) S = spec_subscriptions ops (S - entry_of ` set xs)"

lemma topics_run_inv: "topics_inv t \<Longrightarrow> topics_inv (topics_run ops t)"
  by (induction ops t rule: topics_run.induct) (simp_all add: topics_inv_add topics_inv_remove)

lemma topics_run_entries:
  "set (tm_entries (topics_run ops t)) = spec_subscriptions ops (set (tm_entries t))"
proof (induction ops t rule: topics_run.induct)
  case (3 xs ops t)
  have "set (tm_entries (remove_entries xs t)) = set (tm_entries t) - entry_of ` set xs"
    by (auto simp: remove_entries_entries)
  with 3 show ?case by simp
qed (simp_all add: set_add_entry)

section \<open>Properties\<close>

text \<open>After any sequence of subscriptions and removals the log filter asks for exactly the
  addresses and topics of the live subscriptions, without duplicates, over the given blocks; there
  is no filter exactly when there is no subscription.\<close>

theorem topics_filter_exact:
  "case make_filter (topics_run ops topics_default) f u of
      None \<Rightarrow> spec_subscriptions ops {} = {}
    | Some flt \<Rightarrow> spec_subscriptions ops {} \<noteq> {} \<and>
        set (lf_address flt) = tm_address ` spec_subscriptions ops {} \<and>
        set (lf_topics flt) = tm_topic_hash ` spec_subscriptions ops {} \<and>
        distinct (lf_address flt) \<and> distinct (lf_topics flt) \<and>
        lf_from_block flt = f \<and> lf_to_block flt = u"
proof -
  let ?t = "topics_run ops topics_default"
  have inv: "topics_inv ?t" by (intro topics_run_inv topics_inv_default)
  have S: "set (tm_entries ?t) = spec_subscriptions ops {}"
    by (simp add: topics_run_entries) (simp add: topics_default_def)
  show ?thesis
    using make_filter_None [OF inv, of f u] inv unfolding S [symmetric]
    by (auto simp: make_filter_def topics_inv_def split: option.splits if_splits)
qed

theorem topics_filter_exact_witness:
  "make_filter (topics_run [Subscribe 1 2 3, Subscribe 1 4 3, Unsubscribe [(1, 2, 3)]]
     topics_default) 5 6 \<noteq> None"
  using topics_filter_exact [where ops = "[Subscribe 1 2 3, Subscribe 1 4 3, Unsubscribe [(1, 2, 3)]]"
      and f = 5 and u = 6]
  by (auto simp: entry_of_def split: option.splits)

end
