(* ===== verification/Fixed_Retry.thy ===== *)
theory Fixed_Retry
  imports Prelude
begin

text \<open>
  The retry configurations of \<open>utils/retry.rs\<close>: a configuration of \<open>tryhard\<close> is the number of retries
  and the parameters of its backoff. The fixed one, which the EVM subscriber builds at the start of
  every update, may panic.
\<close>

datatype backoff =
    ExponentialBackoff nat "nat option" \<comment> \<open>first delay and \<open>max_delay\<close>, in seconds\<close>
  | FixedBackoff nat

record retry_config =
  rc_max_retries :: nat
  rc_backoff :: backoff

text \<open>Seconds of a \<open>Duration\<close>; \<open>None\<close> is a panic: a division by zero, or the \<open>expect\<close> of the
  conversion to \<open>u32\<close>.\<close>

definition generate_fixed_timeout_config :: "u64 \<Rightarrow> u64 \<Rightarrow> retry_config option" where
  "generate_fixed_timeout_config sleep_time total_time =
     (if sleep_time = 0 then None
      else if unat (total_time div sleep_time) < 2 ^ 32
      then Some \<lparr>rc_max_retries = unat (total_time div sleep_time),
                 rc_backoff = FixedBackoff (unat sleep_time)\<rparr>
      else None)"

end
