(* ===== verification/Eth_Subscriber.thy ===== *)
theory Eth_Subscriber
  imports Contract_Models Eth_Events Eth_Topics Fixed_Retry
begin

text \<open>
  \<open>engine/eth_subscriber/mod.rs\<close>: the registry of EVM subscribers, the confirmations that wait
  for their block, and the update loop that polls a chain.

  A oneshot channel is a number, handed out in order; \<open>es_answers\<close> lists what every finished
  channel got: \<open>Some status\<close> for \<open>tx.send(status)\<close>, \<open>None\<close> for a sender that was dropped
  (the receiver sees \<open>RecvError\<close>). \<open>eth_ton_abi_converter\<close> is the record \<open>eth_abi_lib\<close>.
  An RPC request is the outcome of its whole retry loop. One round of \<open>update\<close> is three
  definitions, because other tasks run between them: \<open>update_prepare\<close> (the block range; it panics when the retry
  configuration of the requests cannot be built),
  \<open>process_blocks\<close> (the logs) and \<open>update_locked\<close> with \<open>update_commit\<close> (the section that holds the
  mutex, and the block counter).
\<close>

section \<open>State\<close>

record eth_config =
  ec_chain_id :: u32
  ec_endpoint :: string
  ec_get_timeout_sec :: u64
  ec_blocks_processing_timeout_sec :: u64
  ec_pool_size :: usize
  ec_poll_interval_sec :: u64
  ec_max_block_range :: "u64 option"
  ec_maximum_failed_responses_time_sec :: u64

record ('abi, 'cell) eth_abi_lib =
  get_eth_topic_hash :: "'abi \<Rightarrow> h256"
  decode_and_map :: "'abi \<Rightarrow> u8 list \<Rightarrow> 'cell result"
  repr_hash :: "'cell \<Rightarrow> uint256"

datatype verification_status = Exists | NotExists

datatype pending_confirmation_status = InProcess | Valid | Invalid

fun status_from :: "verification_status \<Rightarrow> pending_confirmation_status" where
  "status_from Exists = Valid"
| "status_from NotExists = Invalid"

type_synonym channel = nat

record ('abi, 'cell) pending_confirmation =
  pc_vote_data :: "'cell eth_event_vote_data"
  pc_status_tx :: "channel option"
  pc_event_emitter :: h160
  pc_event_abi :: 'abi
  pc_target_block :: u64
  pc_status :: pending_confirmation_status

type_synonym ('abi, 'cell) confirmations = "(eth_event_id, ('abi, 'cell) pending_confirmation) hmap"

record ('abi, 'cell) eth_subscriber =
  es_chain_id :: u32
  es_config :: eth_config
  es_topics :: topics_map
  es_last_processed_block :: u64
  es_pending_confirmations :: "('abi, 'cell) confirmations"
  es_pending_confirmation_count :: usize
  es_next_channel :: channel
  es_answers :: "(channel \<times> verification_status option) list"

text \<open>\<open>EthSubscriber::new\<close> reads the current height and registers it for the chain.\<close>

definition eth_subscriber_new ::
  "(u32, u64) hmap \<Rightarrow> eth_config \<Rightarrow> u64 result \<Rightarrow>
   (('abi, 'cell) eth_subscriber \<times> (u32, u64) hmap) result" where
  "eth_subscriber_new last_block_numbers config get_current_block_number =
     and_then get_current_block_number (\<lambda>last_processed_block.
       Inr (\<lparr>es_chain_id = ec_chain_id config, es_config = config, es_topics = topics_default,
             es_last_processed_block = last_processed_block, es_pending_confirmations = [],
             es_pending_confirmation_count = 0, es_next_channel = 0, es_answers = []\<rparr>,
            hm_insert (ec_chain_id config) last_processed_block last_block_numbers))"

section \<open>Registry\<close>

record ('abi, 'cell) eth_registry =
  reg_subscribers :: "(u32, ('abi, 'cell) eth_subscriber) hmap"
  reg_last_block_numbers :: "(u32, u64) hmap"

definition get_subscriber ::
  "('abi, 'cell) eth_registry \<Rightarrow> u32 \<Rightarrow> ('abi, 'cell) eth_subscriber option" where
  "get_subscriber reg chain_id = hm_get (reg_subscribers reg) chain_id"

definition get_last_block_number :: "('abi, 'cell) eth_registry \<Rightarrow> u32 \<Rightarrow> u64 result" where
  "get_last_block_number reg chain_id =
     (case hm_get (reg_last_block_numbers reg) chain_id of
        Some item \<Rightarrow> Inr item
      | None \<Rightarrow> Inl (EthSubscriberErr EthUnknownChainId))"

definition new_subscriber ::
  "('abi, 'cell) eth_registry \<Rightarrow> eth_config \<Rightarrow> u64 result \<Rightarrow> ('abi, 'cell) eth_registry result" where
  "new_subscriber reg config get_current_block_number =
     and_then (context_res ''Failed to create EVM subscriber''
         (eth_subscriber_new (reg_last_block_numbers reg) config get_current_block_number))
       (\<lambda>(subscriber, last_block_numbers).
         Inr \<lparr>reg_subscribers = hm_insert (ec_chain_id config) subscriber (reg_subscribers reg),
              reg_last_block_numbers = last_block_numbers\<rparr>)"

fun registry_add_all ::
  "(eth_config \<Rightarrow> u64 result) \<Rightarrow> eth_config list \<Rightarrow> ('abi, 'cell) eth_registry \<Rightarrow>
   ('abi, 'cell) eth_registry result" where
  "registry_add_all current_block [] reg = Inr reg"
| "registry_add_all current_block (config # networks) reg =
     and_then (new_subscriber reg config (current_block config))
       (registry_add_all current_block networks)"

definition registry_new ::
  "(eth_config \<Rightarrow> u64 result) \<Rightarrow> eth_config list \<Rightarrow> ('abi, 'cell) eth_registry result" where
  "registry_new current_block networks =
     registry_add_all current_block networks \<lparr>reg_subscribers = [], reg_last_block_numbers = []\<rparr>"

section \<open>Confirmations\<close>

definition pc_check ::
  "('abi, 'cell) eth_abi_lib \<Rightarrow> ('abi, 'cell) pending_confirmation \<Rightarrow> received_eth_event \<Rightarrow>
   verification_status" where
  "pc_check lib self event =
     (let vote_data = pc_vote_data self
      in if rc_address event \<noteq> pc_event_emitter self
            \<or> rc_topic_hash event \<noteq> get_eth_topic_hash lib (pc_event_abi self)
            \<or> rc_event_index event \<noteq> evd_event_index vote_data
            \<or> rc_transaction_hash event \<noteq> evd_event_transaction vote_data
            \<or> rc_block_number event \<noteq> ucast (evd_event_block_number vote_data)
            \<or> rc_block_hash event \<noteq> evd_event_block vote_data
         then NotExists
         else case decode_and_map lib (pc_event_abi self) (rc_data event) of
                Inr data \<Rightarrow>
                  if repr_hash lib data = repr_hash lib (evd_event_data vote_data)
                  then Exists else NotExists
              | Inl _ \<Rightarrow> NotExists)"

text \<open>The part of \<open>verify\<close> under the mutex; the caller then waits on the returned channel.
  Inserting over an entry drops the sender the old entry held.\<close>

definition verify ::
  "'cell eth_event_vote_data \<Rightarrow> h160 \<Rightarrow> 'abi \<Rightarrow> u16 \<Rightarrow> ('abi, 'cell) eth_subscriber \<Rightarrow>
   ('abi, 'cell) eth_subscriber \<times> channel" where
  "verify vote_data event_emitter event_abi blocks_to_confirm s =
     (let ev = (evd_event_transaction vote_data, evd_event_index vote_data);
          tx = es_next_channel s;
          target_block = ucast (evd_event_block_number vote_data) + ucast blocks_to_confirm;
          dropped = (case hm_get (es_pending_confirmations s) ev of
                       Some old \<Rightarrow>
                         (case pc_status_tx old of Some c \<Rightarrow> [(c, None)] | None \<Rightarrow> [])
                     | None \<Rightarrow> []);
          pending = hm_insert ev
            \<lparr>pc_vote_data = vote_data, pc_status_tx = Some tx, pc_event_emitter = event_emitter,
             pc_event_abi = event_abi, pc_target_block = target_block, pc_status = InProcess\<rparr>
            (es_pending_confirmations s)
      in (s\<lparr>es_pending_confirmations := pending,
            es_pending_confirmation_count := of_nat (length pending),
            es_next_channel := tx + 1,
            es_answers := es_answers s @ dropped\<rparr>, tx))"

text \<open>\<open>rx.await?\<close>: the answer of a finished channel.\<close>

definition receive :: "('abi, 'cell) eth_subscriber \<Rightarrow> channel \<Rightarrow> verification_status result option" where
  "receive s c =
     (case map_of (es_answers s) c of
        None \<Rightarrow> None
      | Some (Some status) \<Rightarrow> Some (Inr status)
      | Some None \<Rightarrow> Some (Inl (Foreign ''channel closed'')))"

section \<open>One round of the update loop\<close>

definition is_incomplete_message :: "(32 word \<Rightarrow> string) \<Rightarrow> error \<Rightarrow> bool" where
  "is_incomplete_message show_i32 e =
     str_contains ''hyper::Error(IncompleteMessage)'' (error_to_string show_i32 e)"

text \<open>\<open>Panicked\<close>: the retry configuration, built before the first request, divides by a timeout of
  zero seconds or has a number of retries that does not fit 32 bits.\<close>

datatype update_start = Panicked | Return "unit result" | Range u64 u64

definition update_prepare ::
  "(32 word \<Rightarrow> string) \<Rightarrow> u64 result \<Rightarrow> ('abi, 'cell) eth_subscriber \<Rightarrow> update_start" where
  "update_prepare show_i32 get_current_block_number s =
     (case generate_fixed_timeout_config (ec_get_timeout_sec (es_config s))
          (ec_maximum_failed_responses_time_sec (es_config s)) of
        None \<Rightarrow> Panicked
      | Some api_request_strategy \<Rightarrow>
          (case get_current_block_number of
             Inl e \<Rightarrow>
               if is_incomplete_message show_i32 e then Return (Inr ())
               else Return (Inl (Context ''Failed to get actual EVM height'' e))
           | Inr current_block \<Rightarrow>
               (let last_processed_block = es_last_processed_block s
                in if last_processed_block \<ge> current_block then Return (Inr ())
                   else Range last_processed_block
                     (case ec_max_block_range (es_config s) of
                        Some max_block_range \<Rightarrow>
                          if last_processed_block + max_block_range < current_block
                          then last_processed_block + max_block_range
                          else current_block
                      | None \<Rightarrow> current_block))))"

text \<open>\<open>process_blocks\<close> under its timeout: the request is \<open>None\<close> when every attempt timed out. No
  request is made without subscriptions.\<close>

definition process_blocks ::
  "(log_filter \<Rightarrow> web3_log list result option) \<Rightarrow> topics_map \<Rightarrow> u64 \<Rightarrow> u64 \<Rightarrow>
   parsed_eth_event list result option" where
  "process_blocks eth_getLogs topics from_block to_block =
     (case make_filter topics from_block to_block of
        None \<Rightarrow> Some (Inr [])
      | Some filter' \<Rightarrow>
          map_option (\<lambda>logs. and_then (context_res ''Failed getting eth logs'' logs)
            (\<lambda>logs. Inr (parse_transaction_logs logs))) (eth_getLogs filter'))"

text \<open>The first loop under the mutex: the events of the range set the status.\<close>

definition event_sets_status ::
  "('abi, 'cell) eth_abi_lib \<Rightarrow> ('abi, 'cell) pending_confirmation \<Rightarrow> parsed_eth_event \<Rightarrow>
   pending_confirmation_status" where
  "event_sets_status lib confirmation event =
     (case event of
        Removed _ \<Rightarrow> Invalid
      | Received event \<Rightarrow> status_from (pc_check lib confirmation event))"

fun apply_events ::
  "('abi, 'cell) eth_abi_lib \<Rightarrow> parsed_eth_event list \<Rightarrow> ('abi, 'cell) confirmations \<Rightarrow>
   ('abi, 'cell) confirmations" where
  "apply_events lib [] pending = pending"
| "apply_events lib (event # events) pending =
     apply_events lib events
       (case hm_get pending (event_id event) of
          Some confirmation \<Rightarrow>
            hm_insert (event_id event)
              (confirmation\<lparr>pc_status := event_sets_status lib confirmation event\<rparr>) pending
        | None \<Rightarrow> pending)"

text \<open>The \<open>retain\<close>: the confirmations kept, the events to check and the answers sent.\<close>

definition send_to ::
  "('abi, 'cell) pending_confirmation \<Rightarrow> verification_status \<Rightarrow>
   (channel \<times> verification_status option) list" where
  "send_to confirmation status =
     (case pc_status_tx confirmation of Some tx \<Rightarrow> [(tx, Some status)] | None \<Rightarrow> [])"

fun retain_confirmations ::
  "u64 \<Rightarrow> ('abi, 'cell) confirmations \<Rightarrow>
   ('abi, 'cell) confirmations \<times> eth_event_id list \<times> (channel \<times> verification_status option) list" where
  "retain_confirmations current_block [] = ([], [], [])"
| "retain_confirmations current_block ((ev, confirmation) # cs) =
     (let (kept, checks, answers) = retain_confirmations current_block cs
      in if pc_target_block confirmation > current_block
         then ((ev, confirmation) # kept, checks, answers)
         else case pc_status confirmation of
                Invalid \<Rightarrow> (kept, checks, send_to confirmation NotExists @ answers)
              | _ \<Rightarrow> ((ev, confirmation) # kept, ev # checks, answers))"

text \<open>The second loop: the checked events resolve their confirmations.\<close>

fun resolve_checked ::
  "('abi, 'cell) eth_abi_lib \<Rightarrow> (eth_event_id \<times> parsed_eth_event option result) list \<Rightarrow>
   ('abi, 'cell) confirmations \<Rightarrow>
   ('abi, 'cell) confirmations \<times> (channel \<times> verification_status option) list" where
  "resolve_checked lib [] pending = (pending, [])"
| "resolve_checked lib ((ev, r) # rs) pending =
     (case hm_get pending ev of
        None \<Rightarrow> resolve_checked lib rs pending
      | Some confirmation \<Rightarrow>
          (case (case r of
                   Inr (Some (Received event)) \<Rightarrow> Some (pc_check lib confirmation event)
                 | Inr _ \<Rightarrow> Some NotExists
                 | Inl e \<Rightarrow> None) of
             None \<Rightarrow> resolve_checked lib rs pending
           | Some status \<Rightarrow>
               (let (pending', answers) = resolve_checked lib rs (hm_remove ev pending)
                in (pending', send_to confirmation status @ answers))))"

text \<open>The section that holds the mutex. \<open>order\<close> is the order in which the \<open>FuturesUnordered\<close>
  requests complete.\<close>

definition update_locked ::
  "('abi, 'cell) eth_abi_lib \<Rightarrow> (h256 \<Rightarrow> web3_receipt option result) \<Rightarrow>
   (eth_event_id list \<Rightarrow> eth_event_id list) \<Rightarrow> u64 \<Rightarrow> parsed_eth_event list \<Rightarrow>
   ('abi, 'cell) eth_subscriber \<Rightarrow> ('abi, 'cell) eth_subscriber" where
  "update_locked lib transaction_receipt order current_block events s =
     (let pending = apply_events lib events (es_pending_confirmations s);
          (kept, checks, answers) = retain_confirmations current_block pending;
          events_to_check = map (\<lambda>ev. (ev, find_event transaction_receipt ev))
            (order checks);
          (pending', answers') = resolve_checked lib events_to_check kept
      in s\<lparr>es_pending_confirmations := pending',
           es_pending_confirmation_count := of_nat (length pending'),
           es_answers := es_answers s @ answers @ answers'\<rparr>)"

text \<open>The block counters move only when the chain is registered.\<close>

definition update_commit ::
  "u64 \<Rightarrow> ('abi, 'cell) eth_subscriber \<Rightarrow> (u32, u64) hmap \<Rightarrow>
   ('abi, 'cell) eth_subscriber \<times> (u32, u64) hmap" where
  "update_commit current_block s last_block_numbers =
     (if hm_contains (es_chain_id s) last_block_numbers
      then (s\<lparr>es_last_processed_block := current_block\<rparr>,
            hm_insert (es_chain_id s) current_block last_block_numbers)
      else (s, last_block_numbers))"

definition eth_subscribe ::
  "h160 \<Rightarrow> h256 \<Rightarrow> uint256 \<Rightarrow> ('abi, 'cell) eth_subscriber \<Rightarrow> ('abi, 'cell) eth_subscriber" where
  "eth_subscribe address topic_hash configuration_account s =
     s\<lparr>es_topics := add_entry address topic_hash configuration_account (es_topics s)\<rparr>"

definition eth_unsubscribe ::
  "(h160 \<times> h256 \<times> uint256) list \<Rightarrow> ('abi, 'cell) eth_subscriber \<Rightarrow>
   ('abi, 'cell) eth_subscriber" where
  "eth_unsubscribe subscriptions s = s\<lparr>es_topics := remove_entries subscriptions (es_topics s)\<rparr>"

record eth_subscriber_metrics =
  esm_last_processed_block :: u64
  esm_pending_confirmation_count :: usize

definition eth_metrics :: "('abi, 'cell) eth_subscriber \<Rightarrow> eth_subscriber_metrics" where
  "eth_metrics s = \<lparr>esm_last_processed_block = es_last_processed_block s,
     esm_pending_confirmation_count = es_pending_confirmation_count s\<rparr>"

end
