(* ===== verification/Eth_Confirmations.thy ===== *)
theory Eth_Confirmations
  imports Eth_Subscriber
begin

text \<open>
  What the section of \<open>EthSubscriber::update\<close> under the mutex does to each pending confirmation,
  stated once per confirmation (\<open>resolution\<close>) and proved of the three loops of the code, and
  the accounting of the oneshot channels.
\<close>

section \<open>The specification of a round\<close>

text \<open>The last event of the block range that carries the confirmation's id decides its status.\<close>

definition status_after ::
  "('abi, 'cell) eth_abi_lib \<Rightarrow> parsed_eth_event list \<Rightarrow> eth_event_id \<Rightarrow>
   ('abi, 'cell) pending_confirmation \<Rightarrow> pending_confirmation_status" where
  "status_after lib events k c =
     (case List.find (\<lambda>e. event_id e = k) (rev events) of
        None \<Rightarrow> pc_status c
      | Some e \<Rightarrow> event_sets_status lib c e)"

definition with_status ::
  "('abi, 'cell) eth_abi_lib \<Rightarrow> parsed_eth_event list \<Rightarrow> eth_event_id \<Rightarrow>
   ('abi, 'cell) pending_confirmation \<Rightarrow> ('abi, 'cell) pending_confirmation" where
  "with_status lib events k c = c\<lparr>pc_status := status_after lib events k c\<rparr>"

definition verdict ::
  "('abi, 'cell) eth_abi_lib \<Rightarrow> ('abi, 'cell) pending_confirmation \<Rightarrow>
   parsed_eth_event option result \<Rightarrow> verification_status option" where
  "verdict lib c r =
     (case r of
        Inr (Some (Received event)) \<Rightarrow> Some (pc_check lib c event)
      | Inr _ \<Rightarrow> Some NotExists
      | Inl e \<Rightarrow> None)"

text \<open>\<open>None\<close>: the confirmation stays; \<open>Some status\<close>: it is removed with this answer.\<close>

definition resolution ::
  "('abi, 'cell) eth_abi_lib \<Rightarrow> (h256 \<Rightarrow> web3_receipt option result) \<Rightarrow> u64 \<Rightarrow> eth_event_id \<Rightarrow>
   ('abi, 'cell) pending_confirmation \<Rightarrow> verification_status option" where
  "resolution lib transaction_receipt current_block k c =
     (if pc_target_block c > current_block then None
      else if pc_status c = Invalid then Some NotExists
      else verdict lib c (find_event transaction_receipt k))"

definition answer_of ::
  "('abi, 'cell) pending_confirmation \<Rightarrow> verification_status option \<Rightarrow>
   (channel \<times> verification_status option) list" where
  "answer_of c v = (case v of None \<Rightarrow> [] | Some status \<Rightarrow> send_to c status)"

section \<open>The first loop\<close>

lemma pc_check_status [simp]: "pc_check lib (c\<lparr>pc_status := st\<rparr>) e = pc_check lib c e"
  by (simp add: pc_check_def Let_def)

lemma event_sets_status_status [simp]:
  "event_sets_status lib (c\<lparr>pc_status := st\<rparr>) e = event_sets_status lib c e"
  by (simp add: event_sets_status_def split: parsed_eth_event.splits)

lemma status_after_Cons:
  "with_status lib (e # events) k c =
     with_status lib events k
       (if event_id e = k then c\<lparr>pc_status := event_sets_status lib c e\<rparr> else c)"
  by (simp add: with_status_def status_after_def find_append split: option.splits)

lemma apply_events_eq:
  assumes "hm_wf pending"
  shows "apply_events lib events pending = map (\<lambda>(k, c). (k, with_status lib events k c)) pending"
  using assms
proof (induction events arbitrary: pending)
  case Nil
  have "with_status lib [] k c = c" for k and c :: "('a, 'b) pending_confirmation"
    by (simp add: with_status_def status_after_def)
  then show ?case by simp
next
  case (Cons e events)
  show ?case
  proof (cases "hm_get pending (event_id e)")
    case None
    have "with_status lib (e # events) k c = with_status lib events k c" if "(k, c) \<in> set pending" for k c
    proof -
      have "event_id e \<noteq> k" using that None by (auto simp: map_of_eq_None_iff rev_image_eqI)
      then show ?thesis by (simp add: status_after_Cons)
    qed
    then have "map (\<lambda>(k, c). (k, with_status lib (e # events) k c)) pending =
        map (\<lambda>(k, c). (k, with_status lib events k c)) pending"
      by (intro map_cong refl) (simp add: case_prod_unfold)
    then show ?thesis
      using Cons.IH [OF Cons.prems] None by (simp only: apply_events.simps option.case)
  next
    case (Some c)
    have "hm_insert (event_id e) (c\<lparr>pc_status := event_sets_status lib c e\<rparr>) pending =
        map (\<lambda>(k, c). (k, if event_id e = k then c\<lparr>pc_status := event_sets_status lib c e\<rparr> else c))
          pending" (is "?ins = ?mapped")
    proof -
      have "c' = c" if "(event_id e, c') \<in> set pending" for c'
        using Some map_of_is_SomeI [OF Cons.prems that] by simp
      then have same: "(if k = event_id e then c\<lparr>pc_status := event_sets_status lib c e\<rparr> else c') =
          (if event_id e = k then c'\<lparr>pc_status := event_sets_status lib c' e\<rparr> else c')"
        if "(k, c') \<in> set pending" for k c'
        using that by (cases "k = event_id e") simp_all
      have "?ins = map (\<lambda>(k, x). (k, if k = event_id e
          then c\<lparr>pc_status := event_sets_status lib c e\<rparr> else x)) pending"
        by (rule hm_insert_existing) (use Some Cons.prems in simp_all)
      also have "\<dots> = ?mapped"
      proof (intro map_cong refl)
        fix x assume "x \<in> set pending"
        moreover obtain k c' where "x = (k, c')" by (cases x)
        ultimately show "(case x of (k, x) \<Rightarrow> (k, if k = event_id e
              then c\<lparr>pc_status := event_sets_status lib c e\<rparr> else x)) =
            (case x of (k, c) \<Rightarrow> (k, if event_id e = k
              then c\<lparr>pc_status := event_sets_status lib c e\<rparr> else c))"
          using same [of k c'] by (simp only: prod.case)
      qed
      finally show ?thesis .
    qed
    moreover have "apply_events lib (e # events) pending = apply_events lib events ?ins"
      using Some by simp
    moreover have "apply_events lib events ?ins =
        map (\<lambda>(k, c). (k, with_status lib events k c)) ?ins"
      by (rule Cons.IH) (use Cons.prems in simp)
    ultimately show ?thesis
      by (simp only: status_after_Cons list.map_comp comp_def case_prod_unfold fst_conv snd_conv)
  qed
qed

section \<open>The second loop\<close>

lemma retain_confirmations_eq:
  "retain_confirmations current_block cs =
     (filter (\<lambda>(k, c). pc_target_block c > current_block \<or> pc_status c \<noteq> Invalid) cs,
      map fst (filter (\<lambda>(k, c). pc_target_block c \<le> current_block \<and> pc_status c \<noteq> Invalid) cs),
      concat (map (\<lambda>(k, c). if pc_target_block c \<le> current_block \<and> pc_status c = Invalid
                              then send_to c NotExists else []) cs))"
  by (induction cs rule: retain_confirmations.induct)
    (auto simp: not_less split: pending_confirmation_status.splits)

section \<open>The third loop\<close>

lemma resolve_checked_verdict:
  "resolve_checked lib ((ev, r) # rs) pending =
     (case hm_get pending ev of
        None \<Rightarrow> resolve_checked lib rs pending
      | Some c \<Rightarrow>
          (case verdict lib c r of
             None \<Rightarrow> resolve_checked lib rs pending
           | Some status \<Rightarrow>
               (fst (resolve_checked lib rs (hm_remove ev pending)),
                send_to c status @ snd (resolve_checked lib rs (hm_remove ev pending)))))"
  by (auto simp: verdict_def Let_def
      split: option.splits sum.splits prod.splits parsed_eth_event.splits)

definition checked_answer ::
  "('abi, 'cell) eth_abi_lib \<Rightarrow> ('abi, 'cell) confirmations \<Rightarrow>
   eth_event_id \<times> parsed_eth_event option result \<Rightarrow> (channel \<times> verification_status option) list" where
  "checked_answer lib pending x =
     (case hm_get pending (fst x) of None \<Rightarrow> [] | Some c \<Rightarrow> answer_of c (verdict lib c (snd x)))"

definition unresolved ::
  "('abi, 'cell) eth_abi_lib \<Rightarrow> (eth_event_id \<times> parsed_eth_event option result) list \<Rightarrow>
   eth_event_id \<times> ('abi, 'cell) pending_confirmation \<Rightarrow> bool" where
  "unresolved lib rs x =
     (case map_of rs (fst x) of None \<Rightarrow> True | Some r \<Rightarrow> verdict lib (snd x) r = None)"

lemma resolve_checked_eq:
  assumes "distinct (map fst rs)" "hm_wf pending"
  shows "resolve_checked lib rs pending =
    (filter (unresolved lib rs) pending, concat (map (checked_answer lib pending) rs))"
  using assms
proof (induction rs arbitrary: pending)
  case Nil
  have "unresolved lib [] x" for x :: "eth_event_id \<times> ('a, 'b) pending_confirmation"
    by (simp add: unresolved_def)
  then show ?case by simp
next
  case (Cons x rs)
  obtain ev r where x: "x = (ev, r)" by (cases x)
  have fresh: "map_of rs ev = None" using Cons.prems by (simp add: x map_of_eq_None_iff)
  have wf: "hm_wf pending" "distinct (map fst rs)" using Cons.prems by simp_all
  have skip: "unresolved lib (x # rs) y = unresolved lib rs y"
    if "y \<in> set pending" "fst y = ev \<Longrightarrow> verdict lib (snd y) r = None" for y
    using that fresh by (simp add: unresolved_def x)
  show ?case
  proof (cases "\<exists>c status. hm_get pending ev = Some c \<and> verdict lib c r = Some status")
    case False
    have "filter (unresolved lib (x # rs)) pending = filter (unresolved lib rs) pending"
    proof (intro filter_cong refl skip)
      show "verdict lib (snd y) r = None" if "y \<in> set pending" "fst y = ev" for y
        using that False map_of_is_SomeI [OF wf(1), of "fst y" "snd y"]
        by (cases "verdict lib (snd y) r") auto
    qed
    moreover have "checked_answer lib pending x = []"
      using False by (auto simp: checked_answer_def answer_of_def x split: option.splits)
    moreover have "resolve_checked lib (x # rs) pending = resolve_checked lib rs pending"
      using False by (auto simp only: x resolve_checked_verdict split: option.splits)
    ultimately show ?thesis using Cons.IH [OF wf(2) wf(1)] by simp
  next
    case True
    then obtain c status where c: "hm_get pending ev = Some c" "verdict lib c r = Some status"
      by blast
    let ?p = "hm_remove ev pending"
    have "filter (unresolved lib rs) ?p = filter (unresolved lib (x # rs)) pending"
    proof -
      have "fst y \<noteq> ev \<and> unresolved lib rs y \<longleftrightarrow> unresolved lib (x # rs) y"
        if "y \<in> set pending" for y
        using that c map_of_is_SomeI [OF wf(1), of "fst y" "snd y"]
        by (auto simp: unresolved_def x)
      then show ?thesis
        by (auto simp: hm_remove_filter filter_filter case_prod_unfold intro!: filter_cong)
    qed
    moreover have "concat (map (checked_answer lib ?p) rs) =
        concat (map (checked_answer lib pending) rs)"
      using Cons.prems
      by (intro arg_cong [where f = concat] map_cong refl)
        (auto simp: checked_answer_def hm_get_remove x rev_image_eqI)
    moreover have "checked_answer lib pending x = send_to c status"
      using c by (simp add: checked_answer_def answer_of_def x)
    moreover have "resolve_checked lib (x # rs) pending =
        (fst (resolve_checked lib rs ?p), send_to c status @ snd (resolve_checked lib rs ?p))"
      using c by (simp only: x resolve_checked_verdict option.case)
    ultimately show ?thesis
      using Cons.IH [OF wf(2), of ?p] wf(1) by simp
  qed
qed

section \<open>A whole round\<close>

text \<open>The requests complete in any order.\<close>

definition completion_order :: "('a list \<Rightarrow> 'a list) \<Rightarrow> bool" where
  "completion_order order \<longleftrightarrow> (\<forall>xs. mset (order xs) = mset xs)"

lemma completion_orderD:
  assumes "completion_order order"
  shows "mset (order xs) = mset xs" "set (order xs) = set xs" "distinct (order xs) = distinct xs"
  using assms mset_eq_setD [of "order xs" xs] mset_eq_imp_distinct_iff [of "order xs" xs]
  by (auto simp: completion_order_def)

definition due :: "u64 \<Rightarrow> eth_event_id \<times> ('abi, 'cell) pending_confirmation \<Rightarrow> bool" where
  "due current_block x \<longleftrightarrow> pc_target_block (snd x) \<le> current_block \<and> pc_status (snd x) \<noteq> Invalid"

definition round_resolution ::
  "('abi, 'cell) eth_abi_lib \<Rightarrow> (h256 \<Rightarrow> web3_receipt option result) \<Rightarrow> u64 \<Rightarrow>
   eth_event_id \<times> ('abi, 'cell) pending_confirmation \<Rightarrow> verification_status option" where
  "round_resolution lib transaction_receipt current_block x =
     resolution lib transaction_receipt current_block (fst x) (snd x)"

lemma concat_map_checks:
  assumes "hm_wf m" "\<And>x. x \<in> set m \<Longrightarrow> P x \<Longrightarrow> x \<in> set kept" "hm_wf kept"
  shows "concat (map (\<lambda>k. checked_answer lib kept (k, f k)) (map fst (filter P m))) =
    concat (map (\<lambda>x. if P x then answer_of (snd x) (verdict lib (snd x) (f (fst x))) else []) m)"
  using assms(1,2)
proof (induction m)
  case (Cons x m)
  have "hm_get kept (fst x) = Some (snd x)" if "P x"
    using that Cons.prems(2) [of x] assms(3) by (simp add: map_of_is_SomeI)
  with Cons show ?case by (simp add: checked_answer_def)
qed simp

lemma answers_split:
  "mset (concat (map (\<lambda>x. if P x then f x else []) m)) +
     mset (concat (map (\<lambda>x. if Q x then g x else []) m)) =
   mset (concat (map (\<lambda>x. (if P x then f x else []) @ (if Q x then g x else [])) m))"
  by (induction m) (simp_all add: ac_simps)

lemma update_locked_eq:
  fixes s :: "('abi, 'cell) eth_subscriber" and lib :: "('abi, 'cell) eth_abi_lib"
    and rcpt :: "h256 \<Rightarrow> web3_receipt option result" and events current_block order
  assumes wf: "hm_wf (es_pending_confirmations s)" and order: "completion_order order"
  defines "pend \<equiv> apply_events lib events (es_pending_confirmations s)"
  defines "s' \<equiv> update_locked lib rcpt order current_block events s"
  defines "res \<equiv> round_resolution lib rcpt current_block"
  shows "es_pending_confirmations s' = filter (\<lambda>x. res x = None) pend"
    and "mset (es_answers s') =
      mset (es_answers s) + mset (concat (map (\<lambda>x. answer_of (snd x) (res x)) pend))"
    and "es_pending_confirmation_count s' = of_nat (length (es_pending_confirmations s'))"
    and "es_next_channel s' = es_next_channel s"
    and "es_last_processed_block s' = es_last_processed_block s"
proof -
  let ?keep = "\<lambda>(k, c). pc_target_block c > current_block \<or> pc_status c \<noteq> Invalid"
  let ?invalid = "\<lambda>x. pc_target_block (snd x) \<le> current_block \<and> pc_status (snd x) = Invalid"
  let ?kept = "filter ?keep pend"
  let ?checks = "map fst (filter (due current_block) pend)"
  let ?find = "\<lambda>k. find_event rcpt k"
  let ?rs = "map (\<lambda>k. (k, ?find k)) (order ?checks)"
  have wf': "hm_wf pend"
    using wf by (simp add: pend_def apply_events_eq comp_def case_prod_unfold)
  have kept: "hm_wf ?kept" using wf' by simp
  have distinct: "distinct ?checks" using wf' by (auto simp: distinct_map intro: inj_on_subset)
  have rs: "distinct (map fst ?rs)"
    using distinct by (simp add: comp_def completion_orderD [OF order])
  have due: "(\<lambda>(k, c). pc_target_block c \<le> current_block \<and> pc_status c \<noteq> Invalid) =
      (due current_block :: eth_event_id \<times> ('abi, 'cell) pending_confirmation \<Rightarrow> bool)"
    by (simp add: fun_eq_iff due_def)
  note retained = retain_confirmations_eq [of current_block pend, unfolded due]
  note resolved = resolve_checked_eq [OF rs kept, of lib]
  have s': "s' = s\<lparr>es_pending_confirmations := filter (unresolved lib ?rs) ?kept,
      es_pending_confirmation_count := of_nat (length (filter (unresolved lib ?rs) ?kept)),
      es_answers := es_answers s @
        concat (map (\<lambda>(k, c). if pc_target_block c \<le> current_block \<and> pc_status c = Invalid
                              then send_to c NotExists else []) pend) @
        concat (map (checked_answer lib ?kept) ?rs)\<rparr>"
    by (simp add: s'_def update_locked_def Let_def retained resolved flip: pend_def)
  show "es_next_channel s' = es_next_channel s"
    "es_last_processed_block s' = es_last_processed_block s"
    "es_pending_confirmation_count s' = of_nat (length (es_pending_confirmations s'))"
    by (simp_all add: s')
  show "es_pending_confirmations s' = filter (\<lambda>x. res x = None) pend"
  proof -
    have "?keep x \<and> unresolved lib ?rs x \<longleftrightarrow> res x = None" if "x \<in> set pend" for x
    proof (cases "due current_block x")
      case True
      then have "fst x \<in> set ?checks" using that by auto
      then have "map_of ?rs (fst x) = Some (?find (fst x))"
        by (simp add: map_of_map_restrict completion_orderD [OF order])
      then show ?thesis
        using True by (auto simp: res_def round_resolution_def resolution_def unresolved_def
            due_def not_less case_prod_unfold)
    next
      case False
      have "fst x \<notin> set ?checks"
      proof
        assume "fst x \<in> set ?checks"
        then obtain y where y: "y \<in> set pend" "due current_block y" "fst y = fst x" by auto
        then have "y = x" using wf' that by (metis distinct_map inj_on_contraD)
        then show False using y False by simp
      qed
      then have "map_of ?rs (fst x) = None"
        by (simp add: map_of_map_restrict completion_orderD [OF order])
      then show ?thesis
        using False by (auto simp: res_def round_resolution_def resolution_def unresolved_def
            due_def not_less not_le case_prod_unfold)
    qed
    then show ?thesis
      by (simp add: s' filter_filter) (rule filter_cong, auto)
  qed
  show "mset (es_answers s') =
      mset (es_answers s) + mset (concat (map (\<lambda>x. answer_of (snd x) (res x)) pend))"
  proof -
    let ?check = "\<lambda>x. if due current_block x
        then answer_of (snd x) (verdict lib (snd x) (?find (fst x))) else []"
    let ?reject = "\<lambda>x. if ?invalid x then send_to (snd x) NotExists else []"
    have "mset (concat (map (checked_answer lib ?kept) ?rs)) =
        mset (concat (map (\<lambda>k. checked_answer lib ?kept (k, ?find k)) (order ?checks)))"
      by (simp add: comp_def)
    also have "\<dots> = mset (concat (map (\<lambda>k. checked_answer lib ?kept (k, ?find k)) ?checks))"
      by (rule mset_concat_map_order) (rule completion_orderD [OF order])
    also have "\<dots> = mset (concat (map ?check pend))"
      by (subst concat_map_checks [OF wf' _ kept]) (auto simp: due_def)
    finally have "mset (es_answers s') =
        mset (es_answers s) + (mset (concat (map ?reject pend)) + mset (concat (map ?check pend)))"
      by (simp add: s' case_prod_unfold)
    also have "mset (concat (map ?reject pend)) + mset (concat (map ?check pend)) =
        mset (concat (map (\<lambda>x. ?reject x @ ?check x) pend))"
      by (rule answers_split)
    also have "(\<lambda>x. ?reject x @ ?check x) = (\<lambda>x. answer_of (snd x) (res x))"
      by (auto simp: fun_eq_iff res_def round_resolution_def resolution_def due_def answer_of_def
          not_less split: option.split)
    finally show ?thesis .
  qed
qed

end
