(* ===== verification/Channels.thy ===== *)
theory Channels
  imports Prelude
begin

text \<open>
  Oneshot channels, as the EVM subscriber and the queue of messages use them: a component hands out
  numbered channels, each of which waits in its state until it is answered. The contract is that no
  channel is lost and none is counted twice; what a caller may rely on follows once and for all.
\<close>

locale oneshot_channels =
  fixes invar :: "'s \<Rightarrow> bool"
    and waiting :: "'s \<Rightarrow> nat list"
    and answers :: "'s \<Rightarrow> (nat \<times> 'a) list"
    and issued :: "'s \<Rightarrow> nat"
  assumes accounted: "invar s \<Longrightarrow>
    mset (waiting s) + mset (map fst (answers s)) = mset_set {0..<issued s}"
begin

lemma waiting_distinct: "invar s \<Longrightarrow> distinct (waiting s)"
  using accounted by (rule mset_plus_set_distinct)

lemma answers_distinct:
  assumes "invar s"
  shows "distinct (map fst (answers s))"
proof -
  have "mset (map fst (answers s)) + mset (waiting s) = mset_set {0..<issued s}"
    using accounted [OF assms] by (simp only: add.commute)
  then show ?thesis by (rule mset_plus_set_distinct)
qed

lemma waiting_answered: "invar s \<Longrightarrow> set (waiting s) \<inter> fst ` set (answers s) = {}"
  using mset_plus_set_disjoint [OF accounted] by simp

lemma all_issued: "invar s \<Longrightarrow> set (waiting s) \<union> fst ` set (answers s) = {0..<issued s}"
  using mset_plus_set_union [OF accounted] by simp

lemma answer_found: "invar s \<Longrightarrow> map_of (answers s) c = Some a \<longleftrightarrow> (c, a) \<in> set (answers s)"
  by (rule map_of_eq_Some_iff [OF answers_distinct])

lemma waiting_unanswered:
  assumes "invar s" "c \<in> set (waiting s)"
  shows "map_of (answers s) c = None" "c < issued s"
proof -
  show "map_of (answers s) c = None"
    using waiting_answered [OF assms(1)] assms(2) by (auto simp: map_of_eq_None_iff)
  show "c < issued s" using all_issued [OF assms(1)] assms(2) by auto
qed

lemma unissued:
  assumes "invar s" "issued s \<le> c"
  shows "c \<notin> set (waiting s)" "map_of (answers s) c = None"
proof -
  have "c \<notin> set (waiting s) \<union> fst ` set (answers s)"
    using assms(2) by (simp add: all_issued [OF assms(1)])
  then show "c \<notin> set (waiting s)" "map_of (answers s) c = None"
    by (simp_all add: map_of_eq_None_iff)
qed

end

text \<open>Over time: steps keep the accounting and only add answers, so an answer is final.\<close>

locale oneshot_system = oneshot_channels +
  fixes step :: "'s \<Rightarrow> 's \<Rightarrow> bool"
  assumes step_invar: "step s t \<Longrightarrow> invar s \<Longrightarrow> invar t"
    and step_answers: "step s t \<Longrightarrow> invar s \<Longrightarrow> set (answers s) \<subseteq> set (answers t)"
begin

lemma steps_keep:
  assumes "step\<^sup>*\<^sup>* s t" "invar s"
  shows "invar t \<and> set (answers s) \<subseteq> set (answers t)"
  using assms
proof (induction rule: rtranclp_induct)
  case (step t u)
  then show ?case using step_invar [OF step(2)] step_answers [OF step(2)] by blast
qed simp

lemma answer_final:
  assumes "step\<^sup>*\<^sup>* s t" "invar s" "map_of (answers s) c = Some a"
  shows "map_of (answers t) c = Some a"
  using steps_keep [OF assms(1,2)] assms(2,3) answer_found by blast

lemma answered_once:
  assumes "step\<^sup>*\<^sup>* s t" "invar s" "c \<notin> set (waiting s)" "c < issued s"
  shows "c \<notin> set (waiting t)"
proof -
  obtain a where "map_of (answers s) c = Some a"
    using all_issued [OF assms(2)] assms(3,4) by (fastforce simp: answer_found [OF assms(2)])
  from answer_final [OF assms(1,2) this] show ?thesis
    using waiting_unanswered [of t c] steps_keep [OF assms(1,2)] by auto
qed

end

end
