(* ===== verification/Eth_Properties.thy ===== *)
theory Eth_Properties
  imports Eth_Confirmations Channels
begin

text \<open>
  The EVM subscriber as a system: tasks call \<open>verify\<close>, \<open>subscribe\<close> and \<open>unsubscribe\<close> between
  the phases of the update loop, and the properties of every reachable state.
\<close>

section \<open>Channels\<close>

definition waiting_channels :: "('abi, 'cell) confirmations \<Rightarrow> channel list" where
  "waiting_channels pending =
     concat (map (\<lambda>x. case pc_status_tx (snd x) of Some c \<Rightarrow> [c] | None \<Rightarrow> []) pending)"

text \<open>Every channel handed out is open or finished, and neither twice.\<close>

definition subscriber_inv :: "('abi, 'cell) eth_subscriber \<Rightarrow> bool" where
  "subscriber_inv s \<longleftrightarrow>
     hm_wf (es_pending_confirmations s) \<and>
     es_pending_confirmation_count s = of_nat (length (es_pending_confirmations s)) \<and>
     (\<forall>x \<in> set (es_pending_confirmations s). pc_status_tx (snd x) \<noteq> None) \<and>
     mset (waiting_channels (es_pending_confirmations s)) + mset (map fst (es_answers s)) =
       mset_set {0..<es_next_channel s}"

lemma subscriber_inv_new:
  "eth_subscriber_new lbn config r = Inr (s, lbn') \<Longrightarrow> subscriber_inv s"
  by (auto simp: eth_subscriber_new_def subscriber_inv_def waiting_channels_def and_then_Inr_iff)

lemma waiting_channels_simps [simp]:
  "waiting_channels [] = []"
  "waiting_channels (x # xs) =
     (case pc_status_tx (snd x) of Some c \<Rightarrow> [c] | None \<Rightarrow> []) @ waiting_channels xs"
  "waiting_channels (xs @ ys) = waiting_channels xs @ waiting_channels ys"
  by (simp_all add: waiting_channels_def)

lemma mset_open_channels_cong:
  "mset xs = mset ys \<Longrightarrow> mset (waiting_channels xs) = mset (waiting_channels ys)"
  unfolding waiting_channels_def by (rule mset_concat_map_order)

lemma subscriber_inv_verify:
  assumes inv: "subscriber_inv s"
  shows "subscriber_inv (fst (verify vd em abi n s))"
proof -
  let ?ev = "(evd_event_transaction vd, evd_event_index vd)"
  let ?p = "es_pending_confirmations s"
  let ?c = "\<lparr>pc_vote_data = vd, pc_status_tx = Some (es_next_channel s), pc_event_emitter = em,
     pc_event_abi = abi,
     pc_target_block = ucast (evd_event_block_number vd) + ucast n, pc_status = InProcess\<rparr>"
  have wf: "hm_wf ?p" using inv by (simp add: subscriber_inv_def)
  have tx: "pc_status_tx (snd x) \<noteq> None" if "x \<in> set (hm_insert ?ev ?c ?p)" for x
    using hm_insert_elem [OF that] inv by (auto simp: subscriber_inv_def)
  have "mset (waiting_channels (hm_insert ?ev ?c ?p)) + mset (map fst (es_answers (fst (verify vd em abi n s)))) =
      add_mset (es_next_channel s) (mset (waiting_channels ?p) + mset (map fst (es_answers s)))"
  proof (cases "hm_get ?p ?ev")
    case None
    then show ?thesis by (simp add: verify_def Let_def hm_insert_new)
  next
    case (Some old)
    then have "(?ev, old) \<in> set ?p" by (rule hm_get_in_set)
    then obtain c where c: "pc_status_tx old = Some c"
      using inv by (auto simp: subscriber_inv_def)
    have "mset ((?ev, old) # hm_insert ?ev ?c ?p) = mset ((?ev, ?c) # ?p)"
      using hm_insert_existing_mset [OF wf Some] by simp
    from mset_open_channels_cong [OF this]
    have "add_mset c (mset (waiting_channels (hm_insert ?ev ?c ?p))) =
        add_mset (es_next_channel s) (mset (waiting_channels ?p))"
      using c by simp
    then show ?thesis
      using Some c by (simp add: verify_def Let_def)
  qed
  also have "\<dots> = mset_set {0..<Suc (es_next_channel s)}"
    using inv by (simp add: subscriber_inv_def atLeast0_lessThan_Suc)
  finally have channels: "mset (waiting_channels (hm_insert ?ev ?c ?p)) +
      mset (map fst (es_answers (fst (verify vd em abi n s)))) = \<dots>" .
  have fields: "es_pending_confirmations (fst (verify vd em abi n s)) = hm_insert ?ev ?c ?p"
    "es_pending_confirmation_count (fst (verify vd em abi n s)) = of_nat (length (hm_insert ?ev ?c ?p))"
    "es_next_channel (fst (verify vd em abi n s)) = Suc (es_next_channel s)"
    by (simp_all add: verify_def Let_def)
  show ?thesis
    unfolding subscriber_inv_def fields using channels tx wf by blast
qed

interpretation evm: oneshot_channels subscriber_inv
  "\<lambda>s. waiting_channels (es_pending_confirmations s)" es_answers es_next_channel
  by unfold_locales (simp only: subscriber_inv_def)

lemmas subscriber_inv_channels = evm.answers_distinct evm.waiting_answered evm.all_issued

lemma waiting_channels_round:
  "mset (waiting_channels (filter (\<lambda>x. res x = None) xs)) +
     mset (map fst (concat (map (\<lambda>x. answer_of (snd x) (res x)) xs))) = mset (waiting_channels xs)"
  by (induction xs) (auto simp: answer_of_def send_to_def split: option.splits)

lemma pc_status_tx_with_status [simp]:
  "pc_status_tx (with_status lib events k c) = pc_status_tx c"
  by (simp add: with_status_def)

lemma waiting_channels_apply_events:
  "hm_wf p \<Longrightarrow> waiting_channels (apply_events lib events p) = waiting_channels p"
  by (simp add: apply_events_eq waiting_channels_def comp_def case_prod_unfold)

lemma hm_wf_apply_events: "hm_wf p \<Longrightarrow> hm_wf (apply_events lib events p)"
  by (simp add: apply_events_eq comp_def case_prod_unfold)

lemma subscriber_inv_update_locked:
  assumes inv: "subscriber_inv s" and order: "completion_order order"
  shows "subscriber_inv (update_locked lib rcpt order b events s)"
proof -
  have wf: "hm_wf (es_pending_confirmations s)" using inv by (simp add: subscriber_inv_def)
  let ?pend = "apply_events lib events (es_pending_confirmations s)"
  note eqs = update_locked_eq [OF wf order, where lib = lib and events = events and rcpt = rcpt
    and current_block = b]
  have "pc_status_tx (snd x) \<noteq> None" if "x \<in> set ?pend" for x
    using that inv by (auto simp: apply_events_eq [OF wf] subscriber_inv_def)
  moreover have "mset (waiting_channels (filter (\<lambda>x. round_resolution lib rcpt b x = None) ?pend)) +
      mset (map fst (es_answers (update_locked lib rcpt order b events s))) =
      mset (waiting_channels (es_pending_confirmations s)) + mset (map fst (es_answers s))"
  proof -
    have "mset (map fst (es_answers (update_locked lib rcpt order b events s))) =
        image_mset fst (mset (es_answers (update_locked lib rcpt order b events s)))" by simp
    also have "\<dots> = mset (map fst (es_answers s)) + mset (map fst (concat (map
        (\<lambda>x. answer_of (snd x) (round_resolution lib rcpt b x)) ?pend)))"
      by (simp only: eqs(2) image_mset_union mset_map)
    finally show ?thesis
      using waiting_channels_round [of "round_resolution lib rcpt b" ?pend]
        waiting_channels_apply_events [OF wf, of lib events]
      by (simp add: ac_simps)
  qed
  ultimately show ?thesis
    using inv eqs(1,3,4) hm_wf_apply_events [OF wf]
    by (simp add: subscriber_inv_def)
qed

section \<open>The system\<close>

text \<open>One round's request for logs: the block range, the subscriptions it was made for, what the node
  answers to a log filter at that time, and the events that came back.\<close>

record block_request =
  bq_from :: u64
  bq_to :: u64
  bq_topics :: topics_map
  bq_get_logs :: "log_filter \<Rightarrow> web3_log list result option"
  bq_events :: "parsed_eth_event list"

datatype phase =
    Idle
  | Fetching u64 u64
  | Fetched block_request
  | Resolved block_request

text \<open>\<open>sys_windows\<close> is a history: the requests of the rounds that the loop has finished.\<close>

record ('abi, 'cell) eth_system =
  sys_sub :: "('abi, 'cell) eth_subscriber"
  sys_last_block_numbers :: "(u32, u64) hmap"
  sys_phase :: phase
  sys_windows :: "block_request list"

text \<open>Block heights stay below \<open>2^63\<close>; the configured range is positive and below \<open>2^63\<close>.\<close>

definition range_config_ok :: "eth_config \<Rightarrow> bool" where
  "range_config_ok config =
     (case ec_max_block_range config of None \<Rightarrow> True | Some m \<Rightarrow> 0 < m \<and> m < 2 ^ 63)"

inductive sys_step ::
  "(32 word \<Rightarrow> string) \<Rightarrow> ('abi, 'cell) eth_abi_lib \<Rightarrow>
   ('abi, 'cell) eth_system \<Rightarrow> ('abi, 'cell) eth_system \<Rightarrow> bool" for show_i32 lib where
  Verify: "sys_step show_i32 lib y (y\<lparr>sys_sub := fst (verify vd em abi n (sys_sub y))\<rparr>)"
| Subscribe: "sys_step show_i32 lib y (y\<lparr>sys_sub := eth_subscribe a h c (sys_sub y)\<rparr>)"
| Unsubscribe: "sys_step show_i32 lib y (y\<lparr>sys_sub := eth_unsubscribe xs (sys_sub y)\<rparr>)"
| Other_chain: "chain \<noteq> es_chain_id (sys_sub y) \<Longrightarrow>
    sys_step show_i32 lib y
      (y\<lparr>sys_last_block_numbers := hm_insert chain height (sys_last_block_numbers y)\<rparr>)"
| Poll: "sys_phase y = Idle \<Longrightarrow> height < 2 ^ 63 \<Longrightarrow>
    update_prepare show_i32 (Inr height) (sys_sub y) = Range f t \<Longrightarrow>
    sys_step show_i32 lib y (y\<lparr>sys_phase := Fetching f t\<rparr>)"
| Fetch: "sys_phase y = Fetching f t \<Longrightarrow>
    process_blocks eth_getLogs (es_topics (sys_sub y)) f t = Some (Inr events) \<Longrightarrow>
    sys_step show_i32 lib y
      (y\<lparr>sys_phase := Fetched \<lparr>bq_from = f, bq_to = t, bq_topics = es_topics (sys_sub y),
         bq_get_logs = eth_getLogs, bq_events = events\<rparr>\<rparr>)"
| Fetch_failed: "sys_phase y = Fetching f t \<Longrightarrow> sys_step show_i32 lib y (y\<lparr>sys_phase := Idle\<rparr>)"
| Resolve: "sys_phase y = Fetched q \<Longrightarrow> completion_order order \<Longrightarrow>
    sys_step show_i32 lib y
      (y\<lparr>sys_sub :=
           update_locked lib transaction_receipt order (bq_to q) (bq_events q) (sys_sub y),
         sys_phase := Resolved q\<rparr>)"
| Commit: "sys_phase y = Resolved q \<Longrightarrow>
    update_commit (bq_to q) (sys_sub y) (sys_last_block_numbers y) = (s', lbn') \<Longrightarrow>
    sys_step show_i32 lib y
      (y\<lparr>sys_sub := s', sys_last_block_numbers := lbn', sys_phase := Idle,
         sys_windows := sys_windows y @ [q]\<rparr>)"

inductive sys_reachable ::
  "(32 word \<Rightarrow> string) \<Rightarrow> ('abi, 'cell) eth_abi_lib \<Rightarrow> eth_config \<Rightarrow> u64 \<Rightarrow>
   ('abi, 'cell) eth_system \<Rightarrow> bool" for show_i32 lib config start where
  Start: "start < 2 ^ 63 \<Longrightarrow> range_config_ok config \<Longrightarrow>
    eth_subscriber_new lbn config (Inr start) = Inr (s, lbn') \<Longrightarrow>
    sys_reachable show_i32 lib config start
      \<lparr>sys_sub = s, sys_last_block_numbers = lbn', sys_phase = Idle, sys_windows = []\<rparr>"
| Step: "sys_reachable show_i32 lib config start y \<Longrightarrow> sys_step show_i32 lib y z \<Longrightarrow>
    sys_reachable show_i32 lib config start z"

text \<open>Consecutive requests: each starts at the block where the one before ended.\<close>

fun chained :: "u64 \<Rightarrow> block_request list \<Rightarrow> u64 \<Rightarrow> bool" where
  "chained a [] b \<longleftrightarrow> a = b"
| "chained a (q # qs) b \<longleftrightarrow> bq_from q = a \<and> a < bq_to q \<and> chained (bq_to q) qs b"

lemma chained_snoc:
  "chained a (qs @ [q]) b \<longleftrightarrow> chained a qs (bq_from q) \<and> bq_from q < bq_to q \<and> bq_to q = b"
  by (induction a qs "bq_from q" arbitrary: rule: chained.induct) auto

lemma chained_lower: "chained a qs b \<Longrightarrow> q \<in> set qs \<Longrightarrow> a \<le> bq_from q \<and> bq_from q < bq_to q"
  by (induction a qs b rule: chained.induct) force+

text \<open>Both ends of a request are included, as in \<open>eth_getLogs\<close>.\<close>

definition asked_for :: "block_request \<Rightarrow> u64 \<Rightarrow> bool" where
  "asked_for q x \<longleftrightarrow> bq_from q \<le> x \<and> x \<le> bq_to q"

lemma chained_cover:
  "chained a qs b \<Longrightarrow> a < b \<Longrightarrow> a \<le> x \<Longrightarrow> x \<le> b \<Longrightarrow> \<exists>q \<in> set qs. asked_for q x"
proof (induction a qs b rule: chained.induct)
  case (2 a q qs b)
  show ?case
  proof (cases "x \<le> bq_to q")
    case True
    with 2 show ?thesis by (auto simp: asked_for_def)
  next
    case False
    with 2 have "\<exists>q \<in> set qs. asked_for q x" by (intro 2(1)) auto
    then show ?thesis by auto
  qed
qed simp

text \<open>Two requests overlap in a boundary block only.\<close>

lemma chained_overlap:
  "chained a qs b \<Longrightarrow> i < j \<Longrightarrow> j < length qs \<Longrightarrow> asked_for (qs ! i) x \<Longrightarrow> asked_for (qs ! j) x \<Longrightarrow>
   j = Suc i \<and> x = bq_to (qs ! i) \<and> x = bq_from (qs ! j)"
proof (induction a qs b arbitrary: i j rule: chained.induct)
  case (2 a q qs b)
  obtain j' where j: "j = Suc j'" using 2(3) by (cases j) auto
  have rest: "chained (bq_to q) qs b" using 2(2) by simp
  show ?case
  proof (cases i)
    case (Suc i')
    then show ?thesis using 2(1) [OF rest, of i' j'] 2(3-6) j by auto
  next
    case 0
    have x: "x \<le> bq_to q" "bq_from (qs ! j') \<le> x"
      using 2(5,6) 0 j by (simp_all add: asked_for_def)
    have j': "j' < length qs" using 2(4) j by simp
    have "j' = 0"
    proof (rule ccontr)
      assume "j' \<noteq> 0"
      then obtain p ps k where qs: "qs = p # ps" and k: "j' = Suc k"
        using j' by (cases qs; cases j') auto
      have "bq_to q < bq_to p" "chained (bq_to p) ps b" using rest qs by simp_all
      moreover have "ps ! k \<in> set ps" using j' qs k by simp
      ultimately have "bq_to q < bq_from (ps ! k)"
        using chained_lower by (meson less_le_trans)
      then show False using x qs k by simp
    qed
    moreover have "bq_from (qs ! 0) = bq_to q" using rest j' by (cases qs) auto
    ultimately show ?thesis using x 0 j by auto
  qed
qed simp

text \<open>What a round asks of the node: the closed range and the subscriptions; nothing without any.\<close>

definition request_exact :: "block_request \<Rightarrow> bool" where
  "request_exact q \<longleftrightarrow>
     (if tm_entries (bq_topics q) = [] then bq_events q = []
      else \<exists>flt logs. bq_get_logs q flt = Some (Inr logs) \<and> bq_events q = parse_transaction_logs logs \<and>
        lf_from_block flt = bq_from q \<and> lf_to_block flt = bq_to q \<and>
        set (lf_address flt) = tm_address ` set (tm_entries (bq_topics q)) \<and>
        set (lf_topics flt) = tm_topic_hash ` set (tm_entries (bq_topics q)))"

lemma process_blocks_exact:
  assumes "topics_inv topics"
    and "process_blocks eth_getLogs topics f t = Some (Inr events)"
  shows "request_exact \<lparr>bq_from = f, bq_to = t, bq_topics = topics, bq_get_logs = eth_getLogs,
    bq_events = events\<rparr>"
proof (cases "make_filter topics f t")
  case None
  then show ?thesis
    using assms make_filter_None [OF assms(1), of f t]
    by (simp add: process_blocks_def request_exact_def)
next
  case (Some flt)
  obtain logs where logs: "eth_getLogs flt = Some (Inr logs)" "events = parse_transaction_logs logs"
    using assms(2) Some by (auto simp: process_blocks_def and_then_Inr_iff)
  have "tm_entries topics \<noteq> []"
    using Some make_filter_None [OF assms(1), of f t] by auto
  moreover have "lf_from_block flt = f \<and> lf_to_block flt = t \<and>
      set (lf_address flt) = tm_address ` set (tm_entries topics) \<and>
      set (lf_topics flt) = tm_topic_hash ` set (tm_entries topics)"
    using Some assms(1) by (auto simp: make_filter_def topics_inv_def split: if_splits)
  ultimately show ?thesis
    using logs by (auto simp: request_exact_def)
qed

text \<open>A log is subscribed to when its emitter and its first topic are those of some subscriptions; the
  node admits it to the answer of a filter that names them and a range around its block.\<close>

definition subscribed_log :: "topics_map \<Rightarrow> web3_log \<Rightarrow> bool" where
  "subscribed_log topics l \<longleftrightarrow>
     log_address l \<in> tm_address ` set (tm_entries topics) \<and>
     (case log_topics l of [] \<Rightarrow> False | h # _ \<Rightarrow> h \<in> tm_topic_hash ` set (tm_entries topics))"

definition filter_admits :: "log_filter \<Rightarrow> web3_log \<Rightarrow> bool" where
  "filter_admits flt l \<longleftrightarrow>
     log_address l \<in> set (lf_address flt) \<and>
     (case log_topics l of [] \<Rightarrow> False | h # _ \<Rightarrow> h \<in> set (lf_topics flt)) \<and>
     (case log_block_number l of None \<Rightarrow> False
      | Some n \<Rightarrow> lf_from_block flt \<le> n \<and> n \<le> lf_to_block flt)"

text \<open>The log is on the chain the node answers from.\<close>

definition node_has_log :: "(log_filter \<Rightarrow> web3_log list result option) \<Rightarrow> web3_log \<Rightarrow> bool" where
  "node_has_log eth_getLogs l \<longleftrightarrow>
     (\<forall>flt logs. eth_getLogs flt = Some (Inr logs) \<longrightarrow> filter_admits flt l \<longrightarrow> l \<in> set logs)"

lemma request_finds_log:
  assumes "request_exact q" "subscribed_log (bq_topics q) l" "node_has_log (bq_get_logs q) l"
    and "log_block_number l = Some x" "asked_for q x" "parsed_eth_event_try_from l = Inr e"
  shows "e \<in> set (bq_events q)"
proof -
  have "tm_entries (bq_topics q) \<noteq> []"
    using assms(2) by (auto simp: subscribed_log_def)
  then obtain flt logs where flt: "bq_get_logs q flt = Some (Inr logs)"
    "bq_events q = parse_transaction_logs logs"
    "lf_from_block flt = bq_from q" "lf_to_block flt = bq_to q"
    "set (lf_address flt) = tm_address ` set (tm_entries (bq_topics q))"
    "set (lf_topics flt) = tm_topic_hash ` set (tm_entries (bq_topics q))"
    using assms(1) by (auto simp: request_exact_def)
  then have "filter_admits flt l"
    using assms(2,4,5)
    by (simp add: filter_admits_def subscribed_log_def asked_for_def split: list.splits)
  then have "l \<in> set logs"
    using assms(3) flt(1) by (auto simp: node_has_log_def)
  then show ?thesis
    using assms(6) flt(2) by (auto simp: set_parse_transaction_logs)
qed

definition retry_config_ok :: "eth_config \<Rightarrow> bool" where
  "retry_config_ok config \<longleftrightarrow>
     0 < unat (ec_get_timeout_sec config) \<and>
     unat (ec_maximum_failed_responses_time_sec config) div unat (ec_get_timeout_sec config) < 2 ^ 32"

lemma retry_config_ok_iff:
  "retry_config_ok config \<longleftrightarrow> generate_fixed_timeout_config (ec_get_timeout_sec config)
     (ec_maximum_failed_responses_time_sec config) \<noteq> None"
  by (simp add: retry_config_ok_def generate_fixed_timeout_config_def unat_div unat_gt_0)

lemma update_prepare_Panicked:
  "update_prepare show_i32 r s = Panicked \<longleftrightarrow> \<not> retry_config_ok (es_config s)"
  by (auto simp: update_prepare_def retry_config_ok_iff Let_def split: option.splits sum.splits)

lemma update_prepare_Range:
  "update_prepare show_i32 (Inr height) s = Range f t \<longleftrightarrow>
     retry_config_ok (es_config s) \<and> \<not> height \<le> es_last_processed_block s \<and>
     f = es_last_processed_block s \<and>
     t = (case ec_max_block_range (es_config s) of
        Some m \<Rightarrow> if es_last_processed_block s + m < height
          then es_last_processed_block s + m else height
      | None \<Rightarrow> height)"
proof -
  have start: "(if b then Return x else Range f' t') = Range f t \<longleftrightarrow> \<not> b \<and> f = f' \<and> t = t'"
    for b x f' t' by auto
  show ?thesis
    by (cases "generate_fixed_timeout_config (ec_get_timeout_sec (es_config s))
        (ec_maximum_failed_responses_time_sec (es_config s))")
      (simp_all only: update_prepare_def retry_config_ok_iff Let_def sum.case option.case start
        update_start.distinct option.distinct not_True_eq_False not_False_eq_True simp_thms)
qed

lemma update_prepare_range:
  assumes "update_prepare show_i32 (Inr height) s = Range f t"
    and "range_config_ok (es_config s)" "height < 2 ^ 63"
  shows "f = es_last_processed_block s \<and> f < t \<and> t \<le> height \<and>
    (\<forall>m. ec_max_block_range (es_config s) = Some m \<longrightarrow> t \<le> f + m)"
proof -
  let ?t = "case ec_max_block_range (es_config s) of
      Some m \<Rightarrow> if es_last_processed_block s + m < height
        then es_last_processed_block s + m else height
    | None \<Rightarrow> height"
  have start: "\<not> height \<le> es_last_processed_block s" "f = es_last_processed_block s" "t = ?t"
    using assms(1) unfolding update_prepare_Range by blast+
  note f = start(2) and t = start(3)
  have less: "f < height"
    using start(1) f by (simp only: not_le)
  show ?thesis
  proof (cases "ec_max_block_range (es_config s)")
    case None
    then show ?thesis using f less t by simp
  next
    case (Some m)
    then have "0 < m" "m < 2 ^ 63" using assms(2) by (simp_all add: range_config_ok_def)
    moreover have "f < 2 ^ 63" using less assms(3) by (rule order.strict_trans)
    ultimately have step: "f < f + m" by (intro less_add_below_2_63)
    show ?thesis
    proof (cases "f + m < height")
      case True
      then show ?thesis using Some t f step by simp
    next
      case False
      then have "t = height" using Some t f by simp
      then show ?thesis using False Some f less by (simp add: not_less)
    qed
  qed
qed

definition sys_inv :: "eth_config \<Rightarrow> u64 \<Rightarrow> ('abi, 'cell) eth_system \<Rightarrow> bool" where
  "sys_inv config start y \<longleftrightarrow>
     subscriber_inv (sys_sub y) \<and>
     es_config (sys_sub y) = config \<and> range_config_ok config \<and>
     topics_inv (es_topics (sys_sub y)) \<and>
     hm_get (sys_last_block_numbers y) (es_chain_id (sys_sub y)) =
       Some (es_last_processed_block (sys_sub y)) \<and>
     chained start (sys_windows y) (es_last_processed_block (sys_sub y)) \<and>
     list_all request_exact (sys_windows y) \<and>
     (case sys_phase y of
        Idle \<Rightarrow> True
      | Fetching f t \<Rightarrow> f = es_last_processed_block (sys_sub y) \<and> f < t
      | Fetched q \<Rightarrow> bq_from q = es_last_processed_block (sys_sub y) \<and> bq_from q < bq_to q \<and> request_exact q
      | Resolved q \<Rightarrow> bq_from q = es_last_processed_block (sys_sub y) \<and> bq_from q < bq_to q \<and> request_exact q)"

lemma update_locked_fields [simp]:
  "es_config (update_locked lib rcpt order b events s) = es_config s"
  "es_topics (update_locked lib rcpt order b events s) = es_topics s"
  "es_chain_id (update_locked lib rcpt order b events s) = es_chain_id s"
  "es_last_processed_block (update_locked lib rcpt order b events s) = es_last_processed_block s"
  by (simp_all add: update_locked_def Let_def case_prod_unfold)

lemma verify_fields [simp]:
  "es_config (fst (verify vd em abi n s)) = es_config s"
  "es_topics (fst (verify vd em abi n s)) = es_topics s"
  "es_chain_id (fst (verify vd em abi n s)) = es_chain_id s"
  "es_last_processed_block (fst (verify vd em abi n s)) = es_last_processed_block s"
  by (simp_all add: verify_def Let_def)

lemma subscriber_inv_cong:
  "subscriber_inv s \<Longrightarrow> es_pending_confirmations s' = es_pending_confirmations s \<Longrightarrow>
   es_pending_confirmation_count s' = es_pending_confirmation_count s \<Longrightarrow>
   es_answers s' = es_answers s \<Longrightarrow> es_next_channel s' = es_next_channel s \<Longrightarrow> subscriber_inv s'"
  by (simp add: subscriber_inv_def)

lemma sys_inv_step:
  assumes "sys_step show_i32 lib y z" "sys_inv config start y"
  shows "sys_inv config start z"
  using assms
proof (induction rule: sys_step.induct)
  case (Verify y vd em abi n)
  then show ?case
    by (auto simp: sys_inv_def subscriber_inv_verify split: phase.splits)
next
  case (Subscribe y a h c)
  then show ?case
    by (auto simp: sys_inv_def eth_subscribe_def topics_inv_add split: phase.splits
        elim: subscriber_inv_cong)
next
  case (Unsubscribe y xs)
  then show ?case
    by (auto simp: sys_inv_def eth_unsubscribe_def topics_inv_remove split: phase.splits
        elim: subscriber_inv_cong)
next
  case (Other_chain chain y height)
  then show ?case
    by (auto simp: sys_inv_def hm_get_insert split: phase.splits)
next
  case (Poll y height f t)
  have "f = es_last_processed_block (sys_sub y) \<and> f < t"
    using update_prepare_range [OF Poll(3)] Poll by (auto simp: sys_inv_def)
  with Poll show ?case by (auto simp: sys_inv_def)
next
  case (Fetch y f t eth_getLogs events)
  then have "request_exact \<lparr>bq_from = f, bq_to = t, bq_topics = es_topics (sys_sub y),
      bq_get_logs = eth_getLogs, bq_events = events\<rparr>"
    by (intro process_blocks_exact) (simp_all add: sys_inv_def)
  with Fetch show ?case by (auto simp: sys_inv_def)
next
  case (Resolve y q order rcpt)
  then show ?case
    by (auto simp: sys_inv_def subscriber_inv_update_locked)
next
  case (Commit y q s' lbn')
  then have "hm_contains (es_chain_id (sys_sub y)) (sys_last_block_numbers y)"
    by (simp add: sys_inv_def hm_contains_def)
  with Commit show ?case
    by (auto simp: sys_inv_def update_commit_def chained_snoc hm_get_insert
        elim: subscriber_inv_cong)
qed (simp_all add: sys_inv_def)

lemma sys_reachable_inv: "sys_reachable show_i32 lib config start y \<Longrightarrow> sys_inv config start y"
proof (induction rule: sys_reachable.induct)
  case (Start lbn s lbn')
  then show ?case
    using subscriber_inv_new [OF Start(3)]
    by (auto simp: sys_inv_def eth_subscriber_new_def hm_get_insert topics_inv_default)
next
  case (Step y z)
  then show ?case using sys_inv_step by blast
qed

text \<open>Over the steps of the system no answer is taken back or changed.\<close>

lemma verify_answers: "set (es_answers s) \<subseteq> set (es_answers (fst (verify vd em abi n s)))"
  by (auto simp: verify_def Let_def)

lemma update_locked_answers:
  "set (es_answers s) \<subseteq> set (es_answers (update_locked lib rcpt order b events s))"
  by (auto simp: update_locked_def Let_def case_prod_unfold)

lemma sys_step_answers:
  "sys_step show_i32 lib y z \<Longrightarrow> set (es_answers (sys_sub y)) \<subseteq> set (es_answers (sys_sub z))"
proof (induction rule: sys_step.induct)
  case (Verify y vd em abi n)
  then show ?case using verify_answers by simp
next
  case (Resolve y q order rcpt)
  then show ?case using update_locked_answers by simp
next
  case (Commit y q s' lbn')
  then show ?case by (auto simp: update_commit_def split: if_splits)
qed (simp_all add: eth_subscribe_def eth_unsubscribe_def)

interpretation evs: oneshot_system "sys_inv config start"
  "\<lambda>y. waiting_channels (es_pending_confirmations (sys_sub y))" "\<lambda>y. es_answers (sys_sub y)"
  "\<lambda>y. es_next_channel (sys_sub y)" "sys_step show_i32 lib" for config start show_i32 lib
proof (unfold_locales, goal_cases)
  case (1 s)
  then show ?case by (simp only: sys_inv_def subscriber_inv_def)
next
  case (2 s t)
  then show ?case by (rule sys_inv_step)
next
  case (3 s t)
  then show ?case by (blast dest: sys_step_answers)
qed

section \<open>Properties\<close>

text \<open>\<open>check\<close> accepts an event exactly when its emitter, topic, index, transaction, block number
  and block hash are the voted ones and its data decodes to a cell with the voted hash.\<close>

theorem check_exact:
  "pc_check lib c ev = Exists \<longleftrightarrow>
     rc_address ev = pc_event_emitter c \<and>
     rc_topic_hash ev = get_eth_topic_hash lib (pc_event_abi c) \<and>
     rc_transaction_hash ev = evd_event_transaction (pc_vote_data c) \<and>
     rc_event_index ev = evd_event_index (pc_vote_data c) \<and>
     unat (rc_block_number ev) = unat (evd_event_block_number (pc_vote_data c)) \<and>
     rc_block_hash ev = evd_event_block (pc_vote_data c) \<and>
     (\<exists>data. decode_and_map lib (pc_event_abi c) (rc_data ev) = Inr data \<and>
        repr_hash lib data = repr_hash lib (evd_event_data (pc_vote_data c)))"
proof -
  have "rc_block_number ev = ucast (evd_event_block_number (pc_vote_data c)) \<longleftrightarrow>
      unat (rc_block_number ev) = unat (evd_event_block_number (pc_vote_data c))"
    by (simp add: word_unat_eq_iff unat_ucast_up)
  then show ?thesis
    by (auto simp: pc_check_def Let_def split: sum.splits)
qed

lemma update_locked_get:
  assumes wf: "hm_wf (es_pending_confirmations s)" and order: "completion_order order"
  shows "hm_get (es_pending_confirmations (update_locked lib rcpt order b events s)) k =
    (case hm_get (es_pending_confirmations s) k of
       None \<Rightarrow> None
     | Some c \<Rightarrow> if resolution lib rcpt b k (with_status lib events k c) = None
         then Some (with_status lib events k c) else None)"
  using hm_wf_apply_events [OF wf, of lib events]
  by (simp add: update_locked_eq [OF wf order] hm_get_filter round_resolution_def)
    (cases "hm_get (es_pending_confirmations s) k"; simp add: apply_events_eq [OF wf] hm_get_map_snd)

text \<open>C3: The locked section of a round does to every pending confirmation what its specification
  says: the last event of the range with its id sets its status; it stays while its target
  block is ahead or its receipt cannot be read, and otherwise it is removed and its caller gets the
  verdict. The answers sent are these and no others, whatever the order in which the receipts
  arrive.\<close>

theorem round_functional:
  assumes wf: "hm_wf (es_pending_confirmations s)" and order: "completion_order order"
  shows "hm_get (es_pending_confirmations (update_locked lib rcpt order b events s)) k =
      (case hm_get (es_pending_confirmations s) k of
         None \<Rightarrow> None
       | Some c \<Rightarrow>
           let c' = c\<lparr>pc_status := status_after lib events k c\<rparr>
           in if resolution lib rcpt b k c' = None then Some c' else None)
    \<and> mset (es_answers (update_locked lib rcpt order b events s)) = mset (es_answers s) +
        mset (concat (map (\<lambda>(k, c). let c' = c\<lparr>pc_status := status_after lib events k c\<rparr>
          in answer_of c' (resolution lib rcpt b k c')) (es_pending_confirmations s)))"
proof
  let ?s' = "update_locked lib rcpt order b events s"
  note eqs = update_locked_eq [OF wf order, where lib = lib and events = events and rcpt = rcpt
      and current_block = b]
  show "hm_get (es_pending_confirmations ?s') k =
      (case hm_get (es_pending_confirmations s) k of
         None \<Rightarrow> None
       | Some c \<Rightarrow>
           let c' = c\<lparr>pc_status := status_after lib events k c\<rparr>
           in if resolution lib rcpt b k c' = None then Some c' else None)"
    by (simp add: update_locked_get [OF wf order] with_status_def Let_def split: option.split)
  show "mset (es_answers ?s') = mset (es_answers s) +
        mset (concat (map (\<lambda>(k, c). let c' = c\<lparr>pc_status := status_after lib events k c\<rparr>
          in answer_of c' (resolution lib rcpt b k c')) (es_pending_confirmations s)))"
    by (simp add: eqs(2) apply_events_eq [OF wf] comp_def case_prod_unfold round_resolution_def
        with_status_def Let_def)
qed

text \<open>An answer that a round adds is the resolution of a confirmation that was pending.\<close>

lemma new_answer_resolution:
  assumes wf: "hm_wf (es_pending_confirmations s)" and order: "completion_order order"
    and new: "(ch, a) \<in> set (es_answers (update_locked lib rcpt order b events s))"
    and old: "(ch, a) \<notin> set (es_answers s)"
  shows "\<exists>k c status. hm_get (es_pending_confirmations s) k = Some c \<and> pc_status_tx c = Some ch \<and>
    a = Some status \<and> resolution lib rcpt b k (with_status lib events k c) = Some status"
proof -
  let ?pend = "apply_events lib events (es_pending_confirmations s)"
  let ?res = "round_resolution lib rcpt b"
  note eqs = update_locked_eq [OF wf order, where lib = lib and events = events and rcpt = rcpt
      and current_block = b]
  have "(ch, a) \<in># mset (es_answers s) +
      mset (concat (map (\<lambda>x. answer_of (snd x) (?res x)) ?pend))"
    using new by (simp only: eqs(2) [symmetric] set_mset_mset)
  then obtain x where x: "x \<in> set ?pend" "(ch, a) \<in> set (answer_of (snd x) (?res x))"
    using old by auto
  then obtain k c where kc: "(k, c) \<in> set (es_pending_confirmations s)"
    and xk: "x = (k, with_status lib events k c)"
    by (auto simp: apply_events_eq [OF wf])
  from x(2) have "\<exists>status. resolution lib rcpt b k (with_status lib events k c) = Some status \<and>
      a = Some status \<and> pc_status_tx c = Some ch"
    by (cases "resolution lib rcpt b k (with_status lib events k c)")
      (auto simp: xk answer_of_def send_to_def round_resolution_def split: option.splits)
  with map_of_is_SomeI [OF wf kc] show ?thesis by blast
qed

lemma resolution_Exists:
  assumes "resolution lib rcpt b k (with_status lib events k c) = Some Exists"
  shows "pc_target_block c \<le> b \<and> (\<exists>receipt log ev. rcpt (fst k) = Inr (Some receipt) \<and>
    receipt_status receipt = Some 1 \<and> log \<in> set (receipt_logs receipt) \<and>
    parsed_eth_event_try_from log = Inr (Received ev) \<and> event_id (Received ev) = k \<and>
    pc_check lib c ev = Exists)"
proof -
  have target: "pc_target_block c \<le> b"
    and verdict: "verdict lib (with_status lib events k c) (find_event rcpt k) = Some Exists"
    using assms by (auto simp: resolution_def with_status_def not_less split: if_splits)
  from verdict obtain ev where ev: "find_event rcpt k = Inr (Some (Received ev))"
    and check: "pc_check lib c ev = Exists"
    by (auto simp: verdict_def with_status_def split: sum.splits option.splits
        parsed_eth_event.splits)
  from find_event_Some [OF ev] obtain receipt log where
    "rcpt (fst k) = Inr (Some receipt)" "receipt_status receipt = Some 1"
    "log \<in> set (receipt_logs receipt)" "parsed_eth_event_try_from log = Inr (Received ev)"
    "event_id (Received ev) = k"
    by (auto simp: set_parse_transaction_logs)
  with target check show ?thesis by blast
qed

text \<open>C2: A positive answer is justified. Whenever a round answers \<open>Exists\<close>, the answered
  confirmation was pending, its target block was reached, and the chain holds a successful receipt
  for its transaction with a log that decodes to the very event that was voted on.\<close>

theorem exists_answer_justified:
  assumes wf: "hm_wf (es_pending_confirmations s)" and order: "completion_order order"
    and new: "(ch, Some Exists) \<in> set (es_answers (update_locked lib rcpt order b events s))"
    and old: "(ch, Some Exists) \<notin> set (es_answers s)"
  shows "\<exists>k c receipt log ev. hm_get (es_pending_confirmations s) k = Some c \<and>
    pc_status_tx c = Some ch \<and> pc_target_block c \<le> b \<and>
    rcpt (fst k) = Inr (Some receipt) \<and> receipt_status receipt = Some 1 \<and>
    log \<in> set (receipt_logs receipt) \<and> parsed_eth_event_try_from log = Inr (Received ev) \<and>
    event_id (Received ev) = k \<and> pc_check lib c ev = Exists"
proof -
  obtain k c where kc: "hm_get (es_pending_confirmations s) k = Some c" "pc_status_tx c = Some ch"
    "resolution lib rcpt b k (with_status lib events k c) = Some Exists"
    using new_answer_resolution [OF wf order new old] by auto
  from kc(1,2) resolution_Exists [OF kc(3)] show ?thesis by blast
qed

text \<open>C12: Every caller of \<open>verify\<close> gets exactly one answer at most: in every reachable state each channel
  ever handed out either waits in the pending map or has exactly one answer, which no later step
  takes back or changes, and the exported count is the number of pending confirmations.\<close>

theorem one_answer_per_channel:
  assumes "sys_reachable show_i32 lib config start y"
  shows "distinct (map fst (es_answers (sys_sub y))) \<and>
    set (waiting_channels (es_pending_confirmations (sys_sub y))) \<inter>
      fst ` set (es_answers (sys_sub y)) = {} \<and>
    set (waiting_channels (es_pending_confirmations (sys_sub y))) \<union>
      fst ` set (es_answers (sys_sub y)) = {0..<es_next_channel (sys_sub y)} \<and>
    es_pending_confirmation_count (sys_sub y) =
      of_nat (length (es_pending_confirmations (sys_sub y))) \<and>
    (\<forall>z. (sys_step show_i32 lib)\<^sup>*\<^sup>* y z \<longrightarrow>
       (\<forall>c r. receive (sys_sub y) c = Some r \<longrightarrow> receive (sys_sub z) c = Some r))"
proof -
  have sys: "sys_inv config start y" by (rule sys_reachable_inv [OF assms])
  then have inv: "subscriber_inv (sys_sub y)" by (simp add: sys_inv_def)
  have "receive (sys_sub z) c = Some r"
    if "(sys_step show_i32 lib)\<^sup>*\<^sup>* y z" "receive (sys_sub y) c = Some r" for z c r
    using that(2) evs.answer_final [OF that(1) sys, of c]
    by (auto simp: receive_def split: option.splits)
  moreover have "es_pending_confirmation_count (sys_sub y) =
      of_nat (length (es_pending_confirmations (sys_sub y)))"
    using inv by (simp add: subscriber_inv_def)
  ultimately show ?thesis
    using subscriber_inv_channels [OF inv] by (intro conjI allI impI) blast+
qed

text \<open>C9: No log is missed. In every reachable state the finished rounds have asked the node for closed
  block ranges, each for the addresses and topics subscribed at that time and each beginning with
  the block the one before ended with; so every block from the starting height to the last
  processed one was asked for, in one round, or in two consecutive ones when it is a boundary, and
  a log of such a block that the node had and that was subscribed to was among the events of each
  round that asked for its block. The registry's height for the chain is the last processed block.\<close>

theorem no_log_missed:
  assumes "sys_reachable show_i32 lib config start y"
    and "start < es_last_processed_block (sys_sub y)"
    and "start \<le> x" "x \<le> es_last_processed_block (sys_sub y)"
  shows "(\<exists>q \<in> set (sys_windows y). bq_from q \<le> x \<and> x \<le> bq_to q) \<and>
    (\<forall>i j. i < j \<longrightarrow> j < length (sys_windows y) \<longrightarrow>
       asked_for (sys_windows y ! i) x \<longrightarrow> asked_for (sys_windows y ! j) x \<longrightarrow>
       j = Suc i \<and> x = bq_to (sys_windows y ! i) \<and> x = bq_from (sys_windows y ! j)) \<and>
    (\<forall>q \<in> set (sys_windows y). request_exact q \<and>
       (\<forall>l e. log_block_number l = Some x \<and> asked_for q x \<and> subscribed_log (bq_topics q) l \<and>
          node_has_log (bq_get_logs q) l \<and> parsed_eth_event_try_from l = Inr e \<longrightarrow>
          e \<in> set (bq_events q))) \<and>
    hm_get (sys_last_block_numbers y) (es_chain_id (sys_sub y)) =
      Some (es_last_processed_block (sys_sub y))"
proof -
  have inv: "chained start (sys_windows y) (es_last_processed_block (sys_sub y))"
    "list_all request_exact (sys_windows y)"
    "hm_get (sys_last_block_numbers y) (es_chain_id (sys_sub y)) =
      Some (es_last_processed_block (sys_sub y))"
    using sys_reachable_inv [OF assms(1)] by (simp_all add: sys_inv_def)
  have exact: "request_exact q" if "q \<in> set (sys_windows y)" for q
    using inv(2) that by (simp add: list_all_iff)
  show ?thesis
    using chained_cover [OF inv(1) assms(2-4)] chained_overlap [OF inv(1)] inv(3)
      exact request_finds_log [OF exact]
    unfolding asked_for_def by blast
qed

text \<open>A round asks for a non-empty block range that starts at the last processed block, ends at or
  below the node's height and has at most the configured length.\<close>

theorem block_range_bounds:
  assumes "update_prepare show_i32 (Inr height) s = Range f t"
    and "ec_max_block_range (es_config s) = Some m" "0 < m" "m < 2 ^ 63" "height < 2 ^ 63"
  shows "f = es_last_processed_block s \<and> f < t \<and> t \<le> height \<and> t - f \<le> m"
proof -
  have "range_config_ok (es_config s)" using assms by (simp add: range_config_ok_def)
  from update_prepare_range [OF assms(1) this assms(5)]
  have range: "f = es_last_processed_block s" "f < t" "t \<le> height" "t \<le> f + m"
    using assms(2) by auto
  moreover have "t - f \<le> m"
  proof (rule sub_le_below_2_63)
    show "f < 2 ^ 63" using range assms(5) by (auto intro: less_trans less_le_trans)
  qed (use range assms(4) in \<open>auto simp: less_imp_le\<close>)
  ultimately show ?thesis by simp
qed

text \<open>C38: \<open>verify\<close> installs a fresh confirmation whose target block is the event's block plus the
  required confirmations, without wrap-around; a confirmation that was already pending under the
  same id loses its sender, so its caller gets an error instead of a status.\<close>

theorem verify_installs:
  assumes inv: "subscriber_inv s" and v: "verify vd em abi n s = (s', ch)"
  defines "k \<equiv> (evd_event_transaction vd, evd_event_index vd)"
  shows "(\<exists>c. hm_get (es_pending_confirmations s') k = Some c \<and> pc_status_tx c = Some ch \<and>
      pc_status c = InProcess \<and> pc_vote_data c = vd \<and>
      unat (pc_target_block c) = unat (evd_event_block_number vd) + unat n) \<and>
    receive s' ch = None \<and>
    (\<forall>old tx. hm_get (es_pending_confirmations s) k = Some old \<longrightarrow> pc_status_tx old = Some tx \<longrightarrow>
      receive s' tx = Some (Inl (Foreign ''channel closed'')))"
proof -
  let ?c = "\<lparr>pc_vote_data = vd, pc_status_tx = Some ch, pc_event_emitter = em, pc_event_abi = abi,
     pc_target_block = ucast (evd_event_block_number vd) + ucast n, pc_status = InProcess\<rparr>"
  have ch: "ch = es_next_channel s" and s': "s' = fst (verify vd em abi n s)"
    using v by (auto simp: verify_def Let_def)
  have inv': "subscriber_inv s'" unfolding s' by (rule subscriber_inv_verify [OF inv])
  have get: "hm_get (es_pending_confirmations s') k = Some ?c"
    by (simp add: s' verify_def Let_def hm_get_insert k_def ch)
  have "unat (ucast (evd_event_block_number vd) :: u64) + unat (ucast n :: u64) < 2 ^ 64"
    using unat_u32_bound [of "evd_event_block_number vd"] unat_u16_bound [of n]
    by (simp add: unat_ucast_up)
  then have target: "unat (pc_target_block ?c) = unat (evd_event_block_number vd) + unat n"
    using unat_add_nowrap [of "ucast (evd_event_block_number vd) :: u64" "ucast n"]
    by (simp add: unat_ucast_up)
  note channels = subscriber_inv_channels [OF inv']
  have "ch \<in> set (waiting_channels (es_pending_confirmations s'))"
    using hm_get_in_set [OF get] by (auto simp: waiting_channels_def intro!: bexI)
  then have "ch \<notin> fst ` set (es_answers s')"
    using channels(2) by blast
  then have "map_of (es_answers s') ch = None"
    by (simp add: map_of_eq_None_iff)
  then have "receive s' ch = None"
    by (simp add: receive_def)
  moreover have "receive s' tx = Some (Inl (Foreign ''channel closed''))"
    if "hm_get (es_pending_confirmations s) k = Some old" "pc_status_tx old = Some tx" for old tx
  proof -
    have "(tx, None) \<in> set (es_answers s')"
      using that by (simp add: s' verify_def Let_def k_def)
    from map_of_is_SomeI [OF channels(1) this] show ?thesis by (simp add: receive_def)
  qed
  ultimately show ?thesis using get target by auto
qed

section \<open>Witnesses\<close>

definition example_lib :: "(unit, uint256) eth_abi_lib" where
  "example_lib = \<lparr>get_eth_topic_hash = \<lambda>_. 2, decode_and_map = \<lambda>_ _. Inr 9, repr_hash = \<lambda>c. c\<rparr>"

definition example_vote :: "uint256 eth_event_vote_data" where
  "example_vote = \<lparr>evd_event_transaction = 6, evd_event_index = 7, evd_event_data = 9,
     evd_event_block_number = 5, evd_event_block = 4\<rparr>"

definition example_config :: eth_config where
  "example_config = \<lparr>ec_chain_id = 1, ec_endpoint = [], ec_get_timeout_sec = 10,
     ec_blocks_processing_timeout_sec = 120, ec_pool_size = 10, ec_poll_interval_sec = 60,
     ec_max_block_range = Some 2, ec_maximum_failed_responses_time_sec = 604800\<rparr>"

definition example_subscriber :: "(unit, uint256) eth_subscriber" where
  "example_subscriber = \<lparr>es_chain_id = 1, es_config = example_config, es_topics = topics_default,
     es_last_processed_block = 5, es_pending_confirmations = [],
     es_pending_confirmation_count = 0, es_next_channel = 0, es_answers = []\<rparr>"

definition example_pending :: "(unit, uint256) eth_subscriber" where
  "example_pending = fst (verify example_vote 1 () 3 example_subscriber)"

definition example_receipt :: "h256 \<Rightarrow> web3_receipt option result" where
  "example_receipt h = Inr (Some \<lparr>receipt_status = Some 1, receipt_logs = [example_log]\<rparr>)"

lemmas example_defs = example_lib_def example_vote_def example_config_def example_subscriber_def
  example_pending_def example_receipt_def example_log_def

lemma example_new: "eth_subscriber_new [] example_config (Inr 5) = Inr (example_subscriber, [(1, 5)])"
  by (simp add: eth_subscriber_new_def example_defs)

lemma example_pending_map: "es_pending_confirmations example_pending =
   [((6, 7), \<lparr>pc_vote_data = example_vote, pc_status_tx = Some 0, pc_event_emitter = 1,
     pc_event_abi = (), pc_target_block = 8, pc_status = InProcess\<rparr>)]"
  by (simp add: example_defs verify_def)

lemma example_completion_order: "completion_order rev"
  by (simp add: completion_order_def)

lemma example_receipt_event: "find_event example_receipt (6, 7) = Inr (Some (Received
   \<lparr>rc_address = 1, rc_topic_hash = 2, rc_transaction_hash = 6, rc_event_index = 7,
    rc_block_number = 5, rc_block_hash = 4, rc_data = [3]\<rparr>))"
  by (simp add: find_event_def example_receipt_def example_log_def parsed_eth_event_try_from_def)

lemma example_inv: "subscriber_inv example_subscriber"
  by (rule subscriber_inv_new [OF example_new])

theorem check_exact_witness:
  "pc_check example_lib (snd (hd (es_pending_confirmations example_pending)))
     \<lparr>rc_address = 1, rc_topic_hash = 2, rc_transaction_hash = 6, rc_event_index = 7,
      rc_block_number = 5, rc_block_hash = 4, rc_data = [3]\<rparr> = Exists"
  unfolding check_exact by (simp add: example_pending_map) (simp add: example_defs)

theorem round_functional_witness:
  "hm_get (es_pending_confirmations
     (update_locked example_lib example_receipt rev 9 [] example_pending)) (6, 7) = None"
proof -
  have "hm_wf (es_pending_confirmations example_pending)" by (simp add: example_pending_map)
  from round_functional [OF this example_completion_order, of example_lib example_receipt 9 "[]" "(6, 7)"]
  show ?thesis
    by (simp add: example_pending_map resolution_def status_after_def verdict_def
        example_receipt_event)
qed

theorem exists_answer_justified_witness:
  "\<exists>k c receipt log ev. hm_get (es_pending_confirmations example_pending) k = Some c \<and>
    pc_status_tx c = Some 0 \<and> pc_target_block c \<le> 9 \<and>
    example_receipt (fst k) = Inr (Some receipt) \<and> receipt_status receipt = Some 1 \<and>
    log \<in> set (receipt_logs receipt) \<and> parsed_eth_event_try_from log = Inr (Received ev) \<and>
    event_id (Received ev) = k \<and> pc_check example_lib c ev = Exists"
proof (rule exists_answer_justified [where s = example_pending and order = rev and events = "[]"])
  show "hm_wf (es_pending_confirmations example_pending)" by (simp add: example_pending_map)
  show "completion_order (rev :: eth_event_id list \<Rightarrow> eth_event_id list)" by (rule example_completion_order)
  show "(0, Some Exists) \<notin> set (es_answers example_pending)"
    by (simp add: example_defs verify_def)
  show "(0, Some Exists) \<in> set (es_answers
      (update_locked example_lib example_receipt rev 9 [] example_pending))"
    by (simp add: update_locked_def example_pending_map example_receipt_event send_to_def)
      (simp add: pc_check_def example_defs)
qed

lemma example_start:
  "sys_reachable (\<lambda>_. []) example_lib example_config 5
     \<lparr>sys_sub = example_subscriber, sys_last_block_numbers = [(1, 5)], sys_phase = Idle,
      sys_windows = []\<rparr>"
  by (rule sys_reachable.Start [OF _ _ example_new]) (simp_all add: range_config_ok_def example_config_def)

theorem one_answer_per_channel_witness:
  "\<exists>y. sys_reachable (\<lambda>_. []) example_lib example_config 5 y \<and>
     set (waiting_channels (es_pending_confirmations (sys_sub y))) \<union> fst ` set (es_answers (sys_sub y)) = {0} \<and>
     es_pending_confirmation_count (sys_sub y) = 1"
proof (intro exI conjI)
  let ?y = "\<lparr>sys_sub = example_pending, sys_last_block_numbers = [(1, 5)], sys_phase = Idle,
      sys_windows = []\<rparr>"
  show r: "sys_reachable (\<lambda>_. []) example_lib example_config 5 ?y"
    using sys_reachable.Step [OF example_start sys_step.Verify, of example_vote 1 "()" 3]
    by (simp add: example_pending_def)
  note * = one_answer_per_channel [OF r]
  have "es_next_channel example_pending = 1" by (simp add: example_defs verify_def)
  then show "set (waiting_channels (es_pending_confirmations (sys_sub ?y))) \<union>
      fst ` set (es_answers (sys_sub ?y)) = {0}"
    using * by simp
  show "es_pending_confirmation_count (sys_sub ?y) = 1"
    using * by (simp add: example_pending_map)
qed

text \<open>A round that finds the example log: blocks 5 to 7 for one subscription.\<close>

definition example_request :: block_request where
  "example_request = \<lparr>bq_from = 5, bq_to = 7, bq_topics = add_entry 1 2 3 topics_default,
     bq_get_logs = \<lambda>_. Some (Inr [example_log]),
     bq_events = parse_transaction_logs [example_log]\<rparr>"

definition example_listener :: "(unit, uint256) eth_subscriber" where
  "example_listener = eth_subscribe 1 2 3 example_subscriber"

lemma example_listener_fields:
  "es_config example_listener = example_config" "es_last_processed_block example_listener = 5"
  "es_topics example_listener = add_entry 1 2 3 topics_default" "es_chain_id example_listener = 1"
  by (simp_all add: example_listener_def eth_subscribe_def) (simp_all add: example_subscriber_def)

lemma example_make_filter:
  "make_filter (add_entry 1 2 3 topics_default) 5 7 =
     Some \<lparr>lf_address = [1], lf_topics = [2], lf_from_block = 5, lf_to_block = 7\<rparr>"
  by (simp add: make_filter_def add_entry_def topics_update_def topics_default_def)

lemma example_round:
  "sys_reachable (\<lambda>_. []) example_lib example_config 5
     \<lparr>sys_sub = example_listener\<lparr>es_last_processed_block := 7\<rparr>,
      sys_last_block_numbers = [(1, 7)], sys_phase = Idle, sys_windows = [example_request]\<rparr>"
proof -
  let ?y = "\<lambda>ph. \<lparr>sys_sub = example_listener, sys_last_block_numbers = [(1, 5)], sys_phase = ph,
      sys_windows = []\<rparr>"
  have subscribed: "sys_reachable (\<lambda>_. []) example_lib example_config 5 (?y Idle)"
    using sys_reachable.Step [OF example_start sys_step.Subscribe, of 1 2 3]
    by (simp add: example_listener_def)
  have "update_prepare (\<lambda>_. []) (Inr 9) example_listener = Range 5 7"
    by (simp add: update_prepare_Range example_listener_fields)
      (simp add: example_config_def retry_config_ok_def example_listener_fields)
  then have poll: "sys_reachable (\<lambda>_. []) example_lib example_config 5 (?y (Fetching 5 7))"
    using sys_reachable.Step [OF subscribed sys_step.Poll, of 9 5 7] by simp
  have "process_blocks (bq_get_logs example_request) (es_topics example_listener) 5 7 =
      Some (Inr (parse_transaction_logs [example_log]))"
    by (simp add: process_blocks_def example_listener_fields example_make_filter example_request_def)
  then have fetch: "sys_reachable (\<lambda>_. []) example_lib example_config 5 (?y (Fetched example_request))"
    using sys_reachable.Step [OF poll sys_step.Fetch, of 5 7 "bq_get_logs example_request"
        "parse_transaction_logs [example_log]"]
    by (simp add: example_listener_fields) (simp add: example_request_def)
  have "update_locked example_lib example_receipt rev 7 events example_listener = example_listener"
    if "events = parse_transaction_logs [example_log]" for events
    unfolding that
    by (simp add: update_locked_def example_listener_def eth_subscribe_def example_subscriber_def
        example_log_def parsed_eth_event_try_from_def)
  then have resolve: "sys_reachable (\<lambda>_. []) example_lib example_config 5 (?y (Resolved example_request))"
    using sys_reachable.Step [OF fetch sys_step.Resolve, of example_request rev example_receipt]
    by (simp add: example_completion_order example_request_def)
  show ?thesis
    using sys_reachable.Step [OF resolve sys_step.Commit, of example_request]
    by (simp add: update_commit_def hm_contains_def example_listener_fields)
      (simp add: example_request_def)
qed

theorem no_log_missed_witness:
  "Received \<lparr>rc_address = 1, rc_topic_hash = 2, rc_transaction_hash = 6, rc_event_index = 7,
      rc_block_number = 5, rc_block_hash = 4, rc_data = [3]\<rparr> \<in> set (bq_events example_request)"
proof -
  have "node_has_log (bq_get_logs example_request) example_log"
    by (simp add: node_has_log_def example_request_def)
  moreover have "subscribed_log (bq_topics example_request) example_log"
    by (simp add: subscribed_log_def example_request_def example_log_def add_entry_def
        topics_default_def)
  moreover have "log_block_number example_log = Some 5" "asked_for example_request 5"
    by (simp_all add: asked_for_def example_request_def example_log_def)
  moreover have "parsed_eth_event_try_from example_log = Inr (Received
      \<lparr>rc_address = 1, rc_topic_hash = 2, rc_transaction_hash = 6, rc_event_index = 7,
       rc_block_number = 5, rc_block_hash = 4, rc_data = [3]\<rparr>)"
    by (simp add: example_log_def parsed_eth_event_try_from_def)
  ultimately show ?thesis
    using no_log_missed [OF example_round, of 5] by simp
qed

theorem block_range_bounds_witness:
  "(5 :: u64) < 7 \<and> (7 :: u64) \<le> 9 \<and> (7 :: u64) - 5 \<le> 2"
  using block_range_bounds [of "\<lambda>_. []" 9 example_subscriber 5 7 2]
  by (simp add: update_prepare_Range retry_config_ok_def example_defs)

theorem verify_installs_witness:
  "receive example_pending 0 = None \<and>
   receive (fst (verify example_vote 1 () 3 example_pending)) 0 =
     Some (Inl (Foreign ''channel closed''))"
proof
  have v: "verify example_vote 1 () 3 example_subscriber = (example_pending, 0)"
    by (simp add: example_defs verify_def)
  then show "receive example_pending 0 = None"
    using verify_installs [OF example_inv v] by simp
  have "subscriber_inv example_pending"
    using subscriber_inv_verify [OF example_inv] by (simp add: example_pending_def)
  from verify_installs [OF this surjective_pairing]
  show "receive (fst (verify example_vote 1 () 3 example_pending)) 0 =
     Some (Inl (Foreign ''channel closed''))"
    by (simp add: example_pending_map) (simp add: example_vote_def)
qed

end
