(* ===== verification/Ton_Abi.thy ===== *)
theory Ton_Abi
  imports Contract_Models
begin

text \<open>
  \<open>engine/ton_contracts/*_contract.rs\<close>: the declarations of the contract functions and events, as
  the builders of \<open>nekoton_abi\<close> receive them. \<open>Param n t\<close> is one named parameter of an ABI type,
  \<open>Fields s\<close> the parameters of a struct of \<open>models.rs\<close> taken one by one, \<open>Struct s\<close> such a
  struct as one tuple. A responsible function has its answer id before the listed inputs. A name has
  the file of its declaration in front: \<open>staking_contract::get_details\<close> is \<open>abi_staking_get_details\<close>.
\<close>

datatype abi_header = HPubkey | HTime | HExpire

datatype abi_type = Uint nat | Address | Bool | Bytes | Struct string

datatype abi_param = Param string abi_type | Fields string

record abi_function =
  fn_name :: string
  fn_responsible :: bool
  fn_headers :: "abi_header list"
  fn_inputs :: "abi_param list"
  fn_outputs :: "abi_param list"

record abi_event =
  abi_event_name :: string
  abi_event_inputs :: "abi_param list"

text \<open>\<open>default_headers()\<close> of the builder.\<close>

abbreviation default_headers :: "abi_header list" where
  "default_headers \<equiv> [HPubkey, HTime, HExpire]"

named_theorems abi_defs \<open>the declared functions\<close>

definition abi_base_event_configuration_get_type :: abi_function where
  "abi_base_event_configuration_get_type =
     \<lparr>fn_name = ''getType'', fn_responsible = True, fn_headers = [HTime, HExpire],
      fn_inputs = [],
      fn_outputs = [Param ''type'' (Uint 8)]\<rparr>"

definition abi_base_event_configuration_event_new_event_contract :: abi_event where
  "abi_base_event_configuration_event_new_event_contract =
     \<lparr>abi_event_name = ''NewEventContract'', abi_event_inputs = [Param ''address'' Address]\<rparr>"

definition abi_base_event_status :: abi_function where
  "abi_base_event_status =
     \<lparr>fn_name = ''status'', fn_responsible = False, fn_headers = default_headers,
      fn_inputs = [],
      fn_outputs = [Param ''status'' (Struct ''EventStatus'')]\<rparr>"

definition abi_base_event_round_number :: abi_function where
  "abi_base_event_round_number =
     \<lparr>fn_name = ''round_number'', fn_responsible = False, fn_headers = default_headers,
      fn_inputs = [],
      fn_outputs = [Param ''round_number'' (Uint 32)]\<rparr>"

definition abi_base_event_get_voters :: abi_function where
  "abi_base_event_get_voters =
     \<lparr>fn_name = ''getVoters'', fn_responsible = True, fn_headers = default_headers,
      fn_inputs = [Param ''vote'' (Struct ''EventVote'')],
      fn_outputs = [Fields ''RelayKeys'']\<rparr>"

definition abi_base_event_get_api_version :: abi_function where
  "abi_base_event_get_api_version =
     \<lparr>fn_name = ''getApiVersion'', fn_responsible = True, fn_headers = default_headers,
      fn_inputs = [],
      fn_outputs = [Param ''version'' (Uint 32)]\<rparr>"

definition abi_base_event_receive_round_relays :: abi_function where
  "abi_base_event_receive_round_relays =
     \<lparr>fn_name = ''receiveRoundRelays'', fn_responsible = False, fn_headers = [],
      fn_inputs = [Fields ''RelayKeys''],
      fn_outputs = []\<rparr>"

definition abi_bridge_connector_counter :: abi_function where
  "abi_bridge_connector_counter =
     \<lparr>fn_name = ''connectorCounter'', fn_responsible = False, fn_headers = default_headers,
      fn_inputs = [],
      fn_outputs = [Param ''counter'' (Uint 64)]\<rparr>"

definition abi_bridge_get_details :: abi_function where
  "abi_bridge_get_details =
     \<lparr>fn_name = ''getDetails'', fn_responsible = True, fn_headers = default_headers,
      fn_inputs = [],
      fn_outputs = [Fields ''BridgeDetails'']\<rparr>"

definition abi_bridge_derive_connector_address :: abi_function where
  "abi_bridge_derive_connector_address =
     \<lparr>fn_name = ''deriveConnectorAddress'', fn_responsible = False, fn_headers = default_headers,
      fn_inputs = [Param ''id'' (Uint 64)],
      fn_outputs = [Param ''connector'' Address]\<rparr>"

definition abi_bridge_event_connector_deployed :: abi_event where
  "abi_bridge_event_connector_deployed =
     \<lparr>abi_event_name = ''ConnectorDeployed'', abi_event_inputs = [Fields ''ConnectorDeployedEvent'']\<rparr>"

definition abi_connector_get_details :: abi_function where
  "abi_connector_get_details =
     \<lparr>fn_name = ''getDetails'', fn_responsible = False, fn_headers = [HTime],
      fn_inputs = [],
      fn_outputs = [Fields ''ConnectorDetails'']\<rparr>"

definition abi_connector_event_enabled :: abi_event where
  "abi_connector_event_enabled =
     \<lparr>abi_event_name = ''Enabled'', abi_event_inputs = []\<rparr>"

definition abi_elections_staker_addrs :: abi_function where
  "abi_elections_staker_addrs =
     \<lparr>fn_name = ''staker_addrs'', fn_responsible = False, fn_headers = [HTime, HExpire],
      fn_inputs = [],
      fn_outputs = [Fields ''StakerAddresses'']\<rparr>"

definition abi_eth_event_configuration_get_details :: abi_function where
  "abi_eth_event_configuration_get_details =
     \<lparr>fn_name = ''getDetails'', fn_responsible = True, fn_headers = [HTime, HExpire],
      fn_inputs = [],
      fn_outputs = [Fields ''EthEventConfigurationDetails'']\<rparr>"

definition abi_eth_event_configuration_set_end_block_number :: abi_function where
  "abi_eth_event_configuration_set_end_block_number =
     \<lparr>fn_name = ''setEndBlockNumber'', fn_responsible = False, fn_headers = [],
      fn_inputs = [Param ''end_block_number'' (Uint 32)],
      fn_outputs = []\<rparr>"

definition abi_eth_event_configuration_deploy_event :: abi_function where
  "abi_eth_event_configuration_deploy_event =
     \<lparr>fn_name = ''deployEvent'', fn_responsible = False, fn_headers = [],
      fn_inputs = [Param ''vote_data'' (Struct ''EthEventVoteData'')],
      fn_outputs = []\<rparr>"

definition abi_eth_event_get_event_init_data :: abi_function where
  "abi_eth_event_get_event_init_data =
     \<lparr>fn_name = ''getEventInitData'', fn_responsible = True, fn_headers = default_headers,
      fn_inputs = [],
      fn_outputs = [Param ''details'' (Struct ''EthEventInitData'')]\<rparr>"

definition abi_eth_event_confirm :: abi_function where
  "abi_eth_event_confirm =
     \<lparr>fn_name = ''confirm'', fn_responsible = False, fn_headers = default_headers,
      fn_inputs = [Param ''voteReceiver'' Address],
      fn_outputs = []\<rparr>"

definition abi_eth_event_reject :: abi_function where
  "abi_eth_event_reject =
     \<lparr>fn_name = ''reject'', fn_responsible = False, fn_headers = default_headers,
      fn_inputs = [Param ''voteReceiver'' Address],
      fn_outputs = []\<rparr>"

definition abi_relay_round_get_details :: abi_function where
  "abi_relay_round_get_details =
     \<lparr>fn_name = ''getDetails'', fn_responsible = True, fn_headers = [HTime],
      fn_inputs = [],
      fn_outputs = [Param ''details'' (Struct ''RelayRoundDetails'')]\<rparr>"

definition abi_relay_round_has_unclaimed_reward :: abi_function where
  "abi_relay_round_has_unclaimed_reward =
     \<lparr>fn_name = ''hasUnclaimedReward'', fn_responsible = True, fn_headers = [HTime],
      fn_inputs = [Param ''staker_addr'' Address],
      fn_outputs = [Param ''has_reward'' Bool]\<rparr>"

definition abi_relay_round_end_time :: abi_function where
  "abi_relay_round_end_time =
     \<lparr>fn_name = ''end_time'', fn_responsible = False, fn_headers = [HTime],
      fn_inputs = [],
      fn_outputs = [Param ''end_time'' (Uint 32)]\<rparr>"

definition abi_staking_start_election_on_new_round :: abi_function where
  "abi_staking_start_election_on_new_round =
     \<lparr>fn_name = ''startElectionOnNewRound'', fn_responsible = False, fn_headers = default_headers,
      fn_inputs = [],
      fn_outputs = []\<rparr>"

definition abi_staking_end_election :: abi_function where
  "abi_staking_end_election =
     \<lparr>fn_name = ''endElection'', fn_responsible = False, fn_headers = default_headers,
      fn_inputs = [],
      fn_outputs = []\<rparr>"

definition abi_staking_get_details :: abi_function where
  "abi_staking_get_details =
     \<lparr>fn_name = ''getDetails'', fn_responsible = True, fn_headers = default_headers,
      fn_inputs = [],
      fn_outputs = [Param ''details'' (Struct ''StakingDetails'')]\<rparr>"

definition abi_staking_get_relay_rounds_details :: abi_function where
  "abi_staking_get_relay_rounds_details =
     \<lparr>fn_name = ''getRelayRoundsDetails'', fn_responsible = True, fn_headers = default_headers,
      fn_inputs = [],
      fn_outputs = [Param ''details'' (Struct ''RelayRoundsDetails'')]\<rparr>"

definition abi_staking_get_relay_config :: abi_function where
  "abi_staking_get_relay_config =
     \<lparr>fn_name = ''getRelayConfig'', fn_responsible = True, fn_headers = default_headers,
      fn_inputs = [],
      fn_outputs = [Param ''details'' (Struct ''RelayConfigDetails'')]\<rparr>"

definition abi_staking_get_election_address :: abi_function where
  "abi_staking_get_election_address =
     \<lparr>fn_name = ''getElectionAddress'', fn_responsible = True, fn_headers = default_headers,
      fn_inputs = [Param ''round_num'' (Uint 32)],
      fn_outputs = [Param ''address'' Address]\<rparr>"

definition abi_staking_get_relay_round_address :: abi_function where
  "abi_staking_get_relay_round_address =
     \<lparr>fn_name = ''getRelayRoundAddress'', fn_responsible = True, fn_headers = default_headers,
      fn_inputs = [Param ''round_num'' (Uint 32)],
      fn_outputs = [Param ''address'' Address]\<rparr>"

definition abi_staking_get_user_data_address :: abi_function where
  "abi_staking_get_user_data_address =
     \<lparr>fn_name = ''getUserDataAddress'', fn_responsible = True, fn_headers = default_headers,
      fn_inputs = [Param ''user'' Address],
      fn_outputs = [Param ''address'' Address]\<rparr>"

definition abi_staking_event_election_started :: abi_event where
  "abi_staking_event_election_started =
     \<lparr>abi_event_name = ''ElectionStarted'', abi_event_inputs = [Fields ''ElectionStartedEvent'']\<rparr>"

definition abi_staking_event_election_ended :: abi_event where
  "abi_staking_event_election_ended =
     \<lparr>abi_event_name = ''ElectionEnded'', abi_event_inputs = [Fields ''ElectionEndedEvent'']\<rparr>"

definition abi_staking_event_relay_round_initialized :: abi_event where
  "abi_staking_event_relay_round_initialized =
     \<lparr>abi_event_name = ''RelayRoundInitialized'', abi_event_inputs = [Fields ''RelayRoundInitializedEvent'']\<rparr>"

definition abi_staking_event_relay_config_updated :: abi_event where
  "abi_staking_event_relay_config_updated =
     \<lparr>abi_event_name = ''RelayConfigUpdated'', abi_event_inputs = [Fields ''RelayConfigUpdatedEvent'']\<rparr>"

definition abi_ton_event_configuration_get_details :: abi_function where
  "abi_ton_event_configuration_get_details =
     \<lparr>fn_name = ''getDetails'', fn_responsible = True, fn_headers = [HTime, HExpire],
      fn_inputs = [],
      fn_outputs = [Fields ''TonEventConfigurationDetails'']\<rparr>"

definition abi_ton_event_configuration_set_end_timestamp :: abi_function where
  "abi_ton_event_configuration_set_end_timestamp =
     \<lparr>fn_name = ''setEndTimestamp'', fn_responsible = False, fn_headers = [],
      fn_inputs = [Param ''end_timestamp'' (Uint 32)],
      fn_outputs = []\<rparr>"

definition abi_ton_event_configuration_deploy_event :: abi_function where
  "abi_ton_event_configuration_deploy_event =
     \<lparr>fn_name = ''deployEvent'', fn_responsible = False, fn_headers = [],
      fn_inputs = [Param ''vote_data'' (Struct ''TonEventVoteData'')],
      fn_outputs = []\<rparr>"

definition abi_ton_event_get_event_init_data :: abi_function where
  "abi_ton_event_get_event_init_data =
     \<lparr>fn_name = ''getEventInitData'', fn_responsible = True, fn_headers = default_headers,
      fn_inputs = [],
      fn_outputs = [Param ''details'' (Struct ''TonEventInitData'')]\<rparr>"

definition abi_ton_event_confirm :: abi_function where
  "abi_ton_event_confirm =
     \<lparr>fn_name = ''confirm'', fn_responsible = False, fn_headers = default_headers,
      fn_inputs = [Param ''signature'' Bytes, Param ''voteReceiver'' Address],
      fn_outputs = []\<rparr>"

definition abi_ton_event_reject :: abi_function where
  "abi_ton_event_reject =
     \<lparr>fn_name = ''reject'', fn_responsible = False, fn_headers = default_headers,
      fn_inputs = [Param ''voteReceiver'' Address],
      fn_outputs = []\<rparr>"

definition abi_user_data_confirm_ton_account :: abi_function where
  "abi_user_data_confirm_ton_account =
     \<lparr>fn_name = ''confirmTonAccount'', fn_responsible = False, fn_headers = default_headers,
      fn_inputs = [],
      fn_outputs = []\<rparr>"

definition abi_user_data_get_details :: abi_function where
  "abi_user_data_get_details =
     \<lparr>fn_name = ''getDetails'', fn_responsible = True, fn_headers = default_headers,
      fn_inputs = [],
      fn_outputs = [Param ''details'' (Struct ''UserDataDetails'')]\<rparr>"

definition abi_user_data_become_relay_next_round :: abi_function where
  "abi_user_data_become_relay_next_round =
     \<lparr>fn_name = ''becomeRelayNextRound'', fn_responsible = False, fn_headers = default_headers,
      fn_inputs = [],
      fn_outputs = []\<rparr>"

definition abi_user_data_get_reward_for_relay_round :: abi_function where
  "abi_user_data_get_reward_for_relay_round =
     \<lparr>fn_name = ''getRewardForRelayRound'', fn_responsible = False, fn_headers = default_headers,
      fn_inputs = [Param ''round_num'' (Uint 32)],
      fn_outputs = []\<rparr>"

definition abi_user_data_event_relay_keys_updated :: abi_event where
  "abi_user_data_event_relay_keys_updated =
     \<lparr>abi_event_name = ''RelayKeysUpdated'', abi_event_inputs = [Fields ''RelayKeysUpdatedEvent'']\<rparr>"

definition abi_user_data_event_ton_pubkey_confirmed :: abi_event where
  "abi_user_data_event_ton_pubkey_confirmed =
     \<lparr>abi_event_name = ''TonPubkeyConfirmed'', abi_event_inputs = [Fields ''TonPubkeyConfirmedEvent'']\<rparr>"

definition abi_user_data_event_eth_address_confirmed :: abi_event where
  "abi_user_data_event_eth_address_confirmed =
     \<lparr>abi_event_name = ''EthAddressConfirmed'', abi_event_inputs = [Fields ''EthAddressConfirmedEvent'']\<rparr>"

definition abi_user_data_event_relay_membership_requested :: abi_event where
  "abi_user_data_event_relay_membership_requested =
     \<lparr>abi_event_name = ''RelayMembershipRequested'', abi_event_inputs = [Fields ''RelayMembershipRequestedEvent'']\<rparr>"

definition abi_user_data_event_deposit_processed :: abi_event where
  "abi_user_data_event_deposit_processed =
     \<lparr>abi_event_name = ''DepositProcessed'', abi_event_inputs = [Fields ''DepositProcessedEvent'']\<rparr>"

lemmas abi_function_defs [abi_defs] =
  abi_base_event_configuration_get_type_def abi_base_event_status_def
  abi_base_event_round_number_def abi_base_event_get_voters_def
  abi_base_event_get_api_version_def abi_base_event_receive_round_relays_def
  abi_bridge_connector_counter_def abi_bridge_get_details_def
  abi_bridge_derive_connector_address_def abi_connector_get_details_def
  abi_elections_staker_addrs_def abi_eth_event_configuration_get_details_def
  abi_eth_event_configuration_set_end_block_number_def abi_eth_event_configuration_deploy_event_def
  abi_eth_event_get_event_init_data_def abi_eth_event_confirm_def
  abi_eth_event_reject_def abi_relay_round_get_details_def
  abi_relay_round_has_unclaimed_reward_def abi_relay_round_end_time_def
  abi_staking_start_election_on_new_round_def abi_staking_end_election_def
  abi_staking_get_details_def abi_staking_get_relay_rounds_details_def
  abi_staking_get_relay_config_def abi_staking_get_election_address_def
  abi_staking_get_relay_round_address_def abi_staking_get_user_data_address_def
  abi_ton_event_configuration_get_details_def abi_ton_event_configuration_set_end_timestamp_def
  abi_ton_event_configuration_deploy_event_def abi_ton_event_get_event_init_data_def
  abi_ton_event_confirm_def abi_ton_event_reject_def
  abi_user_data_confirm_ton_account_def abi_user_data_get_details_def
  abi_user_data_become_relay_next_round_def abi_user_data_get_reward_for_relay_round_def

end
