(* ===== verification/Shard_Utils.thy ===== *)
theory Shard_Utils
  imports Prelude
begin

text \<open>
  \<open>utils/existing_contract.rs\<close> and \<open>utils/shard_utils.rs\<close>: contract states read from
  shard accounts, the prefix test that says which shard holds an account, and the lookup of a
  contract in the map of all shards. The values that \<open>ton_block\<close> computes (the account cell of
  a shard account, the tagged prefix and prefix length of a shard, \<open>SHARD_FULL\<close>) are fields or
  arguments; what is documented of them is the hypothesis \<open>wf_shard\<close>.
\<close>

section \<open>Contract states\<close>

text \<open>\<open>ton_block::Account\<close>, a shard account (with what its accessors return) and
  \<open>ExistingContract\<close>.\<close>

datatype 'acc account = Account 'acc | AccountNone

record 'acc shard_account =
  read_account :: "'acc account result"
  last_trans_lt :: u64
  last_trans_hash :: uint256

record 'acc existing_contract =
  ec_account :: 'acc
  ec_last_lt :: u64
  ec_last_hash :: uint256

definition from_shard_account :: "'acc shard_account \<Rightarrow> 'acc existing_contract option result" where
  "from_shard_account sa =
     (case read_account sa of
        Inl e \<Rightarrow> Inl e
      | Inr (Account account) \<Rightarrow>
          Inr (Some \<lparr>ec_account = account, ec_last_lt = last_trans_lt sa,
                     ec_last_hash = last_trans_hash sa\<rparr>)
      | Inr AccountNone \<Rightarrow> Inr None)"

definition from_shard_account_opt ::
  "'acc shard_account option \<Rightarrow> 'acc existing_contract option result" where
  "from_shard_account_opt sa =
     (case sa of Some shard_account \<Rightarrow> from_shard_account shard_account | None \<Rightarrow> Inr None)"

text \<open>\<open>run_local\<close>: the library runs the function and returns tokens and a result code.\<close>

record 'tok execution_output =
  eo_tokens :: "'tok list option"
  eo_result_code :: "32 word"

definition run_local :: "'tok execution_output result \<Rightarrow> 'tok list result" where
  "run_local output =
     and_then output (\<lambda>out.
       case eo_tokens out of
         Some tokens \<Rightarrow> Inr tokens
       | None \<Rightarrow> Inl (ExistingContractErr (NonZeroResultCode (eo_result_code out))))"

section \<open>Account prefixes\<close>

text \<open>\<open>UInt256::as_slice\<close>: the 32 bytes, most significant first.\<close>

definition as_slice :: "uint256 \<Rightarrow> u8 list" where
  "as_slice a = map (\<lambda>i. ucast (drop_bit (8 * (31 - i)) a)) [0..<32]"

text \<open>Shifts of \<open>u64\<close>: the shift amount is taken modulo 64.\<close>

definition shl64 :: "u64 \<Rightarrow> int \<Rightarrow> u64" where
  "shl64 x n = push_bit (nat (n mod 64)) x"

definition shr64 :: "u64 \<Rightarrow> int \<Rightarrow> u64" where
  "shr64 x n = drop_bit (nat (n mod 64)) x"

definition account_prefix :: "uint256 \<Rightarrow> u8 \<Rightarrow> u64" where
  "account_prefix account len =
     (let bytes = unat len div 8;
          value = fold (\<lambda>(i, byte) value. value OR shl64 (ucast byte) (8 * (7 - int i)))
                    (take bytes (List.enumerate 0 (as_slice account))) 0;
          remainder = unat len mod 8
      in if remainder > 0
         then (let r = drop_bit (8 - remainder) (as_slice account ! bytes)
               in value OR shl64 (ucast r) (8 * (7 - int bytes) + 8 - int remainder))
         else value)"

record shard_ident =
  workchain_id :: "32 word"
  shard_prefix_with_tag :: u64
  prefix_len :: u8

definition contains_account :: "u64 \<Rightarrow> shard_ident \<Rightarrow> uint256 \<Rightarrow> bool" where
  "contains_account SHARD_FULL shard account =
     (let shard_prefix = shard_prefix_with_tag shard
      in if shard_prefix = SHARD_FULL then True
         else (let len = prefix_len shard;
                   account_prefix = shr64 (account_prefix account len) (64 - int (unat len));
                   shard_prefix = shr64 shard_prefix (64 - int (unat len))
               in account_prefix = shard_prefix))"

section \<open>Lookup in the shard map\<close>

text \<open>A shard's accounts: what \<open>ShardAccounts::get\<close> returns for each account.\<close>

type_synonym 'acc shard_accounts = "uint256 \<Rightarrow> 'acc shard_account option result"

definition shard_find_account ::
  "'acc shard_accounts \<Rightarrow> uint256 \<Rightarrow> 'acc existing_contract option result" where
  "shard_find_account accounts account =
     (case and_then (accounts account) from_shard_account_opt of
        Inl e \<Rightarrow> Inl e
      | Inr (Some contract) \<Rightarrow> Inr (Some contract)
      | Inr None \<Rightarrow> Inr None)"

type_synonym 'acc shard_accounts_map = "(shard_ident, 'acc shard_accounts) hmap"

definition find_account ::
  "u64 \<Rightarrow> 'acc shard_accounts_map \<Rightarrow> uint256 \<Rightarrow> 'acc existing_contract option result" where
  "find_account SHARD_FULL shards account =
     (case List.find (\<lambda>(shard_ident, _). contains_account SHARD_FULL shard_ident account) shards of
        Some (_, shard) \<Rightarrow> shard_find_account shard account
      | None \<Rightarrow> context_res ''No suitable shard found''
                  (Inl (ShardUtilsErr InvalidContractAddress)))"

section \<open>Facts about prefixes\<close>

text \<open>The first 64 bits of an account.\<close>

definition top64 :: "uint256 \<Rightarrow> u64" where
  "top64 a = ucast (drop_bit 192 a)"

lemma bit_top64: "bit (top64 a) n \<longleftrightarrow> n < 64 \<and> bit a (192 + n)"
  by (simp add: top64_def bit_ucast_iff bit_drop_bit_eq)

lemma length_as_slice [simp]: "length (as_slice a) = 32"
  by (simp add: as_slice_def)

lemma bit_as_slice:
  assumes "i < 32"
  shows "bit (as_slice a ! i) j \<longleftrightarrow> j < 8 \<and> bit a (8 * (31 - i) + j)"
  using assms by (simp add: as_slice_def bit_ucast_iff bit_drop_bit_eq)

lemma bit_fold_or:
  "bit (fold (\<lambda>x v. v OR g x) xs (v0 :: 'a::len word)) n \<longleftrightarrow>
     bit v0 n \<or> (\<exists>x \<in> set xs. bit (g x) n)"
  by (induction xs arbitrary: v0) (auto simp: bit_or_iff)

lemma set_take_enumerate:
  assumes "k \<le> length xs"
  shows "set (take k (List.enumerate 0 xs)) = {(i, xs ! i) | i. i < k}"
proof -
  have "take k (List.enumerate 0 xs) = map (\<lambda>i. (i, xs ! i)) [0..<k]"
    using assms by (intro nth_equalityI) (auto simp: nth_enumerate_eq)
  then show ?thesis by auto
qed

lemma bit_shl64:
  assumes "k < 64"
  shows "bit (shl64 x (int k)) n \<longleftrightarrow> n < 64 \<and> k \<le> n \<and> bit x (n - k)"
proof -
  have "int k mod 64 = int k" using assms by simp
  then have "shl64 x (int k) = push_bit k x" by (simp only: shl64_def nat_int)
  then show ?thesis
    by (simp only: bit_push_bit_iff possible_bit_word) (simp add: conj_commute conj_left_commute)
qed

lemma bit_byte: "bit (b :: u8) n \<Longrightarrow> n < 8"
  by (auto dest: bit_imp_le_length)

lemma bit_byte_shl:
  fixes b :: u8
  assumes i: "i < 8" and n: "n = 8 * q + r" "r < 8"
  shows "bit (shl64 (ucast b) (8 * (7 - int i))) n \<longleftrightarrow> q + i = 7 \<and> bit b r"
proof -
  have k: "8 * (7 - int i) = int (8 * (7 - i))" using i by simp
  have "bit (shl64 (ucast b) (8 * (7 - int i))) n \<longleftrightarrow>
      n < 64 \<and> 8 * (7 - i) \<le> n \<and> bit b (n - 8 * (7 - i))"
    unfolding k using i by (subst bit_shl64) (auto simp: bit_ucast_iff)
  also have "\<dots> \<longleftrightarrow> q + i = 7 \<and> bit b r"
  proof
    assume *: "n < 64 \<and> 8 * (7 - i) \<le> n \<and> bit b (n - 8 * (7 - i))"
    then have "n - 8 * (7 - i) < 8" by (auto dest: bit_byte)
    with * i n have "q + i = 7" by linarith
    moreover from this n have "n - 8 * (7 - i) = r" by auto
    ultimately show "q + i = 7 \<and> bit b r" using * by simp
  next
    assume *: "q + i = 7 \<and> bit b r"
    then have "q = 7 - i" by linarith
    with * i n show "n < 64 \<and> 8 * (7 - i) \<le> n \<and> bit b (n - 8 * (7 - i))" by auto
  qed
  finally show ?thesis .
qed

text \<open>The bits of the whole bytes, and of the remaining bits of the last byte.\<close>

lemma bit_whole_bytes:
  fixes a :: uint256
  assumes p: "p \<le> 8" and n: "n = 8 * q + r" "r < 8"
  defines "whole \<equiv> fold (\<lambda>(i, byte) value. value OR shl64 (ucast byte) (8 * (7 - int i)))
    (take p (List.enumerate 0 (as_slice a))) (0 :: u64)"
  shows "bit whole n \<longleftrightarrow> q < 8 \<and> 8 - p \<le> q \<and> bit a (192 + n)"
proof -
  have "bit whole n \<longleftrightarrow> (\<exists>i < p. bit (shl64 (ucast (as_slice a ! i)) (8 * (7 - int i))) n)"
    unfolding whole_def using p by (auto simp: case_prod_unfold bit_fold_or set_take_enumerate)
  also have "\<dots> \<longleftrightarrow> (\<exists>i < p. q + i = 7 \<and> bit (as_slice a ! i) r)"
    using p by (intro ex_cong conj_cong refl bit_byte_shl [OF _ n]) simp
  also have "\<dots> \<longleftrightarrow> (\<exists>i < p. q + i = 7 \<and> bit a (192 + n))"
  proof (intro ex_cong conj_cong refl)
    fix i assume "i < p" "q + i = 7"
    then have "8 * (31 - i) + r = 192 + n" "i < 32" using n p by linarith+
    moreover have "bit (as_slice a ! i) r \<longleftrightarrow> r < 8 \<and> bit a (8 * (31 - i) + r)"
      using \<open>i < p\<close> p by (intro bit_as_slice) simp
    ultimately show "bit (as_slice a ! i) r \<longleftrightarrow> bit a (192 + n)"
      using n(2) by metis
  qed
  also have "\<dots> \<longleftrightarrow> q < 8 \<and> 8 - p \<le> q \<and> bit a (192 + n)"
    using p by (auto intro!: exI [of _ "7 - q"])
  finally show ?thesis .
qed

lemma bit_last_byte:
  fixes a :: uint256
  assumes p: "p < 8" and s: "0 < s" "s < 8" and n: "n = 8 * q + r" "r < 8"
  shows "bit (shl64 (ucast (drop_bit (8 - s) (as_slice a ! p))) (8 * (7 - int p) + 8 - int s)) n
    \<longleftrightarrow> q + p = 7 \<and> 8 - s \<le> r \<and> bit a (192 + n)"
proof -
  define k where "k = 8 * (7 - p) + (8 - s)"
  have k: "8 * (7 - int p) + 8 - int s = int k" using p s by (simp add: k_def)
  have k64: "k < 64" using s p by (simp add: k_def)
  have "bit (shl64 (ucast (drop_bit (8 - s) (as_slice a ! p))) (int k)) n \<longleftrightarrow>
      n < 64 \<and> k \<le> n \<and> bit (as_slice a ! p) (8 - s + (n - k))"
    by (subst bit_shl64 [OF k64]) (auto simp: bit_ucast_iff bit_drop_bit_eq)
  also have "\<dots> \<longleftrightarrow> q + p = 7 \<and> 8 - s \<le> r \<and> bit a (192 + n)"
  proof
    assume *: "n < 64 \<and> k \<le> n \<and> bit (as_slice a ! p) (8 - s + (n - k))"
    then have lt: "8 - s + (n - k) < 8" by (auto dest: bit_byte)
    with * p s n have qp: "q + p = 7" unfolding k_def by linarith
    with * n s p have "8 - s \<le> r" "8 * (31 - p) + (8 - s + (n - k)) = 192 + n"
      unfolding k_def by linarith+
    with * qp lt p show "q + p = 7 \<and> 8 - s \<le> r \<and> bit a (192 + n)"
      by (simp add: bit_as_slice)
  next
    assume *: "q + p = 7 \<and> 8 - s \<le> r \<and> bit a (192 + n)"
    with n s p have "n < 64" "k \<le> n" "8 - s + (n - k) = r" "8 * (31 - p) + r = 192 + n"
      unfolding k_def by linarith+
    moreover have "bit (as_slice a ! p) r \<longleftrightarrow> r < 8 \<and> bit a (8 * (31 - p) + r)"
      using p by (intro bit_as_slice) simp
    ultimately show "n < 64 \<and> k \<le> n \<and> bit (as_slice a ! p) (8 - s + (n - k))"
      using * n(2) by metis
  qed
  finally show ?thesis unfolding k .
qed

text \<open>The bits of \<open>account_prefix\<close>: the first \<open>len\<close> bits of the account, then zeros.\<close>

lemma bit_account_prefix:
  assumes "unat len \<le> 64"
  shows "bit (account_prefix a len) n \<longleftrightarrow> n < 64 \<and> 64 - unat len \<le> n \<and> bit a (192 + n)"
proof -
  define p s q r where "p = unat len div 8" "s = unat len mod 8" "q = n div 8" "r = n mod 8"
  note d = p_s_q_r_def
  have n: "n = 8 * q + r" "r < 8" by (simp_all add: d)
  have l: "unat len = 8 * p + s" "s < 8" by (simp_all add: d)
  have p8: "p \<le> 8" using l assms by linarith
  note w = bit_whole_bytes [OF p8 n, of a]
  show ?thesis
  proof (cases "s = 0")
    case True
    then have "bit (account_prefix a len) n \<longleftrightarrow> q < 8 \<and> 8 - p \<le> q \<and> bit a (192 + n)"
      using w by (simp add: account_prefix_def d)
    moreover have "q < 8 \<longleftrightarrow> n < 64" "8 - p \<le> q \<longleftrightarrow> 64 - unat len \<le> n"
      using n l True by linarith+
    ultimately show ?thesis by simp
  next
    case False
    then have s: "0 < s" "s < 8" and p7: "p < 8" using l assms by auto
    have "bit (account_prefix a len) n \<longleftrightarrow>
        (q < 8 \<and> 8 - p \<le> q \<and> bit a (192 + n)) \<or> (q + p = 7 \<and> 8 - s \<le> r \<and> bit a (192 + n))"
      using s w bit_last_byte [OF p7 s n, of a]
      by (simp add: account_prefix_def Let_def bit_or_iff d)
    moreover have "(q < 8 \<and> 8 - p \<le> q) \<or> (q + p = 7 \<and> 8 - s \<le> r) \<longleftrightarrow>
        n < 64 \<and> 64 - unat len \<le> n"
      using n l s p7 by linarith
    ultimately show ?thesis by blast
  qed
qed

section \<open>Which shard holds an account\<close>

text \<open>
  What is documented of a shard identifier: \<open>SHARD_FULL\<close> is the tag alone, a prefix has at
  most 60 bits, and the tagged prefix is the prefix, then a set bit, then zeros.
\<close>

definition wf_shard :: "u64 \<Rightarrow> shard_ident \<Rightarrow> bool" where
  "wf_shard SHARD_FULL s \<longleftrightarrow>
     SHARD_FULL = 0x8000000000000000 \<and> unat (prefix_len s) \<le> 60 \<and>
     take_bit (64 - unat (prefix_len s)) (shard_prefix_with_tag s) =
       push_bit (63 - unat (prefix_len s)) 1"

text \<open>The first \<open>n\<close> bits of a 64-bit value, and the shard tree order.\<close>

definition first_bits :: "nat \<Rightarrow> u64 \<Rightarrow> u64" where
  "first_bits n x = drop_bit (64 - n) x"

definition shard_ancestor :: "shard_ident \<Rightarrow> shard_ident \<Rightarrow> bool" where
  "shard_ancestor s t \<longleftrightarrow>
     prefix_len s \<le> prefix_len t \<and>
     first_bits (unat (prefix_len s)) (shard_prefix_with_tag s) =
       first_bits (unat (prefix_len s)) (shard_prefix_with_tag t)"

definition shards_disjoint :: "shard_ident list \<Rightarrow> bool" where
  "shards_disjoint ss \<longleftrightarrow>
     (\<forall>s \<in> set ss. \<forall>t \<in> set ss. s \<noteq> t \<longrightarrow> \<not> shard_ancestor s t)"

lemma bit_u64: "bit (w :: u64) i \<Longrightarrow> i < 64"
  by (auto dest: bit_imp_le_length)

lemma first_bits_eq_iff:
  assumes "n \<le> 64"
  shows "first_bits n x = first_bits n y \<longleftrightarrow>
    (\<forall>i. 64 - n \<le> i \<and> i < 64 \<longrightarrow> bit x i = bit y i)"
proof
  assume eq: "first_bits n x = first_bits n y"
  show "\<forall>i. 64 - n \<le> i \<and> i < 64 \<longrightarrow> bit x i = bit y i"
  proof (intro allI impI)
    fix i assume "64 - n \<le> i \<and> i < 64"
    then have "bit x i = bit (first_bits n x) (i - (64 - n))"
      "bit y i = bit (first_bits n y) (i - (64 - n))"
      by (simp_all add: first_bits_def bit_drop_bit_eq)
    with eq show "bit x i = bit y i" by simp
  qed
next
  assume *: "\<forall>i. 64 - n \<le> i \<and> i < 64 \<longrightarrow> bit x i = bit y i"
  show "first_bits n x = first_bits n y"
  proof (rule bit_word_eqI)
    fix i assume "i < LENGTH(64)"
    have "bit x (64 - n + i) = bit y (64 - n + i)"
      using * by (cases "64 - n + i < 64") (auto dest: bit_u64)
    then show "bit (first_bits n x) i = bit (first_bits n y) i"
      by (simp add: first_bits_def bit_drop_bit_eq)
  qed
qed

lemma first_bits_mono:
  assumes "m \<le> n" "n \<le> 64" "first_bits n x = first_bits n y"
  shows "first_bits m x = first_bits m y"
  using assms by (auto simp: first_bits_eq_iff)

lemma account_prefix_top:
  assumes "unat len \<le> 64"
  shows "account_prefix a len =
    push_bit (64 - unat len) (drop_bit (64 - unat len) (top64 a))"
proof (rule bit_word_eqI)
  fix n assume "n < LENGTH(64)"
  then show "bit (account_prefix a len) n =
      bit (push_bit (64 - unat len) (drop_bit (64 - unat len) (top64 a))) n"
    by (auto simp: bit_account_prefix [OF assms] bit_top64 bit_push_bit_iff bit_drop_bit_eq)
qed

lemma shr64_len:
  fixes len :: u8
  assumes "0 < unat len" "unat len \<le> 64"
  shows "shr64 x (64 - uint len) = first_bits (unat len) x"
proof -
  have "(64 - unat len) mod 64 = 64 - unat len"
    using assms by simp
  then have "int (64 - unat len) mod 64 = int (64 - unat len)"
    by (metis of_nat_mod of_nat_numeral)
  moreover have "int (64 - unat len) = 64 - uint len"
    using assms by (simp add: of_nat_diff)
  ultimately have "(64 - uint len) mod 64 = int (64 - unat len)" by simp
  then show ?thesis by (simp only: shr64_def first_bits_def nat_int)
qed

lemma first_bits_0 [simp]: "first_bits 0 x = 0"
  by (rule bit_word_eqI) (auto simp: first_bits_def bit_drop_bit_eq dest: bit_imp_le_length)

lemma wf_shard_full_iff:
  assumes "wf_shard f s"
  shows "shard_prefix_with_tag s = f \<longleftrightarrow> prefix_len s = 0"
proof -
  let ?l = "unat (prefix_len s)" and ?t = "shard_prefix_with_tag s"
  have f: "f = 2 ^ 63" and l: "?l \<le> 60"
    and t: "take_bit (64 - ?l) ?t = push_bit (63 - ?l) 1"
    using assms by (auto simp: wf_shard_def)
  show ?thesis
  proof
    assume "?t = f"
    have "bit (take_bit (64 - ?l) ?t) (63 - ?l)"
      using t by (simp add: bit_exp_iff)
    then have "bit (2 ^ 63 :: u64) (63 - ?l)"
      unfolding \<open>?t = f\<close> f bit_take_bit_iff by blast
    then have "63 - ?l = 63"
      unfolding bit_exp_iff by simp
    then have "?l = 0" using l by linarith
    then show "prefix_len s = 0" by (simp add: unat_eq_zero)
  next
    assume "prefix_len s = 0"
    with t have "take_bit 64 ?t = 2 ^ 63" by simp
    then show "?t = f" by (simp add: f take_bit_word_eq_self)
  qed
qed

text \<open>The test used by the code is the prefix test.\<close>

lemma contains_account_first_bits:
  assumes "wf_shard f s"
  shows "contains_account f s a \<longleftrightarrow>
    first_bits (unat (prefix_len s)) (top64 a) =
    first_bits (unat (prefix_len s)) (shard_prefix_with_tag s)"
proof (cases "prefix_len s = 0")
  case True
  then show ?thesis
    using wf_shard_full_iff [OF assms] by (simp add: contains_account_def)
next
  case False
  let ?l = "unat (prefix_len s)"
  have l: "0 < ?l" "?l \<le> 64"
    using False assms by (auto simp: wf_shard_def unat_gt_0)
  have "first_bits ?l (account_prefix a (prefix_len s)) = first_bits ?l (top64 a)"
    using l by (simp add: first_bits_eq_iff bit_account_prefix bit_top64)
  then show ?thesis
    using False l wf_shard_full_iff [OF assms]
    by (simp add: contains_account_def Let_def shr64_len)
qed

lemma wf_shard_len: "wf_shard f s \<Longrightarrow> unat (prefix_len s) \<le> 60"
  by (simp add: wf_shard_def)

text \<open>Two shards that hold the same account lie on one path of the shard tree.\<close>

lemma contains_account_nested:
  assumes "wf_shard f s" "wf_shard f t"
    and "contains_account f s a" "contains_account f t a"
  shows "shard_ancestor s t \<or> shard_ancestor t s"
proof -
  have *: "shard_ancestor s t"
    if "wf_shard f s" "wf_shard f t" "contains_account f s a" "contains_account f t a"
      and le: "prefix_len s \<le> prefix_len t" for s t
  proof -
    let ?m = "unat (prefix_len s)" and ?n = "unat (prefix_len t)"
    have mn: "?m \<le> ?n" "?n \<le> 64"
      using le that(2) by (auto simp: word_le_nat_alt wf_shard_def)
    have "first_bits ?m (top64 a) = first_bits ?m (shard_prefix_with_tag s)"
      "first_bits ?n (top64 a) = first_bits ?n (shard_prefix_with_tag t)"
      using that by (simp_all add: contains_account_first_bits)
    then show ?thesis
      using first_bits_mono [OF mn] le by (metis shard_ancestor_def)
  qed
  show ?thesis
    using assms * [of s t] * [of t s] by (meson linear)
qed

text \<open>The predicate the lookup searches with.\<close>

lemma contains_account_unique:
  assumes "\<forall>s \<in> set ss. wf_shard f s" "shards_disjoint ss"
    and "s \<in> set ss" "t \<in> set ss" "contains_account f s a" "contains_account f t a"
  shows "s = t"
  using assms contains_account_nested [of f s t a]
  by (auto simp: shards_disjoint_def)

lemma shards_entry_unique:
  assumes "hm_wf shards" "\<forall>s \<in> fst ` set shards. wf_shard f s" "shards_disjoint (map fst shards)"
    and "x \<in> set shards" "y \<in> set shards"
    and "contains_account f (fst x) a" "contains_account f (fst y) a"
  shows "x = y"
proof -
  have "fst x = fst y"
    using assms by (intro contains_account_unique [of "map fst shards" f "fst x" "fst y" a]) auto
  then show ?thesis
    using assms by (metis eq_key_imp_eq_value prod.collapse)
qed

text \<open>Splitting a shard: one more prefix bit, below the same parent.\<close>

lemma first_bits_Suc:
  assumes "m < 64"
  shows "first_bits (Suc m) x = first_bits (Suc m) y \<longleftrightarrow>
    first_bits m x = first_bits m y \<and> bit x (63 - m) = bit y (63 - m)"
proof -
  have "64 - Suc m \<le> i \<longleftrightarrow> 64 - m \<le> i \<or> i = 63 - m" for i
    using assms by auto
  then show ?thesis
    using assms by (auto simp: first_bits_eq_iff)
qed

lemma wf_shard_tag_eq:
  assumes "wf_shard f s" "wf_shard f t" "prefix_len s = prefix_len t"
    and "first_bits (unat (prefix_len s)) (shard_prefix_with_tag s) =
      first_bits (unat (prefix_len s)) (shard_prefix_with_tag t)"
  shows "shard_prefix_with_tag s = shard_prefix_with_tag t"
proof (rule bit_word_eqI)
  fix i assume i: "i < LENGTH(64)"
  let ?l = "unat (prefix_len s)" and ?s = "shard_prefix_with_tag s" and ?t = "shard_prefix_with_tag t"
  show "bit ?s i = bit ?t i"
  proof (cases "64 - ?l \<le> i")
    case True
    then show ?thesis
      using assms(1,4) i by (auto simp: first_bits_eq_iff wf_shard_def)
  next
    case False
    have "take_bit (64 - ?l) ?s = take_bit (64 - ?l) ?t"
      using assms(1-3) by (simp add: wf_shard_def)
    then have "bit (take_bit (64 - ?l) ?s) i = bit (take_bit (64 - ?l) ?t) i" by simp
    then show ?thesis using False by (simp add: bit_take_bit_iff)
  qed
qed

definition shard_children :: "u64 \<Rightarrow> shard_ident \<Rightarrow> shard_ident \<Rightarrow> shard_ident \<Rightarrow> bool" where
  "shard_children SHARD_FULL s l r \<longleftrightarrow>
     wf_shard SHARD_FULL s \<and> wf_shard SHARD_FULL l \<and> wf_shard SHARD_FULL r \<and>
     unat (prefix_len l) = Suc (unat (prefix_len s)) \<and> prefix_len r = prefix_len l \<and>
     shard_ancestor s l \<and> shard_ancestor s r \<and>
     shard_prefix_with_tag l \<noteq> shard_prefix_with_tag r"

lemma contains_account_children:
  assumes "shard_children f s l r"
  shows "contains_account f s a \<longleftrightarrow> contains_account f l a \<or> contains_account f r a"
    and "\<not> (contains_account f l a \<and> contains_account f r a)"
proof -
  let ?m = "unat (prefix_len s)" and ?a = "top64 a"
  let ?s = "shard_prefix_with_tag s" and ?l = "shard_prefix_with_tag l"
    and ?r = "shard_prefix_with_tag r"
  have wf: "wf_shard f s" "wf_shard f l" "wf_shard f r"
    and len: "unat (prefix_len l) = Suc ?m" "unat (prefix_len r) = Suc ?m" "prefix_len r = prefix_len l"
    and anc: "first_bits ?m ?s = first_bits ?m ?l" "first_bits ?m ?s = first_bits ?m ?r"
    and ne: "?l \<noteq> ?r"
    using assms by (auto simp: shard_children_def shard_ancestor_def)
  have m: "?m < 64" using wf(1) by (simp add: wf_shard_def)
  have "first_bits (Suc ?m) ?l \<noteq> first_bits (Suc ?m) ?r"
    using wf_shard_tag_eq [OF wf(2,3)] len ne by auto
  then have differ: "bit ?l (63 - ?m) \<noteq> bit ?r (63 - ?m)"
    using anc by (simp add: first_bits_Suc [OF m])
  show "contains_account f s a \<longleftrightarrow> contains_account f l a \<or> contains_account f r a"
    and "\<not> (contains_account f l a \<and> contains_account f r a)"
    using wf anc differ by (auto simp: contains_account_first_bits len first_bits_Suc [OF m])
qed

section \<open>Properties\<close>

text \<open>\<open>account_prefix\<close> returns exactly the first \<open>len\<close> bits of the account, in the high
  bits of the result, with zeros below, for every \<open>len\<close> the debug assertion allows.\<close>

theorem account_prefix_correct:
  assumes "unat len \<le> 64"
  shows "account_prefix a len = push_bit (64 - unat len) (first_bits (unat len) (top64 a))"
  using account_prefix_top [OF assms] by (simp add: first_bits_def)

theorem account_prefix_correct_witness:
  "unat (60 :: u8) \<le> 64 \<and>
   account_prefix (- 1) 60 = push_bit 4 (first_bits 60 (top64 (- 1)))"
proof -
  have h: "unat (60 :: u8) \<le> 64" by simp
  show ?thesis using h account_prefix_correct [OF h, of "- 1"] by simp
qed

text \<open>C13: An account is in a shard exactly when the account starts with the shard's prefix, and
  two shards that both hold an account are nested in the shard tree, so that no account is in two
  disjoint shards.\<close>

theorem contains_account_correct:
  assumes "wf_shard SHARD_FULL s" "wf_shard SHARD_FULL t"
  shows "(contains_account SHARD_FULL s a \<longleftrightarrow>
      first_bits (unat (prefix_len s)) (top64 a) =
      first_bits (unat (prefix_len s)) (shard_prefix_with_tag s)) \<and>
    (contains_account SHARD_FULL s a \<longrightarrow> contains_account SHARD_FULL t a \<longrightarrow>
      shard_ancestor s t \<or> shard_ancestor t s)"
  using contains_account_first_bits [OF assms(1)] contains_account_nested [OF assms] by blast

theorem contains_account_correct_witness:
  "wf_shard 0x8000000000000000
     \<lparr>workchain_id = 0, shard_prefix_with_tag = 0x4800000000000000, prefix_len = 4\<rparr> \<and>
   contains_account 0x8000000000000000
     \<lparr>workchain_id = 0, shard_prefix_with_tag = 0x4800000000000000, prefix_len = 4\<rparr>
     0x459b6795bf4d4c3b930c83fe7625cfee99a762e1e114c749b62bfa751b781fa5"
proof -
  let ?s = "\<lparr>workchain_id = 0, shard_prefix_with_tag = 0x4800000000000000, prefix_len = 4\<rparr>"
  have wf: "wf_shard 0x8000000000000000 ?s" by (simp add: wf_shard_def)
  have "first_bits 4 (top64 0x459b6795bf4d4c3b930c83fe7625cfee99a762e1e114c749b62bfa751b781fa5) =
      first_bits 4 0x4800000000000000"
    by (simp add: first_bits_def top64_def)
  then show ?thesis
    using wf contains_account_correct [OF wf wf] by simp
qed

text \<open>When a shard splits, every account of it is in exactly one of the two halves, and the
  halves hold no other account.\<close>

theorem shard_split_partition:
  assumes "shard_children SHARD_FULL s l r"
  shows "(contains_account SHARD_FULL s a \<longleftrightarrow>
      contains_account SHARD_FULL l a \<or> contains_account SHARD_FULL r a) \<and>
    \<not> (contains_account SHARD_FULL l a \<and> contains_account SHARD_FULL r a)"
  using contains_account_children [OF assms] by blast

theorem shard_split_partition_witness:
  "\<exists>l r. shard_children 0x8000000000000000
      \<lparr>workchain_id = 0, shard_prefix_with_tag = 0x8000000000000000, prefix_len = 0\<rparr> l r \<and>
    contains_account 0x8000000000000000 l 5 \<noteq> contains_account 0x8000000000000000 r 5"
proof -
  let ?s = "\<lparr>workchain_id = 0, shard_prefix_with_tag = 0x8000000000000000, prefix_len = 0\<rparr>"
  let ?l = "\<lparr>workchain_id = 0, shard_prefix_with_tag = 0x4000000000000000, prefix_len = 1\<rparr>"
  let ?r = "\<lparr>workchain_id = 0, shard_prefix_with_tag = 0xc000000000000000, prefix_len = 1\<rparr>"
  have c: "shard_children 0x8000000000000000 ?s ?l ?r"
    by (simp add: shard_children_def wf_shard_def shard_ancestor_def)
  have "contains_account 0x8000000000000000 ?s 5" by (simp add: contains_account_def)
  with c shard_split_partition [OF c, of 5] show ?thesis by blast
qed

text \<open>The lookup of an account over all shards does not depend on the iteration order of the
  hash map, as long as the shards are disjoint.\<close>

theorem find_account_order_independent:
  assumes "hm_wf shards" "\<forall>s \<in> fst ` set shards. wf_shard SHARD_FULL s"
    and "shards_disjoint (map fst shards)" "mset shards = mset shards'"
  shows "find_account SHARD_FULL shards account = find_account SHARD_FULL shards' account"
proof -
  have set: "set shards = set shards'" using assms(4) by (rule mset_eq_setD)
  have "List.find (\<lambda>(s, _). contains_account SHARD_FULL s account) shards =
      List.find (\<lambda>(s, _). contains_account SHARD_FULL s account) shards'"
    by (rule find_perm [OF set])
      (use shards_entry_unique [OF assms(1-3), of _ _ account] in auto)
  then show ?thesis by (simp add: find_account_def)
qed

theorem find_account_order_independent_witness:
  "find_account 0x8000000000000000
     [(\<lparr>workchain_id = 0, shard_prefix_with_tag = 0x4000000000000000, prefix_len = 1\<rparr>, \<lambda>_. Inr None),
      (\<lparr>workchain_id = 0, shard_prefix_with_tag = 0xc000000000000000, prefix_len = 1\<rparr>, \<lambda>_. Inr None)] 5 =
   (find_account 0x8000000000000000
     [(\<lparr>workchain_id = 0, shard_prefix_with_tag = 0xc000000000000000, prefix_len = 1\<rparr>, \<lambda>_. Inr None),
      (\<lparr>workchain_id = 0, shard_prefix_with_tag = 0x4000000000000000, prefix_len = 1\<rparr>, \<lambda>_. Inr None)] 5
     :: nat existing_contract option result)"
  by (rule find_account_order_independent)
    (auto simp: wf_shard_def shards_disjoint_def shard_ancestor_def first_bits_def)

end
