(* ===== verification/Ton_Contracts.thy ===== *)
theory Ton_Contracts
  imports Ton_Abi Shard_Utils
begin

text \<open>
  \<open>engine/ton_contracts/mod.rs\<close>: the typed getters of the contracts. A getter runs one declared
  function on the contract's state (\<open>run_local\<close>) and unpacks the tokens. The virtual machine and
  the unpackers that the \<open>UnpackAbi\<close> macro derives are fields of \<open>ton_lib\<close>; so is what
  \<open>ton_block\<close> tells of an account. \<open>UnsignedMessage\<close> of \<open>engine/keystore/mod.rs\<close> is here too,
  with the messages the relay builds.
\<close>

section \<open>The library\<close>

datatype abi_value =
    VUint nat nat \<comment> \<open>number and size\<close>
  | VAddress uint256
  | VBytes "u8 list"
  | VVote event_vote

text \<open>\<open>answer_id()\<close> or a named token.\<close>

datatype abi_token = AnswerId | Named string abi_value

datatype account_state = AccountUninit | AccountActive | AccountFrozen

record ('acc, 'tok, 'cell) ton_lib =
  vm_run_local ::
    "'acc existing_contract \<Rightarrow> abi_function \<Rightarrow> abi_token list \<Rightarrow> 'tok execution_output result"
  account_balance :: "'acc \<Rightarrow> u128"
  account_state_of :: "'acc \<Rightarrow> account_state"
  unpack_status :: "'tok list \<Rightarrow> event_status result"
  unpack_u32 :: "'tok list \<Rightarrow> u32 result"
  unpack_u64 :: "'tok list \<Rightarrow> u64 result"
  unpack_bool :: "'tok list \<Rightarrow> bool result"
  unpack_address :: "'tok list \<Rightarrow> uint256 result"
  unpack_relay_keys :: "'tok list \<Rightarrow> uint256 list result"
  unpack_staker_addresses :: "'tok list \<Rightarrow> uint256 list result"
  unpack_event_type :: "'tok list \<Rightarrow> event_type result"
  unpack_eth_event_init_data :: "'tok list \<Rightarrow> 'cell eth_event_init_data result"
  unpack_ton_event_init_data :: "'tok list \<Rightarrow> 'cell ton_event_init_data result"
  unpack_eth_configuration :: "'tok list \<Rightarrow> 'cell eth_event_configuration_details result"
  unpack_ton_configuration :: "'tok list \<Rightarrow> 'cell ton_event_configuration_details result"
  unpack_bridge_details :: "'tok list \<Rightarrow> 'cell bridge_details result"
  unpack_connector_details :: "'tok list \<Rightarrow> connector_details result"
  unpack_staking_details :: "'tok list \<Rightarrow> staking_details result"
  unpack_relay_rounds_details :: "'tok list \<Rightarrow> relay_rounds_details result"
  unpack_relay_config :: "'tok list \<Rightarrow> relay_config_details result"
  unpack_relay_round_details :: "'tok list \<Rightarrow> relay_round_details result"
  unpack_user_data :: "'tok list \<Rightarrow> user_data_details result"

definition contract_run ::
  "('acc, 'tok, 'cell) ton_lib \<Rightarrow> 'acc existing_contract \<Rightarrow> abi_function \<Rightarrow> abi_token list \<Rightarrow>
   'tok list result" where
  "contract_run lib c function inputs = run_local (vm_run_local lib c function inputs)"

section \<open>Getters\<close>

definition event_base_status ::
  "('acc, 'tok, 'cell) ton_lib \<Rightarrow> 'acc existing_contract \<Rightarrow> event_status result" where
  "event_base_status lib c =
     and_then (contract_run lib c abi_base_event_status [])
       (unpack_status lib)"

definition event_base_round_number ::
  "('acc, 'tok, 'cell) ton_lib \<Rightarrow> 'acc existing_contract \<Rightarrow> u32 result" where
  "event_base_round_number lib c =
     and_then (contract_run lib c abi_base_event_round_number [])
       (unpack_u32 lib)"

definition event_base_get_voters ::
  "('acc, 'tok, 'cell) ton_lib \<Rightarrow> 'acc existing_contract \<Rightarrow> event_vote \<Rightarrow> uint256 list result" where
  "event_base_get_voters lib c vote =
     and_then (contract_run lib c abi_base_event_get_voters [AnswerId, Named ''vote'' (VVote vote)])
       (unpack_relay_keys lib)"

definition event_base_get_api_version ::
  "('acc, 'tok, 'cell) ton_lib \<Rightarrow> 'acc existing_contract \<Rightarrow> u32 result" where
  "event_base_get_api_version lib c =
     and_then (contract_run lib c abi_base_event_get_api_version [AnswerId])
       (unpack_u32 lib)"

definition eth_event_get_init_data ::
  "('acc, 'tok, 'cell) ton_lib \<Rightarrow> 'acc existing_contract \<Rightarrow> 'cell eth_event_init_data result" where
  "eth_event_get_init_data lib c =
     and_then (contract_run lib c abi_eth_event_get_event_init_data [AnswerId])
       (unpack_eth_event_init_data lib)"

definition ton_event_get_init_data ::
  "('acc, 'tok, 'cell) ton_lib \<Rightarrow> 'acc existing_contract \<Rightarrow> 'cell ton_event_init_data result" where
  "ton_event_get_init_data lib c =
     and_then (contract_run lib c abi_ton_event_get_event_init_data [AnswerId])
       (unpack_ton_event_init_data lib)"

definition configuration_get_type ::
  "('acc, 'tok, 'cell) ton_lib \<Rightarrow> 'acc existing_contract \<Rightarrow> event_type result" where
  "configuration_get_type lib c =
     and_then (contract_run lib c abi_base_event_configuration_get_type [AnswerId])
       (unpack_event_type lib)"

definition eth_configuration_get_details ::
  "('acc, 'tok, 'cell) ton_lib \<Rightarrow> 'acc existing_contract \<Rightarrow> 'cell eth_event_configuration_details result" where
  "eth_configuration_get_details lib c =
     and_then (contract_run lib c abi_eth_event_configuration_get_details [AnswerId])
       (unpack_eth_configuration lib)"

definition ton_configuration_get_details ::
  "('acc, 'tok, 'cell) ton_lib \<Rightarrow> 'acc existing_contract \<Rightarrow> 'cell ton_event_configuration_details result" where
  "ton_configuration_get_details lib c =
     and_then (contract_run lib c abi_ton_event_configuration_get_details [AnswerId])
       (unpack_ton_configuration lib)"

definition bridge_connector_counter ::
  "('acc, 'tok, 'cell) ton_lib \<Rightarrow> 'acc existing_contract \<Rightarrow> u64 result" where
  "bridge_connector_counter lib c =
     and_then (contract_run lib c abi_bridge_connector_counter [])
       (unpack_u64 lib)"

definition bridge_get_details ::
  "('acc, 'tok, 'cell) ton_lib \<Rightarrow> 'acc existing_contract \<Rightarrow> 'cell bridge_details result" where
  "bridge_get_details lib c =
     and_then (contract_run lib c abi_bridge_get_details [AnswerId])
       (unpack_bridge_details lib)"

definition bridge_derive_connector_address ::
  "('acc, 'tok, 'cell) ton_lib \<Rightarrow> 'acc existing_contract \<Rightarrow> u64 \<Rightarrow> uint256 result" where
  "bridge_derive_connector_address lib c id' =
     and_then (contract_run lib c abi_bridge_derive_connector_address [Named ''id'' (VUint (unat id') 64)])
       (unpack_address lib)"

definition connector_get_details ::
  "('acc, 'tok, 'cell) ton_lib \<Rightarrow> 'acc existing_contract \<Rightarrow> connector_details result" where
  "connector_get_details lib c =
     and_then (contract_run lib c abi_connector_get_details [])
       (unpack_connector_details lib)"

definition staking_get_details ::
  "('acc, 'tok, 'cell) ton_lib \<Rightarrow> 'acc existing_contract \<Rightarrow> staking_details result" where
  "staking_get_details lib c =
     and_then (contract_run lib c abi_staking_get_details [AnswerId])
       (unpack_staking_details lib)"

definition staking_get_relay_rounds_details ::
  "('acc, 'tok, 'cell) ton_lib \<Rightarrow> 'acc existing_contract \<Rightarrow> relay_rounds_details result" where
  "staking_get_relay_rounds_details lib c =
     and_then (contract_run lib c abi_staking_get_relay_rounds_details [AnswerId])
       (unpack_relay_rounds_details lib)"

definition staking_get_relay_config ::
  "('acc, 'tok, 'cell) ton_lib \<Rightarrow> 'acc existing_contract \<Rightarrow> relay_config_details result" where
  "staking_get_relay_config lib c =
     and_then (contract_run lib c abi_staking_get_relay_config [AnswerId])
       (unpack_relay_config lib)"

definition staking_get_relay_round_address ::
  "('acc, 'tok, 'cell) ton_lib \<Rightarrow> 'acc existing_contract \<Rightarrow> u32 \<Rightarrow> uint256 result" where
  "staking_get_relay_round_address lib c round_num =
     and_then (contract_run lib c abi_staking_get_relay_round_address [AnswerId, Named ''round_num'' (VUint (unat round_num) 32)])
       (unpack_address lib)"

definition staking_get_election_address ::
  "('acc, 'tok, 'cell) ton_lib \<Rightarrow> 'acc existing_contract \<Rightarrow> u32 \<Rightarrow> uint256 result" where
  "staking_get_election_address lib c round_num =
     and_then (contract_run lib c abi_staking_get_election_address [AnswerId, Named ''round_num'' (VUint (unat round_num) 32)])
       (unpack_address lib)"

definition staking_get_user_data_address ::
  "('acc, 'tok, 'cell) ton_lib \<Rightarrow> 'acc existing_contract \<Rightarrow> uint256 \<Rightarrow> uint256 result" where
  "staking_get_user_data_address lib c user =
     and_then (contract_run lib c abi_staking_get_user_data_address [AnswerId, Named ''user'' (VAddress user)])
       (unpack_address lib)"

definition elections_staker_addrs ::
  "('acc, 'tok, 'cell) ton_lib \<Rightarrow> 'acc existing_contract \<Rightarrow> uint256 list result" where
  "elections_staker_addrs lib c =
     and_then (contract_run lib c abi_elections_staker_addrs [])
       (unpack_staker_addresses lib)"

definition relay_round_get_details ::
  "('acc, 'tok, 'cell) ton_lib \<Rightarrow> 'acc existing_contract \<Rightarrow> relay_round_details result" where
  "relay_round_get_details lib c =
     and_then (contract_run lib c abi_relay_round_get_details [AnswerId])
       (unpack_relay_round_details lib)"

definition relay_round_has_unclaimed_reward ::
  "('acc, 'tok, 'cell) ton_lib \<Rightarrow> 'acc existing_contract \<Rightarrow> uint256 \<Rightarrow> bool result" where
  "relay_round_has_unclaimed_reward lib c staker_addr =
     and_then (contract_run lib c abi_relay_round_has_unclaimed_reward [AnswerId, Named ''staker_addr'' (VAddress staker_addr)])
       (unpack_bool lib)"

definition relay_round_end_time ::
  "('acc, 'tok, 'cell) ton_lib \<Rightarrow> 'acc existing_contract \<Rightarrow> u32 result" where
  "relay_round_end_time lib c =
     and_then (contract_run lib c abi_relay_round_end_time [])
       (unpack_u32 lib)"

definition user_data_get_details ::
  "('acc, 'tok, 'cell) ton_lib \<Rightarrow> 'acc existing_contract \<Rightarrow> user_data_details result" where
  "user_data_get_details lib c =
     and_then (contract_run lib c abi_user_data_get_details [AnswerId])
       (unpack_user_data lib)"

lemmas getter_defs =
  event_base_status_def event_base_round_number_def
  event_base_get_voters_def event_base_get_api_version_def
  eth_event_get_init_data_def ton_event_get_init_data_def
  configuration_get_type_def eth_configuration_get_details_def
  ton_configuration_get_details_def bridge_connector_counter_def
  bridge_get_details_def bridge_derive_connector_address_def
  connector_get_details_def staking_get_details_def
  staking_get_relay_rounds_details_def staking_get_relay_config_def
  staking_get_relay_round_address_def staking_get_election_address_def
  staking_get_user_data_address_def elections_staker_addrs_def
  relay_round_get_details_def relay_round_has_unclaimed_reward_def
  relay_round_end_time_def user_data_get_details_def

section \<open>Unsigned messages\<close>

record unsigned_message =
  um_function :: abi_function
  um_inputs :: "abi_token list"
  um_account :: uint256
  um_dst_workchain :: int

definition unsigned_message_new :: "abi_function \<Rightarrow> uint256 \<Rightarrow> unsigned_message" where
  "unsigned_message_new function account =
     \<lparr>um_function = function, um_inputs = [], um_account = account, um_dst_workchain = 0\<rparr>"

text \<open>\<open>arg\<close> names the token after the function's next input; \<open>None\<close> is the index panic. The
  relay passes arguments to functions with named parameters only.\<close>

definition arg :: "abi_value \<Rightarrow> unsigned_message \<Rightarrow> unsigned_message option" where
  "arg v m =
     (let i = length (um_inputs m); params = fn_inputs (um_function m)
      in if i < length params
         then case params ! i of
                Param arg_name t \<Rightarrow> Some (m\<lparr>um_inputs := um_inputs m @ [Named arg_name v]\<rparr>)
              | Fields s \<Rightarrow> None
         else None)"

text \<open>The messages the relay builds: votes for events, and the messages of the staking part.\<close>

definition eth_event_confirm_message :: "uint256 \<Rightarrow> unsigned_message option" where
  "eth_event_confirm_message account =
     arg (VAddress account) (unsigned_message_new abi_eth_event_confirm account)"

definition eth_event_reject_message :: "uint256 \<Rightarrow> unsigned_message option" where
  "eth_event_reject_message account =
     arg (VAddress account) (unsigned_message_new abi_eth_event_reject account)"

definition ton_event_confirm_message :: "uint256 \<Rightarrow> u8 list \<Rightarrow> unsigned_message option" where
  "ton_event_confirm_message account signature =
     Option.bind (arg (VBytes signature) (unsigned_message_new abi_ton_event_confirm account))
       (arg (VAddress account))"

definition ton_event_reject_message :: "uint256 \<Rightarrow> unsigned_message option" where
  "ton_event_reject_message account =
     arg (VAddress account) (unsigned_message_new abi_ton_event_reject account)"

definition get_reward_message :: "uint256 \<Rightarrow> u32 \<Rightarrow> unsigned_message option" where
  "get_reward_message user_data round_num =
     arg (VUint (unat round_num) 32)
       (unsigned_message_new abi_user_data_get_reward_for_relay_round user_data)"

section \<open>Calls match declarations\<close>

fun value_has_type :: "abi_value \<Rightarrow> abi_type \<Rightarrow> bool" where
  "value_has_type (VUint n bits) (Uint b) \<longleftrightarrow> bits = b \<and> n < 2 ^ b"
| "value_has_type (VAddress a) Address \<longleftrightarrow> True"
| "value_has_type (VBytes bs) Bytes \<longleftrightarrow> True"
| "value_has_type (VVote v) (Struct s) \<longleftrightarrow> s = ''EventVote''"
| "value_has_type _ _ \<longleftrightarrow> False"

fun token_matches :: "abi_param \<Rightarrow> abi_token \<Rightarrow> bool" where
  "token_matches (Param n t) (Named m v) \<longleftrightarrow> n = m \<and> value_has_type v t"
| "token_matches _ _ \<longleftrightarrow> False"

text \<open>The tokens a function expects: its answer id, when it is responsible, then its inputs.\<close>

definition well_called :: "abi_function \<Rightarrow> abi_token list \<Rightarrow> bool" where
  "well_called f inputs =
     (if fn_responsible f
      then inputs \<noteq> [] \<and> hd inputs = AnswerId \<and> list_all2 token_matches (fn_inputs f) (tl inputs)
      else list_all2 token_matches (fn_inputs f) inputs)"

text \<open>A machine that refuses every other call.\<close>

definition strict_lib :: "('acc, 'tok, 'cell) ton_lib \<Rightarrow> ('acc, 'tok, 'cell) ton_lib" where
  "strict_lib lib = lib\<lparr>vm_run_local := \<lambda>c f inputs.
     if well_called f inputs then vm_run_local lib c f inputs
     else Inl (Foreign ''wrong inputs'')\<rparr>"

definition well_built :: "unsigned_message option \<Rightarrow> bool" where
  "well_built m = (case m of None \<Rightarrow> False | Some u \<Rightarrow> well_called (um_function u) (um_inputs u))"

lemma unat_lt_pow_u32 [simp]: "unat (x :: u32) < 4294967296"
  using unat_u32_bound [of x] by simp

lemma unat_lt_pow_u64 [simp]: "unat (x :: u64) < 18446744073709551616"
  using unsigned_less [of x, where ?'a = nat] by simp

section \<open>Properties\<close>

text \<open>Every getter calls its contract function with exactly the declared inputs, in order, with
  values of the declared types, so a machine that refuses any other call gives the same results.\<close>

theorem getters_well_called:
  "event_base_status (strict_lib lib) c = event_base_status lib c \<and>
   event_base_round_number (strict_lib lib) c = event_base_round_number lib c \<and>
   event_base_get_voters (strict_lib lib) c vote = event_base_get_voters lib c vote \<and>
   event_base_get_api_version (strict_lib lib) c = event_base_get_api_version lib c \<and>
   eth_event_get_init_data (strict_lib lib) c = eth_event_get_init_data lib c \<and>
   ton_event_get_init_data (strict_lib lib) c = ton_event_get_init_data lib c \<and>
   configuration_get_type (strict_lib lib) c = configuration_get_type lib c \<and>
   eth_configuration_get_details (strict_lib lib) c = eth_configuration_get_details lib c \<and>
   ton_configuration_get_details (strict_lib lib) c = ton_configuration_get_details lib c \<and>
   bridge_connector_counter (strict_lib lib) c = bridge_connector_counter lib c \<and>
   bridge_get_details (strict_lib lib) c = bridge_get_details lib c \<and>
   bridge_derive_connector_address (strict_lib lib) c id' = bridge_derive_connector_address lib c id' \<and>
   connector_get_details (strict_lib lib) c = connector_get_details lib c \<and>
   staking_get_details (strict_lib lib) c = staking_get_details lib c \<and>
   staking_get_relay_rounds_details (strict_lib lib) c = staking_get_relay_rounds_details lib c \<and>
   staking_get_relay_config (strict_lib lib) c = staking_get_relay_config lib c \<and>
   staking_get_relay_round_address (strict_lib lib) c round_num = staking_get_relay_round_address lib c round_num \<and>
   staking_get_election_address (strict_lib lib) c round_num = staking_get_election_address lib c round_num \<and>
   staking_get_user_data_address (strict_lib lib) c user = staking_get_user_data_address lib c user \<and>
   elections_staker_addrs (strict_lib lib) c = elections_staker_addrs lib c \<and>
   relay_round_get_details (strict_lib lib) c = relay_round_get_details lib c \<and>
   relay_round_has_unclaimed_reward (strict_lib lib) c staker_addr = relay_round_has_unclaimed_reward lib c staker_addr \<and>
   relay_round_end_time (strict_lib lib) c = relay_round_end_time lib c \<and>
   user_data_get_details (strict_lib lib) c = user_data_get_details lib c"
  by (simp add: getter_defs contract_run_def strict_lib_def well_called_def abi_defs)

end
