(* ===== verification/Tx_Context.thy ===== *)
theory Tx_Context
  imports Ton_Contracts
begin

text \<open>
  \<open>utils/tx_context.rs\<close>: what an observer reads from a transaction. An outgoing message that does
  not parse is an error element: \<open>iterate\<close> stops there. The identifiers of functions and events,
  and the decoders, belong to \<open>ton_abi\<close> and \<open>nekoton_abi\<close>: they are fields of \<open>tx_lib\<close>, a
  decoder together with the unpacking that follows it.
\<close>

datatype msg_kind = ExtInMsgInfo | IntMsgInfo | ExtOutMsgInfo

record 'body ton_message =
  msg_header :: msg_kind
  msg_body :: "'body option"

record ('acc, 'body) tx_context =
  ctx_account :: uint256
  ctx_transaction_hash :: uint256
  ctx_in_msg :: "'body ton_message"
  ctx_out_msgs :: "'body ton_message result list"
  ctx_find_account :: "'acc existing_contract option result"

definition in_msg_internal :: "('acc, 'body) tx_context \<Rightarrow> 'body ton_message option" where
  "in_msg_internal ctx =
     (if msg_header (ctx_in_msg ctx) = IntMsgInfo then Some (ctx_in_msg ctx) else None)"

definition in_msg_external :: "('acc, 'body) tx_context \<Rightarrow> 'body ton_message option" where
  "in_msg_external ctx =
     (if msg_header (ctx_in_msg ctx) = ExtInMsgInfo then Some (ctx_in_msg ctx) else None)"

text \<open>\<open>find_function_output\<close>: the first output that decodes; an unreadable body ends the search.\<close>

fun find_function_output ::
  "('body \<Rightarrow> u32 result) \<Rightarrow> u32 \<Rightarrow> ('body \<Rightarrow> 'tokens result) \<Rightarrow> 'body ton_message result list \<Rightarrow>
   'tokens option" where
  "find_function_output read_function_id output_id decode_output [] = None"
| "find_function_output read_function_id output_id decode_output (Inl e # msgs) = None"
| "find_function_output read_function_id output_id decode_output (Inr message # msgs) =
     (if msg_header message \<noteq> ExtOutMsgInfo
      then find_function_output read_function_id output_id decode_output msgs
      else case msg_body message of
             None \<Rightarrow> find_function_output read_function_id output_id decode_output msgs
           | Some body \<Rightarrow>
               (case read_function_id body of
                  Inl e \<Rightarrow> None
                | Inr function_id \<Rightarrow>
                    if function_id \<noteq> output_id
                    then find_function_output read_function_id output_id decode_output msgs
                    else case decode_output body of
                           Inr tokens \<Rightarrow> Some tokens
                         | Inl e \<Rightarrow>
                             find_function_output read_function_id output_id decode_output msgs))"

text \<open>\<open>iterate_events\<close> threads the variable that the closure captures.\<close>

fun iterate_events ::
  "('body \<Rightarrow> u32 result) \<Rightarrow> (u32 \<Rightarrow> 'body \<Rightarrow> 's \<Rightarrow> 's) \<Rightarrow> 'body ton_message result list \<Rightarrow> 's \<Rightarrow> 's"
where
  "iterate_events read_function_id f [] s = s"
| "iterate_events read_function_id f (Inl e # msgs) s = s"
| "iterate_events read_function_id f (Inr message # msgs) s =
     iterate_events read_function_id f msgs
       (if msg_header message \<noteq> ExtOutMsgInfo then s
        else case msg_body message of
               None \<Rightarrow> s
             | Some body \<Rightarrow>
                 (case read_function_id body of
                    Inr function_id \<Rightarrow> f function_id body s
                  | Inl e \<Rightarrow> s))"

definition get_account_state :: "('acc, 'body) tx_context \<Rightarrow> 'acc existing_contract result" where
  "get_account_state ctx =
     and_then (ctx_find_account ctx)
       (context_opt ''Account not found after transaction'')"

section \<open>The library\<close>

record 'body tx_lib =
  tx_read_function_id :: "'body \<Rightarrow> u32 result"
  tx_input_id :: "abi_function \<Rightarrow> u32"
  tx_output_id :: "abi_function \<Rightarrow> u32"
  tx_event_id :: "abi_event \<Rightarrow> u32"
  tx_unpack_headers :: "'body \<Rightarrow> (uint256 option \<times> 'body) result"
  tx_decode_connector_deployed :: "'body \<Rightarrow> connector_deployed_event result"
  tx_decode_address :: "'body \<Rightarrow> uint256 result"
  tx_decode_u32 :: "'body \<Rightarrow> u32 result"
  tx_decode_relay_keys :: "'body \<Rightarrow> uint256 list result"
  tx_decode_relay_keys_updated :: "'body \<Rightarrow> relay_keys_updated_event result"
  tx_decode_ton_pubkey_confirmed :: "'body \<Rightarrow> ton_pubkey_confirmed_event result"
  tx_decode_eth_address_confirmed :: "'body \<Rightarrow> eth_address_confirmed_event result"
  tx_decode_membership_requested :: "'body \<Rightarrow> relay_membership_requested_event result"
  tx_decode_deposit_processed :: "'body \<Rightarrow> deposit_processed_event result"
  tx_decode_election_started :: "'body \<Rightarrow> election_started_event result"
  tx_decode_election_ended :: "'body \<Rightarrow> election_ended_event result"
  tx_decode_round_initialized :: "'body \<Rightarrow> relay_round_initialized_event result"
  tx_decode_config_updated :: "'body \<Rightarrow> relay_config_updated_event result"

section \<open>Facts\<close>

text \<open>The events of a transaction: the readable external outgoing messages up to the first one that
  does not parse, with their function ids.\<close>

fun emitted_events ::
  "('body \<Rightarrow> u32 result) \<Rightarrow> 'body ton_message result list \<Rightarrow> (u32 \<times> 'body) list" where
  "emitted_events rid [] = []"
| "emitted_events rid (Inl e # msgs) = []"
| "emitted_events rid (Inr m # msgs) =
     (case (msg_header m, msg_body m) of
        (ExtOutMsgInfo, Some body) \<Rightarrow>
          (case rid body of Inr i \<Rightarrow> [(i, body)] | Inl e \<Rightarrow> [])
      | _ \<Rightarrow> []) @ emitted_events rid msgs"

lemma iterate_events_fold:
  "iterate_events rid f msgs s = fold (\<lambda>(i, body). f i body) (emitted_events rid msgs) s"
  by (induction rid f msgs s rule: iterate_events.induct)
    (auto split: msg_kind.splits option.splits sum.splits)

text \<open>A closure that overwrites its variable keeps the last event it accepts.\<close>

lemma fold_last_accepted:
  "fold (\<lambda>x s. case g x of Some y \<Rightarrow> Some y | None \<Rightarrow> s) xs s =
     (case List.find (\<lambda>x. g x \<noteq> None) (rev xs) of None \<Rightarrow> s | Some x \<Rightarrow> g x)"
proof (induction xs arbitrary: s)
  case (Cons x xs)
  then show ?case by (auto simp: find_append split: option.splits)
qed simp

lemma find_function_output_Some:
  "find_function_output rid oid dec msgs = Some tokens \<Longrightarrow>
   \<exists>body. (oid, body) \<in> set (emitted_events rid msgs) \<and> dec body = Inr tokens"
proof (induction msgs)
  case (Cons x msgs)
  show ?case
  proof (cases x)
    case (Inr m)
    then show ?thesis
      using Cons by (auto split: if_splits option.splits sum.splits msg_kind.splits)
  qed (use Cons in simp)
qed simp

end
