(* ===== verification/Bridge_Readers.thy ===== *)
theory Bridge_Readers
  imports Tx_Context
begin

text \<open>
  The readers of \<open>engine/bridge/mod.rs\<close> (\<open>ReadFromTransaction\<close>): how the observers of the bridge,
  the connectors, the configurations and the event contracts turn a transaction into an event.
\<close>

section \<open>Events\<close>

datatype bridge_event = ConnectorDeployed connector_deployed_event

datatype connector_event = Enable

datatype ton_event_configuration_event =
    TonEventDeployed uint256
  | SetEndTimestamp u32

datatype eth_event_configuration_event =
    EthEventDeployed uint256
  | SetEndBlockNumber u32

datatype eth_event =
    EthReceiveRoundRelays "uint256 list"
  | EthConfirm uint256
  | EthReject uint256

datatype ton_event =
    TonReceiveRoundRelays "uint256 list"
  | TonConfirm uint256
  | TonReject uint256
  | TonClosed

definition MIN_EVENT_BALANCE :: u128 where
  "MIN_EVENT_BALANCE = 100000000"

section \<open>Readers\<close>

definition read_bridge_event ::
  "'body tx_lib \<Rightarrow> ('acc, 'body) tx_context \<Rightarrow> bridge_event option" where
  "read_bridge_event lib ctx =
     iterate_events (tx_read_function_id lib)
       (\<lambda>i body event.
          if i = tx_event_id lib abi_bridge_event_connector_deployed
          then case tx_decode_connector_deployed lib body of
                 Inr parsed \<Rightarrow> Some (ConnectorDeployed parsed)
               | Inl e \<Rightarrow> event
          else event)
       (ctx_out_msgs ctx) None"

definition read_connector_event ::
  "'body tx_lib \<Rightarrow> ('acc, 'body) tx_context \<Rightarrow> connector_event option" where
  "read_connector_event lib ctx =
     iterate_events (tx_read_function_id lib)
       (\<lambda>i body event. if i = tx_event_id lib abi_connector_event_enabled then Some Enable else event)
       (ctx_out_msgs ctx) None"

definition find_new_event_contract_address ::
  "'body tx_lib \<Rightarrow> ('acc, 'body) tx_context \<Rightarrow> uint256 option" where
  "find_new_event_contract_address lib ctx =
     iterate_events (tx_read_function_id lib)
       (\<lambda>i body address.
          if i = tx_event_id lib abi_base_event_configuration_event_new_event_contract
          then case tx_decode_address lib body of Inr parsed \<Rightarrow> Some parsed | Inl e \<Rightarrow> address
          else address)
       (ctx_out_msgs ctx) None"

definition read_ton_event_configuration_event ::
  "'body tx_lib \<Rightarrow> ('acc, 'body) tx_context \<Rightarrow> ton_event_configuration_event option" where
  "read_ton_event_configuration_event lib ctx =
     Option.bind (Option.bind (in_msg_internal ctx) msg_body) (\<lambda>in_msg_body.
       case tx_read_function_id lib in_msg_body of
         Inl e \<Rightarrow> None
       | Inr i \<Rightarrow>
           if i = tx_input_id lib abi_ton_event_configuration_deploy_event
           then map_option TonEventDeployed (find_new_event_contract_address lib ctx)
           else if i = tx_input_id lib abi_ton_event_configuration_set_end_timestamp
           then (case tx_decode_u32 lib in_msg_body of
                   Inr end_timestamp \<Rightarrow> Some (SetEndTimestamp end_timestamp)
                 | Inl e \<Rightarrow> None)
           else None)"

definition read_eth_event_configuration_event ::
  "'body tx_lib \<Rightarrow> ('acc, 'body) tx_context \<Rightarrow> eth_event_configuration_event option" where
  "read_eth_event_configuration_event lib ctx =
     Option.bind (Option.bind (in_msg_internal ctx) msg_body) (\<lambda>in_msg_body.
       case tx_read_function_id lib in_msg_body of
         Inl e \<Rightarrow> None
       | Inr i \<Rightarrow>
           if i = tx_input_id lib abi_eth_event_configuration_deploy_event
           then map_option EthEventDeployed (find_new_event_contract_address lib ctx)
           else if i = tx_input_id lib abi_eth_event_configuration_set_end_block_number
           then (case tx_decode_u32 lib in_msg_body of
                   Inr end_block_number \<Rightarrow> Some (SetEndBlockNumber end_block_number)
                 | Inl e \<Rightarrow> None)
           else None)"

definition read_event_status ::
  "('acc, 'tok, 'cell) ton_lib \<Rightarrow> ('acc, 'body) tx_context \<Rightarrow> event_status option" where
  "read_event_status ton ctx =
     (case and_then (get_account_state ctx) (event_base_status ton) of
        Inr status \<Rightarrow> Some status
      | Inl e \<Rightarrow> None)"

definition read_external_in_msg :: "'body tx_lib \<Rightarrow> 'body \<Rightarrow> (uint256 \<times> 'body) option" where
  "read_external_in_msg lib body =
     (case tx_unpack_headers lib body of
        Inr (Some public_key, body) \<Rightarrow> Some (public_key, body)
      | _ \<Rightarrow> None)"

definition read_eth_event ::
  "'body tx_lib \<Rightarrow> ('acc, 'body) tx_context \<Rightarrow> eth_event option" where
  "read_eth_event lib ctx =
     (let in_msg = ctx_in_msg ctx
      in case msg_header in_msg of
           ExtInMsgInfo \<Rightarrow>
             Option.bind (msg_body in_msg) (\<lambda>body.
             Option.bind (read_external_in_msg lib body) (\<lambda>(public_key, body).
               case tx_read_function_id lib body of
                 Inl e \<Rightarrow> None
               | Inr i \<Rightarrow>
                   if i = tx_input_id lib abi_eth_event_confirm then Some (EthConfirm public_key)
                   else if i = tx_input_id lib abi_eth_event_reject then Some (EthReject public_key)
                   else None))
         | IntMsgInfo \<Rightarrow>
             Option.bind (msg_body in_msg) (\<lambda>body.
               case tx_read_function_id lib body of
                 Inl e \<Rightarrow> None
               | Inr i \<Rightarrow>
                   if i = tx_input_id lib abi_base_event_receive_round_relays
                   then (case tx_decode_relay_keys lib body of
                           Inr items \<Rightarrow> Some (EthReceiveRoundRelays items)
                         | Inl e \<Rightarrow> None)
                   else None)
         | ExtOutMsgInfo \<Rightarrow> None)"

text \<open>The first part of \<open>TonEvent::read_from_transaction\<close>: \<open>None\<close> when a \<open>?\<close> leaves the function,
  \<open>Some event\<close> with the optional event otherwise.\<close>

definition ton_event_of_in_msg :: "'body tx_lib \<Rightarrow> 'body ton_message \<Rightarrow> ton_event option option" where
  "ton_event_of_in_msg lib in_msg =
     (case msg_header in_msg of
        ExtInMsgInfo \<Rightarrow>
          Option.bind (msg_body in_msg) (\<lambda>body.
          Option.bind (read_external_in_msg lib body) (\<lambda>(public_key, body).
            case tx_read_function_id lib body of
              Inl e \<Rightarrow> Some None
            | Inr i \<Rightarrow>
                if i = tx_input_id lib abi_ton_event_confirm then Some (Some (TonConfirm public_key))
                else if i = tx_input_id lib abi_ton_event_reject
                then Some (Some (TonReject public_key))
                else Some None))
      | IntMsgInfo \<Rightarrow>
          Option.bind (msg_body in_msg) (\<lambda>body.
            case tx_read_function_id lib body of
              Inl e \<Rightarrow> Some None
            | Inr i \<Rightarrow>
                if i = tx_input_id lib abi_base_event_receive_round_relays
                then (case tx_decode_relay_keys lib body of
                        Inr items \<Rightarrow> Some (Some (TonReceiveRoundRelays items))
                      | Inl e \<Rightarrow> None)
                else Some None)
      | ExtOutMsgInfo \<Rightarrow> Some None)"

definition read_ton_event ::
  "('acc, 'tok, 'cell) ton_lib \<Rightarrow> 'body tx_lib \<Rightarrow> ('acc, 'body) tx_context \<Rightarrow> ton_event option" where
  "read_ton_event ton lib ctx =
     Option.bind (ton_event_of_in_msg lib (ctx_in_msg ctx)) (\<lambda>event.
       case event of
         Some e \<Rightarrow> Some e
       | None \<Rightarrow>
           (case get_account_state ctx of
              Inl e \<Rightarrow> None
            | Inr contract \<Rightarrow>
                if account_balance ton (ec_account contract) < MIN_EVENT_BALANCE
                then Some TonClosed else None))"

text \<open>The reader of a pair.\<close>

definition read_pair ::
  "(('acc, 'body) tx_context \<Rightarrow> 't option) \<Rightarrow> (('acc, 'body) tx_context \<Rightarrow> 'u option) \<Rightarrow>
   ('acc, 'body) tx_context \<Rightarrow> ('t \<times> 'u) option" where
  "read_pair t u ctx = Option.bind (t ctx) (\<lambda>x. Option.bind (u ctx) (\<lambda>y. Some (x, y)))"

section \<open>Properties\<close>

text \<open>The bridge observer reports the last connector deployment that decodes among the emitted
  events; an event that does not decode neither hides an earlier one nor stops the search.\<close>

theorem bridge_event_last_deployment:
  "read_bridge_event lib ctx =
     (case List.find (\<lambda>(i, body). i = tx_event_id lib abi_bridge_event_connector_deployed \<and>
                        (\<exists>d. tx_decode_connector_deployed lib body = Inr d))
             (rev (emitted_events (tx_read_function_id lib) (ctx_out_msgs ctx))) of
        None \<Rightarrow> None
      | Some (i, body) \<Rightarrow> map_option ConnectorDeployed
          (case tx_decode_connector_deployed lib body of Inr d \<Rightarrow> Some d | Inl e \<Rightarrow> None))"
proof -
  let ?evs = "emitted_events (tx_read_function_id lib) (ctx_out_msgs ctx)"
  let ?g = "\<lambda>(i, body). if i = tx_event_id lib abi_bridge_event_connector_deployed
      then (case tx_decode_connector_deployed lib body of
              Inr d \<Rightarrow> Some (ConnectorDeployed d) | Inl e \<Rightarrow> None) else None"
  have g: "(\<lambda>x. ?g x \<noteq> None) = (\<lambda>(i, body). i = tx_event_id lib abi_bridge_event_connector_deployed \<and>
      (\<exists>d. tx_decode_connector_deployed lib body = Inr d))"
    by (auto simp: fun_eq_iff split: sum.splits)
  have "read_bridge_event lib ctx =
      fold (\<lambda>x s. case ?g x of Some y \<Rightarrow> Some y | None \<Rightarrow> s) ?evs None"
    unfolding read_bridge_event_def iterate_events_fold
    by (rule fold_cong) (auto simp: fun_eq_iff split: sum.splits)
  also have "\<dots> = (case List.find (\<lambda>x. ?g x \<noteq> None) (rev ?evs) of None \<Rightarrow> None | Some x \<Rightarrow> ?g x)"
    by (rule fold_last_accepted)
  finally show ?thesis
    unfolding g by (auto split: option.splits sum.splits dest!: find_SomeD)
qed

text \<open>A vote is attributed to the key in the headers of an external message that calls
  \<open>confirm\<close> or \<open>reject\<close>, for both kinds of events, and to no other transaction.\<close>

theorem votes_are_external_calls:
  "(read_eth_event lib ctx = Some (EthConfirm key) \<longleftrightarrow>
      msg_header (ctx_in_msg ctx) = ExtInMsgInfo \<and>
      (\<exists>body inner. msg_body (ctx_in_msg ctx) = Some body \<and>
        tx_unpack_headers lib body = Inr (Some key, inner) \<and>
        tx_read_function_id lib inner = Inr (tx_input_id lib abi_eth_event_confirm))) \<and>
   (read_ton_event ton lib ctx = Some (TonConfirm key) \<longleftrightarrow>
      msg_header (ctx_in_msg ctx) = ExtInMsgInfo \<and>
      (\<exists>body inner. msg_body (ctx_in_msg ctx) = Some body \<and>
        tx_unpack_headers lib body = Inr (Some key, inner) \<and>
        tx_read_function_id lib inner = Inr (tx_input_id lib abi_ton_event_confirm)))"
proof
  show "read_eth_event lib ctx = Some (EthConfirm key) \<longleftrightarrow>
      msg_header (ctx_in_msg ctx) = ExtInMsgInfo \<and>
      (\<exists>body inner. msg_body (ctx_in_msg ctx) = Some body \<and>
        tx_unpack_headers lib body = Inr (Some key, inner) \<and>
        tx_read_function_id lib inner = Inr (tx_input_id lib abi_eth_event_confirm))"
    by (cases "msg_header (ctx_in_msg ctx)")
      (auto simp: read_eth_event_def Let_def read_external_in_msg_def
        split: Option.bind_splits sum.splits option.splits if_splits prod.splits)
  show "read_ton_event ton lib ctx = Some (TonConfirm key) \<longleftrightarrow>
      msg_header (ctx_in_msg ctx) = ExtInMsgInfo \<and>
      (\<exists>body inner. msg_body (ctx_in_msg ctx) = Some body \<and>
        tx_unpack_headers lib body = Inr (Some key, inner) \<and>
        tx_read_function_id lib inner = Inr (tx_input_id lib abi_ton_event_confirm))"
    by (cases "msg_header (ctx_in_msg ctx)")
      (auto simp: read_ton_event_def ton_event_of_in_msg_def read_external_in_msg_def
        split: Option.bind_splits sum.splits option.splits if_splits prod.splits)
qed

text \<open>A TON event is reported as closed exactly when its transaction was read to the end without
  an event and the account is left with less than the minimal event balance.\<close>

theorem ton_event_closed_iff:
  "read_ton_event ton lib ctx = Some TonClosed \<longleftrightarrow>
     ton_event_of_in_msg lib (ctx_in_msg ctx) = Some None \<and>
     (\<exists>contract. get_account_state ctx = Inr contract \<and>
        unat (account_balance ton (ec_account contract)) < 100000000)"
proof -
  have never: "ton_event_of_in_msg lib m \<noteq> Some (Some TonClosed)" for m
    by (cases "msg_header m")
      (auto simp: ton_event_of_in_msg_def
        split: Option.bind_splits sum.splits option.splits if_splits)
  have "account_balance ton a < MIN_EVENT_BALANCE \<longleftrightarrow> unat (account_balance ton a) < 100000000" for a
    by (simp add: MIN_EVENT_BALANCE_def word_less_nat_alt)
  then show ?thesis
    using never [of "ctx_in_msg ctx"]
    by (auto simp: read_ton_event_def split: Option.bind_splits option.splits sum.splits if_splits)
qed

end
