(* ===== verification/Bridge_State.thy ===== *)
theory Bridge_State
  imports Bridge_Readers
begin

text \<open>
  The configuration half of \<open>engine/bridge/mod.rs\<close>: connectors, event configurations and event
  code hashes, how they are loaded on startup and changed by events, and the collection of expired
  TON configurations. Observers are numbers in the order of their creation;
  \<open>br_subscriptions\<close> and \<open>br_eth_subscriptions\<close> list the calls of
  \<open>add_transactions_subscription\<close> and of \<open>EthSubscriber::subscribe\<close>. The calls that a handler makes
  outside this state are its arguments: the contracts, the time of the masterchain, whether a
  chain has a subscriber.
\<close>

section \<open>State\<close>

type_synonym observer = nat

record ('abi, 'cell) eth_event_configuration_state =
  ecs_details :: "'cell eth_event_configuration_details"
  ecs_event_abi :: 'abi
  ecs_observer :: observer

record ('tabi, 'cell) ton_event_configuration_state =
  tcs_details :: "'cell ton_event_configuration_details"
  tcs_event_abi :: 'tabi
  tcs_observer :: observer

record ('abi, 'tabi, 'cell) bridge_state =
  br_connectors :: "(uint256, observer) hmap"
  br_eth_configurations :: "(uint256, ('abi, 'cell) eth_event_configuration_state) hmap"
  br_ton_configurations :: "(uint256, ('tabi, 'cell) ton_event_configuration_state) hmap"
  br_event_code_hashes :: "(uint256, event_type) hmap"
  br_total_active_eth :: usize
  br_total_active_ton :: usize
  br_next_observer :: observer
  br_subscriptions :: "(uint256 \<times> observer) list"
  br_eth_subscriptions :: "(u32 \<times> h160 \<times> h256 \<times> uint256) list"

definition bridge_state_default :: "('abi, 'tabi, 'cell) bridge_state" where
  "bridge_state_default = \<lparr>br_connectors = [], br_eth_configurations = [],
     br_ton_configurations = [], br_event_code_hashes = [], br_total_active_eth = 0,
     br_total_active_ton = 0, br_next_observer = 0, br_subscriptions = [],
     br_eth_subscriptions = []\<rparr>"

text \<open>The event ABIs: \<open>EthEventAbi::new\<close>, its topic, \<open>decode_ton_event_abi\<close>, and the hash of a
  code cell.\<close>

record ('abi, 'tabi, 'cell) bridge_abi_lib =
  eth_event_abi_new :: "string \<Rightarrow> 'abi result"
  eth_event_topic :: "'abi \<Rightarrow> h256"
  decode_ton_event_abi :: "string \<Rightarrow> 'tabi result"
  code_hash_of :: "'cell \<Rightarrow> uint256"

definition subscribe_observer ::
  "uint256 \<Rightarrow> observer \<Rightarrow> ('abi, 'tabi, 'cell) bridge_state \<Rightarrow> ('abi, 'tabi, 'cell) bridge_state" where
  "subscribe_observer account observer s =
     s\<lparr>br_subscriptions := br_subscriptions s @ [(account, observer)]\<rparr>"

section \<open>Code hashes\<close>

definition add_event_code_hash ::
  "uint256 \<Rightarrow> event_type \<Rightarrow> (uint256, event_type) hmap \<Rightarrow> unit result \<times> (uint256, event_type) hmap" where
  "add_event_code_hash code_hash event_type hashes =
     (case hm_get hashes code_hash of
        None \<Rightarrow> (Inr (), hm_insert code_hash event_type hashes)
      | Some t \<Rightarrow>
          if t \<noteq> event_type then (Inl (BridgeErr InvalidEventConfiguration), hashes)
          else (Inr (), hashes))"

section \<open>Adding configurations\<close>

definition add_eth_event_configuration ::
  "('acc, 'tok, 'cell) ton_lib \<Rightarrow> ('abi, 'tabi, 'cell) bridge_abi_lib \<Rightarrow> (u32 \<Rightarrow> bool) \<Rightarrow>
   uint256 \<Rightarrow> 'acc existing_contract \<Rightarrow> ('abi, 'tabi, 'cell) bridge_state \<Rightarrow>
   unit result \<times> ('abi, 'tabi, 'cell) bridge_state" where
  "add_eth_event_configuration ton abi has_subscriber account contract s =
     (case context_res ''Failed to get ETH event configuration details''
             (eth_configuration_get_details ton contract) of
        Inl e \<Rightarrow> (Inl e, s)
      | Inr details \<Rightarrow>
     (case eth_event_abi_new abi (bc_event_abi (ecd_basic_configuration details)) of
        Inl e \<Rightarrow> (Inl e, s)
      | Inr event_abi \<Rightarrow>
     (let topic_hash = eth_event_topic abi event_abi;
          network = ecd_network_configuration details
      in if \<not> has_subscriber (eec_chain_id network) then (Inl (BridgeErr UnknownChainId), s)
         else
           (case add_event_code_hash (code_hash_of abi (bc_event_code (ecd_basic_configuration details)))
                   Eth (br_event_code_hashes s) of
              (Inl e, hashes) \<Rightarrow> (Inl e, s\<lparr>br_event_code_hashes := hashes\<rparr>)
            | (Inr _, hashes) \<Rightarrow>
                (let observer = br_next_observer s;
                     s1 = s\<lparr>br_event_code_hashes := hashes, br_next_observer := observer + 1\<rparr>
                 in if hm_contains account (br_eth_configurations s1)
                    then (Inl (BridgeErr EventConfigurationAlreadyExists), s1)
                    else
                      (Inr (), subscribe_observer account observer
                         (s1\<lparr>br_total_active_eth := br_total_active_eth s1 + 1,
                             br_eth_configurations := hm_insert account
                               \<lparr>ecs_details = details, ecs_event_abi = event_abi,
                                ecs_observer = observer\<rparr> (br_eth_configurations s1),
                             br_eth_subscriptions := br_eth_subscriptions s1 @
                               [(eec_chain_id network, eec_event_emitter network, topic_hash,
                                 account)]\<rparr>)))))))"

definition ton_configuration_is_expired ::
  "'cell ton_event_configuration_details \<Rightarrow> u32 \<Rightarrow> bool" where
  "ton_configuration_is_expired details current_timestamp \<longleftrightarrow>
     1 \<le> tec_end_timestamp (tcd_network_configuration details) \<and>
     tec_end_timestamp (tcd_network_configuration details) < current_timestamp"

definition add_ton_event_configuration ::
  "('acc, 'tok, 'cell) ton_lib \<Rightarrow> ('abi, 'tabi, 'cell) bridge_abi_lib \<Rightarrow> u32 \<Rightarrow>
   uint256 \<Rightarrow> 'acc existing_contract \<Rightarrow> ('abi, 'tabi, 'cell) bridge_state \<Rightarrow>
   unit result \<times> ('abi, 'tabi, 'cell) bridge_state" where
  "add_ton_event_configuration ton abi current_utime account contract s =
     (case context_res ''Failed to get TON event configuration details''
             (ton_configuration_get_details ton contract) of
        Inl e \<Rightarrow> (Inl e, s)
      | Inr details \<Rightarrow>
     (if ton_configuration_is_expired details current_utime then (Inr (), s)
      else
     (case decode_ton_event_abi abi (bc_event_abi (tcd_basic_configuration details)) of
        Inl e \<Rightarrow> (Inl e, s)
      | Inr event_abi \<Rightarrow>
           (case add_event_code_hash (code_hash_of abi (bc_event_code (tcd_basic_configuration details)))
                   Ton (br_event_code_hashes s) of
              (Inl e, hashes) \<Rightarrow> (Inl e, s\<lparr>br_event_code_hashes := hashes\<rparr>)
            | (Inr _, hashes) \<Rightarrow>
                (let observer = br_next_observer s;
                     s1 = s\<lparr>br_event_code_hashes := hashes, br_next_observer := observer + 1\<rparr>
                 in if hm_contains account (br_ton_configurations s1)
                    then (Inl (BridgeErr EventConfigurationAlreadyExists), s1)
                    else
                      (Inr (), subscribe_observer account observer
                         (s1\<lparr>br_total_active_ton := br_total_active_ton s1 + 1,
                             br_ton_configurations := hm_insert account
                               \<lparr>tcs_details = details, tcs_event_abi = event_abi,
                                tcs_observer = observer\<rparr> (br_ton_configurations s1)\<rparr>)))))))"

definition process_event_configuration ::
  "('acc, 'tok, 'cell) ton_lib \<Rightarrow> ('abi, 'tabi, 'cell) bridge_abi_lib \<Rightarrow> (u32 \<Rightarrow> bool) \<Rightarrow> u32 \<Rightarrow>
   uint256 \<Rightarrow> uint256 \<Rightarrow> 'acc existing_contract \<Rightarrow> ('abi, 'tabi, 'cell) bridge_state \<Rightarrow>
   unit result \<times> ('abi, 'tabi, 'cell) bridge_state" where
  "process_event_configuration ton abi has_subscriber current_utime connector_account
     configuration_account configuration_contract s =
     (case context_res ''Failed to get event configuration type''
             (configuration_get_type ton configuration_contract) of
        Inl e \<Rightarrow> (Inl e, s)
      | Inr event_type \<Rightarrow>
          if \<not> hm_contains connector_account (br_connectors s)
          then (Inl (BridgeErr UnknownConnector), s)
          else case event_type of
                 Eth \<Rightarrow>
                   map_prod (context_res ''Failed to add ETH event configuration'') (\<lambda>s. s)
                     (add_eth_event_configuration ton abi has_subscriber configuration_account
                        configuration_contract s)
               | Ton \<Rightarrow>
                   map_prod (context_res ''Failed to add TON event configuration'') (\<lambda>s. s)
                     (add_ton_event_configuration ton abi current_utime configuration_account
                        configuration_contract s))"

section \<open>Startup\<close>

text \<open>One iteration of \<open>get_all_configurations\<close>; an error leaves the loop. \<open>find_acc\<close> is
  \<open>shard_accounts.find_account\<close>.\<close>

definition load_connector ::
  "('acc, 'tok, 'cell) ton_lib \<Rightarrow> ('abi, 'tabi, 'cell) bridge_abi_lib \<Rightarrow> (u32 \<Rightarrow> bool) \<Rightarrow> u32 \<Rightarrow>
   (uint256 \<Rightarrow> 'acc existing_contract option result) \<Rightarrow> 'acc existing_contract \<Rightarrow> u64 \<Rightarrow>
   ('abi, 'tabi, 'cell) bridge_state \<Rightarrow> unit result \<times> ('abi, 'tabi, 'cell) bridge_state" where
  "load_connector ton abi has_subscriber current_utime find_acc bridge i s =
     (case context_res ''Failed to derive connector address''
             (bridge_derive_connector_address ton bridge i) of
        Inl e \<Rightarrow> (Inl e, s)
      | Inr connector_account \<Rightarrow>
     (case find_acc connector_account of
        Inl e \<Rightarrow> (Inl e, s)
      | Inr None \<Rightarrow> (Inr (), s)
      | Inr (Some contract) \<Rightarrow>
     (case connector_get_details ton contract of
        Inl e \<Rightarrow> (Inr (), s)
      | Inr details \<Rightarrow>
     (let observer = br_next_observer s;
          s1 = subscribe_observer connector_account observer
                 (s\<lparr>br_next_observer := observer + 1,
                    br_connectors := hm_insert connector_account observer (br_connectors s)\<rparr>)
      in if \<not> cd_enabled details then (Inr (), s1)
         else case find_acc (cd_event_configuration details) of
                Inl e \<Rightarrow> (Inl e, s1)
              | Inr None \<Rightarrow> (Inr (), s1)
              | Inr (Some configuration_contract) \<Rightarrow>
                  (Inr (), snd (process_event_configuration ton abi has_subscriber current_utime
                     connector_account (cd_event_configuration details) configuration_contract
                     s1))))))"

fun load_connectors ::
  "('acc, 'tok, 'cell) ton_lib \<Rightarrow> ('abi, 'tabi, 'cell) bridge_abi_lib \<Rightarrow> (u32 \<Rightarrow> bool) \<Rightarrow> u32 \<Rightarrow>
   (uint256 \<Rightarrow> 'acc existing_contract option result) \<Rightarrow> 'acc existing_contract \<Rightarrow> u64 list \<Rightarrow>
   ('abi, 'tabi, 'cell) bridge_state \<Rightarrow> unit result \<times> ('abi, 'tabi, 'cell) bridge_state" where
  "load_connectors ton abi has_subscriber current_utime find_acc bridge [] s = (Inr (), s)"
| "load_connectors ton abi has_subscriber current_utime find_acc bridge (i # ids) s =
     (case load_connector ton abi has_subscriber current_utime find_acc bridge i s of
        (Inl e, s1) \<Rightarrow> (Inl e, s1)
      | (Inr _, s1) \<Rightarrow> load_connectors ton abi has_subscriber current_utime find_acc bridge ids s1)"

definition get_all_configurations ::
  "('acc, 'tok, 'cell) ton_lib \<Rightarrow> ('abi, 'tabi, 'cell) bridge_abi_lib \<Rightarrow> (u32 \<Rightarrow> bool) \<Rightarrow> u32 \<Rightarrow>
   (uint256 \<Rightarrow> 'acc existing_contract option result) result \<Rightarrow> uint256 \<Rightarrow>
   ('abi, 'tabi, 'cell) bridge_state \<Rightarrow> unit result \<times> ('abi, 'tabi, 'cell) bridge_state" where
  "get_all_configurations ton abi has_subscriber current_utime get_all_shard_accounts bridge_account s =
     (case get_all_shard_accounts of
        Inl e \<Rightarrow> (Inl e, s)
      | Inr find_acc \<Rightarrow>
     (case find_acc bridge_account of
        Inl e \<Rightarrow> (Inl e, s)
      | Inr None \<Rightarrow> (Inl (BridgeErr BridgeAccountNotFound), s)
      | Inr (Some bridge) \<Rightarrow>
     (case context_res ''Failed to get connector count'' (bridge_connector_counter ton bridge) of
        Inl e \<Rightarrow> (Inl e, s)
      | Inr connector_count \<Rightarrow>
          load_connectors ton abi has_subscriber current_utime find_acc bridge
            (map of_nat [0..<unat connector_count]) s)))"

section \<open>Events of the bridge, its connectors and its configurations\<close>

text \<open>The flag says whether a task for \<open>check_connector_contract\<close> is spawned.\<close>

definition process_bridge_event ::
  "bridge_event \<Rightarrow> ('abi, 'tabi, 'cell) bridge_state \<Rightarrow> bool \<times> ('abi, 'tabi, 'cell) bridge_state" where
  "process_bridge_event event s =
     (case event of
        ConnectorDeployed event \<Rightarrow>
          if hm_contains (cde_connector event) (br_connectors s) then (False, s)
          else (let observer = br_next_observer s
                in (True, subscribe_observer (cde_connector event) observer
                      (s\<lparr>br_next_observer := observer + 1,
                         br_connectors := hm_insert (cde_connector event) observer
                           (br_connectors s)\<rparr>))))"

text \<open>\<open>check_connector_contract\<close>: \<open>wait_contract_state\<close> is the outcome of the two waits.\<close>

definition check_connector_contract ::
  "('acc, 'tok, 'cell) ton_lib \<Rightarrow> ('abi, 'tabi, 'cell) bridge_abi_lib \<Rightarrow> (u32 \<Rightarrow> bool) \<Rightarrow> u32 \<Rightarrow>
   (uint256 \<Rightarrow> 'acc existing_contract result) \<Rightarrow> uint256 \<Rightarrow>
   ('abi, 'tabi, 'cell) bridge_state \<Rightarrow> unit result \<times> ('abi, 'tabi, 'cell) bridge_state" where
  "check_connector_contract ton abi has_subscriber current_utime wait_contract_state
     connector_account s =
     (case and_then (wait_contract_state connector_account) (connector_get_details ton) of
        Inl e \<Rightarrow> (Inl e, s)
      | Inr connector_details \<Rightarrow>
          if \<not> cd_enabled connector_details then (Inr (), s)
          else case wait_contract_state (cd_event_configuration connector_details) of
                 Inl e \<Rightarrow> (Inl e, s)
               | Inr contract \<Rightarrow>
                   process_event_configuration ton abi has_subscriber current_utime
                     connector_account (cd_event_configuration connector_details) contract s)"

definition process_connector_event ::
  "('acc, 'tok, 'cell) ton_lib \<Rightarrow> ('abi, 'tabi, 'cell) bridge_abi_lib \<Rightarrow> (u32 \<Rightarrow> bool) \<Rightarrow> u32 \<Rightarrow>
   (uint256 \<Rightarrow> 'acc existing_contract result) \<Rightarrow> uint256 \<Rightarrow> connector_event \<Rightarrow>
   ('abi, 'tabi, 'cell) bridge_state \<Rightarrow> unit result \<times> ('abi, 'tabi, 'cell) bridge_state" where
  "process_connector_event ton abi has_subscriber current_utime wait_contract_state connector event s =
     (case event of
        Enable \<Rightarrow>
          check_connector_contract ton abi has_subscriber current_utime wait_contract_state connector s)"

text \<open>The part of \<open>process_ton_event_configuration_event\<close> and of its ETH twin that changes the
  configurations.\<close>

definition set_ton_end_timestamp ::
  "uint256 \<Rightarrow> u32 \<Rightarrow> ('abi, 'tabi, 'cell) bridge_state \<Rightarrow>
   unit result \<times> ('abi, 'tabi, 'cell) bridge_state" where
  "set_ton_end_timestamp account end_timestamp s =
     (case hm_get (br_ton_configurations s) account of
        None \<Rightarrow> (Inl (BridgeErr UnknownConfiguration), s)
      | Some c \<Rightarrow>
          (Inr (), s\<lparr>br_ton_configurations := hm_insert account
             (c\<lparr>tcs_details := (tcs_details c)\<lparr>tcd_network_configuration :=
                (tcd_network_configuration (tcs_details c))\<lparr>tec_end_timestamp := end_timestamp\<rparr>\<rparr>\<rparr>)
             (br_ton_configurations s)\<rparr>))"

definition set_eth_end_block_number ::
  "uint256 \<Rightarrow> u32 \<Rightarrow> ('abi, 'tabi, 'cell) bridge_state \<Rightarrow>
   unit result \<times> ('abi, 'tabi, 'cell) bridge_state" where
  "set_eth_end_block_number account end_block_number s =
     (case hm_get (br_eth_configurations s) account of
        None \<Rightarrow> (Inl (BridgeErr UnknownConfiguration), s)
      | Some c \<Rightarrow>
          (Inr (), s\<lparr>br_eth_configurations := hm_insert account
             (c\<lparr>ecs_details := (ecs_details c)\<lparr>ecd_network_configuration :=
                (ecd_network_configuration (ecs_details c))\<lparr>eec_end_block_number := end_block_number\<rparr>\<rparr>\<rparr>)
             (br_eth_configurations s)\<rparr>))"

section \<open>Collection of expired configurations\<close>

definition has_expired_ton_event_configurations ::
  "u32 \<Rightarrow> ('abi, 'tabi, 'cell) bridge_state \<Rightarrow> bool" where
  "has_expired_ton_event_configurations current_timestamp s \<longleftrightarrow>
     list_ex (\<lambda>(_, state). ton_configuration_is_expired (tcs_details state) current_timestamp)
       (br_ton_configurations s)"

text \<open>One turn of the loop: \<open>shards\<close> is the outcome of \<open>wait_shards\<close> and of the waits for the shard
  states, with the time of the masterchain block. The removal is atomic under the write lock.\<close>

definition gc_turn ::
  "u32 \<Rightarrow> u32 result \<Rightarrow> ('abi, 'tabi, 'cell) bridge_state \<Rightarrow> ('abi, 'tabi, 'cell) bridge_state" where
  "gc_turn current_utime shards s =
     (if \<not> has_expired_ton_event_configurations current_utime s then s
      else case shards of
             Inl e \<Rightarrow> s
           | Inr current_utime \<Rightarrow>
               (let kept = hm_retain (\<lambda>_ state.
                      \<not> ton_configuration_is_expired (tcs_details state) current_utime)
                      (br_ton_configurations s)
                in s\<lparr>br_ton_configurations := kept,
                     br_total_active_ton := br_total_active_ton s -
                       of_nat (length (br_ton_configurations s) - length kept)\<rparr>))"

text \<open>\<open>BridgeMetrics\<close>; the two counters of pending events are loaded from the event states.\<close>

record bridge_metrics_data =
  pending_eth_event_count :: usize
  pending_ton_event_count :: usize
  total_active_eth_event_configurations :: usize
  total_active_ton_event_configurations :: usize

definition bridge_metrics ::
  "usize \<Rightarrow> usize \<Rightarrow> ('abi, 'tabi, 'cell) bridge_state \<Rightarrow> bridge_metrics_data" where
  "bridge_metrics eth_count ton_count s =
     \<lparr>pending_eth_event_count = eth_count, pending_ton_event_count = ton_count,
      total_active_eth_event_configurations = br_total_active_eth s,
      total_active_ton_event_configurations = br_total_active_ton s\<rparr>"

end
