(* ===== verification/Example_Contracts.thy ===== *)
theory Example_Contracts
  imports Ton_Contracts
begin

text \<open>
  A concrete instance of \<open>ton_lib\<close>, used by witnesses only: an account's state is its number, and
  running a function returns that number followed by the numbers among the inputs. Account 1 is a
  bridge with the connectors 10 and 11; connector \<open>n\<close> points to configuration \<open>n + 10\<close>, of which
  20 is an ETH and every other one a TON configuration; an event is pending and waits for key 42.
\<close>

fun example_numbers :: "abi_token list \<Rightarrow> nat list" where
  "example_numbers [] = []"
| "example_numbers (Named s (VUint n b) # ts) = n # example_numbers ts"
| "example_numbers (t # ts) = example_numbers ts"

definition example_eth_configuration :: "uint256 eth_event_configuration_details" where
  "example_eth_configuration =
     \<lparr>ecd_basic_configuration = \<lparr>bc_event_abi = [], bc_staking = 3, bc_event_initial_balance = 0,
        bc_event_code = 100\<rparr>,
      ecd_network_configuration = \<lparr>eec_chain_id = 1, eec_event_emitter = 1,
        eec_event_blocks_to_confirm = 3, eec_proxy = 0, eec_start_block_number = 0,
        eec_end_block_number = 0\<rparr>,
      ecd_meta = 0\<rparr>"

definition example_ton_configuration :: "uint256 ton_event_configuration_details" where
  "example_ton_configuration =
     \<lparr>tcd_basic_configuration = \<lparr>bc_event_abi = [], bc_staking = 3, bc_event_initial_balance = 0,
        bc_event_code = 200\<rparr>,
      tcd_network_configuration = \<lparr>tec_event_emitter = 0, tec_proxy = 0,
        tec_start_timestamp = 0, tec_end_timestamp = 50\<rparr>,
      tcd_meta = 0\<rparr>"

definition example_eth_event :: "uint256 eth_event_init_data" where
  "example_eth_event =
     \<lparr>eid_vote_data = \<lparr>evd_event_transaction = 6, evd_event_index = 7, evd_event_data = 9,
        evd_event_block_number = 5, evd_event_block = 4\<rparr>,
      eid_configuration = 20, eid_staking = 3, eid_chain_id = 1\<rparr>"

definition example_ton_event :: "uint256 ton_event_init_data" where
  "example_ton_event =
     \<lparr>tid_vote_data = \<lparr>tvd_event_transaction_lt = 1, tvd_event_timestamp = 2, tvd_event_data = 9\<rparr>,
      tid_configuration = 21, tid_staking = 3\<rparr>"

definition example_ton_lib :: "(nat, nat, uint256) ton_lib" where
  "example_ton_lib =
     \<lparr>vm_run_local = \<lambda>c f inputs. Inr \<lparr>eo_tokens = Some (ec_account c # example_numbers inputs),
        eo_result_code = 0\<rparr>,
      account_balance = \<lambda>_. 1000000000,
      account_state_of = \<lambda>_. AccountActive,
      unpack_status = \<lambda>_. Inr Pending,
      unpack_u32 = \<lambda>_. Inr 2,
      unpack_u64 = \<lambda>_. Inr 2,
      unpack_bool = \<lambda>_. Inr True,
      unpack_address = \<lambda>toks. Inr (of_nat (10 + sum_list (tl toks))),
      unpack_relay_keys = \<lambda>_. Inr [42],
      unpack_staker_addresses = \<lambda>_. Inr [42],
      unpack_event_type = \<lambda>toks. Inr (if hd toks = 20 then Eth else Ton),
      unpack_eth_event_init_data = \<lambda>_. Inr example_eth_event,
      unpack_ton_event_init_data = \<lambda>_. Inr example_ton_event,
      unpack_eth_configuration = \<lambda>_. Inr example_eth_configuration,
      unpack_ton_configuration = \<lambda>_. Inr example_ton_configuration,
      unpack_bridge_details = \<lambda>_. Inl InvalidAbi,
      unpack_connector_details = \<lambda>toks. Inr \<lparr>cd_id = 0,
        cd_event_configuration = of_nat (hd toks + 10), cd_enabled = True\<rparr>,
      unpack_staking_details = \<lambda>_. Inl InvalidAbi,
      unpack_relay_rounds_details = \<lambda>_. Inl InvalidAbi,
      unpack_relay_config = \<lambda>_. Inl InvalidAbi,
      unpack_relay_round_details = \<lambda>_. Inl InvalidAbi,
      unpack_user_data = \<lambda>_. Inl InvalidAbi\<rparr>"

definition example_contract :: "nat \<Rightarrow> nat existing_contract" where
  "example_contract n = \<lparr>ec_account = n, ec_last_lt = 0, ec_last_hash = 0\<rparr>"

lemma example_ton_lib_simps [simp]:
  "vm_run_local example_ton_lib c f inputs =
     Inr \<lparr>eo_tokens = Some (ec_account c # example_numbers inputs), eo_result_code = 0\<rparr>"
  "account_balance example_ton_lib n = 1000000000"
  "account_state_of example_ton_lib n = AccountActive"
  "unpack_status example_ton_lib toks = Inr Pending"
  "unpack_u32 example_ton_lib toks = Inr 2"
  "unpack_u64 example_ton_lib toks = Inr 2"
  "unpack_bool example_ton_lib toks = Inr True"
  "unpack_address example_ton_lib toks = Inr (of_nat (10 + sum_list (tl toks)))"
  "unpack_relay_keys example_ton_lib toks = Inr [42]"
  "unpack_staker_addresses example_ton_lib toks = Inr [42]"
  "unpack_event_type example_ton_lib toks = Inr (if hd toks = 20 then Eth else Ton)"
  "unpack_eth_event_init_data example_ton_lib toks = Inr example_eth_event"
  "unpack_ton_event_init_data example_ton_lib toks = Inr example_ton_event"
  "unpack_eth_configuration example_ton_lib toks = Inr example_eth_configuration"
  "unpack_ton_configuration example_ton_lib toks = Inr example_ton_configuration"
  "unpack_connector_details example_ton_lib toks =
     Inr \<lparr>cd_id = 0, cd_event_configuration = of_nat (hd toks + 10), cd_enabled = True\<rparr>"
  by (simp_all add: example_ton_lib_def)

lemma example_contract_run [simp]:
  "contract_run example_ton_lib (example_contract n) f inputs = Inr (n # example_numbers inputs)"
  by (simp add: contract_run_def run_local_def example_contract_def)

end
