(* ===== verification/Bridge_State_Props.thy ===== *)
theory Bridge_State_Props
  imports Bridge_State Example_Contracts
begin

text \<open>
  The invariant of the bridge's configurations and the properties that follow from it: the exported
  counters are the sizes of the two maps, and the code of an event contract belongs to
  configurations of one kind only.
\<close>

section \<open>The invariant\<close>

definition eth_code_hash ::
  "('abi, 'tabi, 'cell) bridge_abi_lib \<Rightarrow> ('abi, 'cell) eth_event_configuration_state \<Rightarrow> uint256" where
  "eth_code_hash abi c = code_hash_of abi (bc_event_code (ecd_basic_configuration (ecs_details c)))"

definition ton_code_hash ::
  "('abi, 'tabi, 'cell) bridge_abi_lib \<Rightarrow> ('tabi, 'cell) ton_event_configuration_state \<Rightarrow> uint256" where
  "ton_code_hash abi c = code_hash_of abi (bc_event_code (tcd_basic_configuration (tcs_details c)))"

definition bridge_inv ::
  "('abi, 'tabi, 'cell) bridge_abi_lib \<Rightarrow> ('abi, 'tabi, 'cell) bridge_state \<Rightarrow> bool" where
  "bridge_inv abi s \<longleftrightarrow>
     hm_wf (br_eth_configurations s) \<and> hm_wf (br_ton_configurations s) \<and>
     br_total_active_eth s = of_nat (length (br_eth_configurations s)) \<and>
     br_total_active_ton s = of_nat (length (br_ton_configurations s)) \<and>
     (\<forall>x \<in> set (br_eth_configurations s).
        hm_get (br_event_code_hashes s) (eth_code_hash abi (snd x)) = Some Eth) \<and>
     (\<forall>x \<in> set (br_ton_configurations s).
        hm_get (br_event_code_hashes s) (ton_code_hash abi (snd x)) = Some Ton)"

lemma bridge_inv_default: "bridge_inv abi bridge_state_default"
  by (simp add: bridge_inv_def bridge_state_default_def)

lemma bridge_inv_cong:
  "bridge_inv abi s \<Longrightarrow> br_eth_configurations s' = br_eth_configurations s \<Longrightarrow>
   br_ton_configurations s' = br_ton_configurations s \<Longrightarrow>
   br_event_code_hashes s' = br_event_code_hashes s \<Longrightarrow>
   br_total_active_eth s' = br_total_active_eth s \<Longrightarrow>
   br_total_active_ton s' = br_total_active_ton s \<Longrightarrow> bridge_inv abi s'"
  by (simp add: bridge_inv_def)

lemma add_event_code_hash_Inl:
  "add_event_code_hash h t hashes = (Inl e, hashes') \<Longrightarrow> hashes' = hashes"
  by (auto simp: add_event_code_hash_def split: option.splits if_splits)

lemma add_event_code_hash_Inr:
  "add_event_code_hash h t hashes = (Inr u, hashes') \<Longrightarrow>
   hm_get hashes' h = Some t \<and> (\<forall>k v. hm_get hashes k = Some v \<longrightarrow> hm_get hashes' k = Some v)"
  by (auto simp: add_event_code_hash_def hm_get_insert split: option.splits if_splits)

text \<open>Registering a code hash keeps the invariant, and so does adding a configuration whose code is
  registered.\<close>

lemma bridge_inv_hashes:
  assumes "bridge_inv abi s"
    and "\<And>k v. hm_get (br_event_code_hashes s) k = Some v \<Longrightarrow> hm_get hashes k = Some v"
  shows "bridge_inv abi (s\<lparr>br_event_code_hashes := hashes, br_next_observer := n\<rparr>)"
  using assms by (simp add: bridge_inv_def)

lemma subscribe_observer_fields [simp]:
  "br_eth_configurations (subscribe_observer a ob s) = br_eth_configurations s"
  "br_ton_configurations (subscribe_observer a ob s) = br_ton_configurations s"
  "br_event_code_hashes (subscribe_observer a ob s) = br_event_code_hashes s"
  "br_total_active_eth (subscribe_observer a ob s) = br_total_active_eth s"
  "br_total_active_ton (subscribe_observer a ob s) = br_total_active_ton s"
  "br_connectors (subscribe_observer a ob s) = br_connectors s"
  by (simp_all add: subscribe_observer_def)

lemma bridge_inv_insert_eth:
  assumes inv: "bridge_inv abi s" and new: "\<not> hm_contains account (br_eth_configurations s)"
    and code: "hm_get (br_event_code_hashes s) (eth_code_hash abi c) = Some Eth"
  shows "bridge_inv abi (subscribe_observer account n (s\<lparr>
    br_total_active_eth := br_total_active_eth s + 1,
    br_eth_configurations := hm_insert account c (br_eth_configurations s),
    br_eth_subscriptions := subs\<rparr>))"
proof -
  have "length (hm_insert account c (br_eth_configurations s)) = Suc (length (br_eth_configurations s))"
    using new by (simp add: hm_insert_length)
  moreover have "hm_get (br_event_code_hashes s) (eth_code_hash abi (snd x)) = Some Eth"
    if "x \<in> set (hm_insert account c (br_eth_configurations s))" for x
    using hm_insert_elem [OF that] inv code by (auto simp: bridge_inv_def)
  ultimately show ?thesis
    using inv by (simp add: bridge_inv_def)
qed

lemma bridge_inv_insert_ton:
  assumes inv: "bridge_inv abi s" and new: "\<not> hm_contains account (br_ton_configurations s)"
    and code: "hm_get (br_event_code_hashes s) (ton_code_hash abi c) = Some Ton"
  shows "bridge_inv abi (subscribe_observer account n (s\<lparr>
    br_total_active_ton := br_total_active_ton s + 1,
    br_ton_configurations := hm_insert account c (br_ton_configurations s)\<rparr>))"
proof -
  have "length (hm_insert account c (br_ton_configurations s)) = Suc (length (br_ton_configurations s))"
    using new by (simp add: hm_insert_length)
  moreover have "hm_get (br_event_code_hashes s) (ton_code_hash abi (snd x)) = Some Ton"
    if "x \<in> set (hm_insert account c (br_ton_configurations s))" for x
    using hm_insert_elem [OF that] inv code by (auto simp: bridge_inv_def)
  ultimately show ?thesis
    using inv by (simp add: bridge_inv_def)
qed

lemma bridge_inv_add_eth:
  assumes inv: "bridge_inv abi s"
    and add: "add_eth_event_configuration ton abi has account contract s = (r, s')"
  shows "bridge_inv abi s'"
proof (cases "s' = s")
  case False
  obtain details where details: "eth_configuration_get_details ton contract = Inr details"
    using add False by (cases "eth_configuration_get_details ton contract")
      (auto simp: add_eth_event_configuration_def)
  obtain event_abi where event_abi:
    "eth_event_abi_new abi (bc_event_abi (ecd_basic_configuration details)) = Inr event_abi"
    using add False details
    by (cases "eth_event_abi_new abi (bc_event_abi (ecd_basic_configuration details))")
      (auto simp: add_eth_event_configuration_def)
  let ?code = "code_hash_of abi (bc_event_code (ecd_basic_configuration details))"
  obtain cr hashes where cr: "add_event_code_hash ?code Eth (br_event_code_hashes s) = (cr, hashes)"
    by (cases "add_event_code_hash ?code Eth (br_event_code_hashes s)")
  show ?thesis
  proof (cases cr)
    case (Inl e)
    then show ?thesis
      using add inv cr add_event_code_hash_Inl [of ?code Eth "br_event_code_hashes s" e hashes]
      by (auto simp: add_eth_event_configuration_def details event_abi Let_def split: if_splits)
  next
    case (Inr u)
    have code: "hm_get hashes ?code = Some Eth"
      and mono: "\<And>k v. hm_get (br_event_code_hashes s) k = Some v \<Longrightarrow> hm_get hashes k = Some v"
      using add_event_code_hash_Inr [OF cr [unfolded Inr]] by auto
    let ?s1 = "s\<lparr>br_event_code_hashes := hashes, br_next_observer := br_next_observer s + 1\<rparr>"
    have inv1: "bridge_inv abi ?s1" by (rule bridge_inv_hashes [OF inv mono])
    let ?c = "\<lparr>ecs_details = details, ecs_event_abi = event_abi, ecs_observer = br_next_observer s\<rparr>"
    have "hm_get (br_event_code_hashes ?s1) (eth_code_hash abi ?c) = Some Eth"
      using code by (simp add: eth_code_hash_def)
    note insert = bridge_inv_insert_eth [OF inv1 _ this]
    show ?thesis
      using add False inv1 insert [of account]
      by (auto simp: add_eth_event_configuration_def details event_abi Let_def cr Inr split: if_splits)
  qed
qed (use inv in simp)

lemma bridge_inv_add_ton:
  assumes inv: "bridge_inv abi s"
    and add: "add_ton_event_configuration ton abi now account contract s = (r, s')"
  shows "bridge_inv abi s'"
proof (cases "s' = s")
  case False
  obtain details where details: "ton_configuration_get_details ton contract = Inr details"
    using add False by (cases "ton_configuration_get_details ton contract")
      (auto simp: add_ton_event_configuration_def)
  obtain event_abi where event_abi:
    "decode_ton_event_abi abi (bc_event_abi (tcd_basic_configuration details)) = Inr event_abi"
    using add False details
    by (cases "decode_ton_event_abi abi (bc_event_abi (tcd_basic_configuration details))")
      (auto simp: add_ton_event_configuration_def split: if_splits)
  let ?code = "code_hash_of abi (bc_event_code (tcd_basic_configuration details))"
  obtain cr hashes where cr: "add_event_code_hash ?code Ton (br_event_code_hashes s) = (cr, hashes)"
    by (cases "add_event_code_hash ?code Ton (br_event_code_hashes s)")
  show ?thesis
  proof (cases cr)
    case (Inl e)
    then show ?thesis
      using add inv cr add_event_code_hash_Inl [of ?code Ton "br_event_code_hashes s" e hashes]
      by (auto simp: add_ton_event_configuration_def details event_abi Let_def split: if_splits)
  next
    case (Inr u)
    have code: "hm_get hashes ?code = Some Ton"
      and mono: "\<And>k v. hm_get (br_event_code_hashes s) k = Some v \<Longrightarrow> hm_get hashes k = Some v"
      using add_event_code_hash_Inr [OF cr [unfolded Inr]] by auto
    let ?s1 = "s\<lparr>br_event_code_hashes := hashes, br_next_observer := br_next_observer s + 1\<rparr>"
    have inv1: "bridge_inv abi ?s1" by (rule bridge_inv_hashes [OF inv mono])
    let ?c = "\<lparr>tcs_details = details, tcs_event_abi = event_abi, tcs_observer = br_next_observer s\<rparr>"
    have "hm_get (br_event_code_hashes ?s1) (ton_code_hash abi ?c) = Some Ton"
      using code by (simp add: ton_code_hash_def)
    note insert = bridge_inv_insert_ton [OF inv1 _ this]
    show ?thesis
      using add False inv1 insert [of account]
      by (auto simp: add_ton_event_configuration_def details event_abi Let_def cr Inr split: if_splits)
  qed
qed (use inv in simp)

lemma bridge_inv_process_event_configuration:
  assumes "bridge_inv abi s"
  shows "bridge_inv abi (snd (process_event_configuration ton abi has now connector account contract s))"
proof -
  obtain re se where eth: "add_eth_event_configuration ton abi has account contract s = (re, se)"
    by (cases "add_eth_event_configuration ton abi has account contract s")
  obtain rt st where ton: "add_ton_event_configuration ton abi now account contract s = (rt, st)"
    by (cases "add_ton_event_configuration ton abi now account contract s")
  show ?thesis
    using assms bridge_inv_add_eth [OF assms eth] bridge_inv_add_ton [OF assms ton]
    by (simp add: process_event_configuration_def eth ton
        split: sum.splits event_type.splits)
qed

lemma bridge_inv_load_connector:
  assumes "bridge_inv abi s"
  shows "bridge_inv abi (snd (load_connector ton abi has now find_acc bridge i s))"
proof -
  have "bridge_inv abi (subscribe_observer c n (s\<lparr>br_next_observer := m, br_connectors := cs\<rparr>))"
    for c n m cs
    by (rule bridge_inv_cong [OF assms]) simp_all
  note this [simp] bridge_inv_process_event_configuration [OF this, simp]
  show ?thesis
    using assms by (auto simp: load_connector_def Let_def split: sum.splits option.splits)
qed

lemma bridge_inv_load_connectors:
  "bridge_inv abi s \<Longrightarrow> bridge_inv abi (snd (load_connectors ton abi has now find_acc bridge ids s))"
proof (induction ids arbitrary: s)
  case (Cons i ids)
  then show ?case
    using bridge_inv_load_connector [OF Cons.prems, of ton has now find_acc bridge i]
    by (auto split: prod.splits sum.splits)
qed simp

lemma bridge_inv_get_all:
  "bridge_inv abi s \<Longrightarrow> bridge_inv abi (snd (get_all_configurations ton abi has now shards bridge s))"
  by (simp add: get_all_configurations_def bridge_inv_load_connectors
      split: sum.splits option.splits)

lemma bridge_inv_process_bridge_event:
  "bridge_inv abi s \<Longrightarrow> bridge_inv abi (snd (process_bridge_event ev s))"
  by (auto simp: process_bridge_event_def Let_def split: bridge_event.splits
      elim: bridge_inv_cong)

lemma bridge_inv_check_connector:
  "bridge_inv abi s \<Longrightarrow> bridge_inv abi (snd (check_connector_contract ton abi has now wait connector s))"
  by (simp add: check_connector_contract_def bridge_inv_process_event_configuration
      split: sum.splits)

text \<open>Replacing a configuration by one with the same code keeps the invariant.\<close>

lemma bridge_inv_replace_ton:
  assumes inv: "bridge_inv abi s" and get: "hm_get (br_ton_configurations s) account = Some c"
    and same: "ton_code_hash abi c' = ton_code_hash abi c"
  shows "bridge_inv abi (s\<lparr>br_ton_configurations := hm_insert account c' (br_ton_configurations s)\<rparr>)"
proof -
  have "hm_contains account (br_ton_configurations s)" using get by (simp add: hm_contains_def)
  then have len: "length (hm_insert account c' (br_ton_configurations s)) =
      length (br_ton_configurations s)"
    by (simp add: hm_insert_length)
  have "hm_get (br_event_code_hashes s) (ton_code_hash abi (snd x)) = Some Ton"
    if "x \<in> set (hm_insert account c' (br_ton_configurations s))" for x
    using hm_insert_elem [OF that] inv hm_get_in_set [OF get] same by (auto simp: bridge_inv_def)
  with inv len show ?thesis by (simp add: bridge_inv_def)
qed

lemma bridge_inv_replace_eth:
  assumes inv: "bridge_inv abi s" and get: "hm_get (br_eth_configurations s) account = Some c"
    and same: "eth_code_hash abi c' = eth_code_hash abi c"
  shows "bridge_inv abi (s\<lparr>br_eth_configurations := hm_insert account c' (br_eth_configurations s)\<rparr>)"
proof -
  have "hm_contains account (br_eth_configurations s)" using get by (simp add: hm_contains_def)
  then have len: "length (hm_insert account c' (br_eth_configurations s)) =
      length (br_eth_configurations s)"
    by (simp add: hm_insert_length)
  have "hm_get (br_event_code_hashes s) (eth_code_hash abi (snd x)) = Some Eth"
    if "x \<in> set (hm_insert account c' (br_eth_configurations s))" for x
    using hm_insert_elem [OF that] inv hm_get_in_set [OF get] same by (auto simp: bridge_inv_def)
  with inv len show ?thesis by (simp add: bridge_inv_def)
qed

lemma bridge_inv_set_timestamp:
  "bridge_inv abi s \<Longrightarrow> bridge_inv abi (snd (set_ton_end_timestamp account t s))"
  by (auto simp: set_ton_end_timestamp_def ton_code_hash_def split: option.splits
      intro: bridge_inv_replace_ton)

lemma bridge_inv_set_block_number:
  "bridge_inv abi s \<Longrightarrow> bridge_inv abi (snd (set_eth_end_block_number account t s))"
  by (auto simp: set_eth_end_block_number_def eth_code_hash_def split: option.splits
      intro: bridge_inv_replace_eth)

lemma hm_retain_elem: "x \<in> set (hm_retain P m) \<Longrightarrow> x \<in> set m"
  by (auto simp: hm_retain_def)

lemma hm_retain_length: "length (hm_retain P m) \<le> length m"
  by (simp add: hm_retain_def)

lemma bridge_inv_gc:
  assumes "bridge_inv abi s"
  shows "bridge_inv abi (gc_turn now shards s)"
proof -
  have "of_nat (length m) - of_nat (length m - length (hm_retain P m)) =
      (of_nat (length (hm_retain P m)) :: usize)" for P and m :: "('k \<times> 'v) list"
    using hm_retain_length [of P m] by (simp add: of_nat_diff)
  then show ?thesis
    using assms
    by (auto simp: gc_turn_def Let_def bridge_inv_def split: sum.splits dest!: hm_retain_elem)
qed

section \<open>The system\<close>

text \<open>Every change of the configurations: the startup, the handlers of the observers, the spawned
  connector checks and the collector, in any order and with any answers of the environment.\<close>

inductive bridge_step ::
  "('acc, 'tok, 'cell) ton_lib \<Rightarrow> ('abi, 'tabi, 'cell) bridge_abi_lib \<Rightarrow>
   ('abi, 'tabi, 'cell) bridge_state \<Rightarrow> ('abi, 'tabi, 'cell) bridge_state \<Rightarrow> bool" for ton abi where
  Load: "get_all_configurations ton abi has_subscriber now shards bridge s = (r, s') \<Longrightarrow>
    bridge_step ton abi s s'"
| Bridge_event: "process_bridge_event event s = (spawn, s') \<Longrightarrow> bridge_step ton abi s s'"
| Check_connector: "check_connector_contract ton abi has_subscriber now wait connector s = (r, s') \<Longrightarrow>
    bridge_step ton abi s s'"
| Set_timestamp: "set_ton_end_timestamp account t s = (r, s') \<Longrightarrow> bridge_step ton abi s s'"
| Set_block_number: "set_eth_end_block_number account n s = (r, s') \<Longrightarrow> bridge_step ton abi s s'"
| Gc: "bridge_step ton abi s (gc_turn now shards_time s)"

inductive bridge_reachable ::
  "('acc, 'tok, 'cell) ton_lib \<Rightarrow> ('abi, 'tabi, 'cell) bridge_abi_lib \<Rightarrow>
   ('abi, 'tabi, 'cell) bridge_state \<Rightarrow> bool" for ton abi where
  Start: "bridge_reachable ton abi bridge_state_default"
| Step: "bridge_reachable ton abi s \<Longrightarrow> bridge_step ton abi s s' \<Longrightarrow> bridge_reachable ton abi s'"

lemma bridge_inv_step:
  assumes "bridge_step ton abi s s'" "bridge_inv abi s"
  shows "bridge_inv abi s'"
  using assms
proof cases
  case (Load has now shards bridge r)
  then show ?thesis using bridge_inv_get_all [OF assms(2)] by (metis snd_conv)
next
  case (Bridge_event event spawn)
  then show ?thesis using bridge_inv_process_bridge_event [OF assms(2)] by (metis snd_conv)
next
  case (Check_connector has now wait connector r)
  then show ?thesis using bridge_inv_check_connector [OF assms(2)] by (metis snd_conv)
next
  case (Set_timestamp account t r)
  then show ?thesis using bridge_inv_set_timestamp [OF assms(2)] by (metis snd_conv)
next
  case (Set_block_number account n r)
  then show ?thesis using bridge_inv_set_block_number [OF assms(2)] by (metis snd_conv)
next
  case (Gc now shards_time)
  then show ?thesis using bridge_inv_gc [OF assms(2)] by simp
qed

lemma bridge_reachable_inv: "bridge_reachable ton abi s \<Longrightarrow> bridge_inv abi s"
  by (induction rule: bridge_reachable.induct) (auto intro: bridge_inv_default bridge_inv_step)

section \<open>Properties\<close>

text \<open>In every reachable state the counters of active configurations that the relay exports are the
  sizes of the two configuration maps.\<close>

theorem active_configuration_counts:
  assumes "bridge_reachable ton abi s"
  shows "total_active_eth_event_configurations (bridge_metrics eth_count ton_count s) =
      of_nat (length (br_eth_configurations s)) \<and>
    total_active_ton_event_configurations (bridge_metrics eth_count ton_count s) =
      of_nat (length (br_ton_configurations s))"
  using bridge_reachable_inv [OF assms] by (simp add: bridge_inv_def bridge_metrics_def)

text \<open>C14: The code of an event contract has one kind: in every reachable state the startup scan recognises
  the event code of each active ETH configuration as ETH and of each active TON configuration as TON,
  whatever other configurations there are; so no ETH and TON configuration share the hash of their
  event code.\<close>

theorem event_code_kinds_separate:
  assumes "bridge_reachable ton abi s"
  shows "(\<forall>a ec. hm_get (br_eth_configurations s) a = Some ec \<longrightarrow>
      hm_get (br_event_code_hashes s)
        (code_hash_of abi (bc_event_code (ecd_basic_configuration (ecs_details ec)))) = Some Eth) \<and>
    (\<forall>b tc. hm_get (br_ton_configurations s) b = Some tc \<longrightarrow>
      hm_get (br_event_code_hashes s)
        (code_hash_of abi (bc_event_code (tcd_basic_configuration (tcs_details tc)))) = Some Ton) \<and>
    (\<forall>a b ec tc. hm_get (br_eth_configurations s) a = Some ec \<longrightarrow>
      hm_get (br_ton_configurations s) b = Some tc \<longrightarrow>
      code_hash_of abi (bc_event_code (ecd_basic_configuration (ecs_details ec))) \<noteq>
      code_hash_of abi (bc_event_code (tcd_basic_configuration (tcs_details tc))))"
proof -
  note inv = bridge_reachable_inv [OF assms]
  have eth: "hm_get (br_event_code_hashes s)
      (code_hash_of abi (bc_event_code (ecd_basic_configuration (ecs_details ec)))) = Some Eth"
    if "hm_get (br_eth_configurations s) a = Some ec" for a ec
    using inv hm_get_in_set [OF that] by (force simp: bridge_inv_def eth_code_hash_def)
  have ton: "hm_get (br_event_code_hashes s)
      (code_hash_of abi (bc_event_code (tcd_basic_configuration (tcs_details tc)))) = Some Ton"
    if "hm_get (br_ton_configurations s) b = Some tc" for b tc
    using inv hm_get_in_set [OF that] by (force simp: bridge_inv_def ton_code_hash_def)
  show ?thesis using eth ton by (intro conjI allI impI) (blast, blast, force)
qed

text \<open>A turn of the collector removes exactly the TON configurations whose end timestamp is set and
  lies before the time of the masterchain block it waited for, and only when one was already
  expired at the last known time; a failed wait removes nothing.\<close>

theorem gc_removes_expired:
  assumes "bridge_reachable ton abi s"
  shows "hm_get (br_ton_configurations (gc_turn now shards s)) account =
    (case hm_get (br_ton_configurations s) account of
       None \<Rightarrow> None
     | Some c \<Rightarrow>
         (case shards of
            Inl e \<Rightarrow> Some c
          | Inr later \<Rightarrow>
              if (\<exists>a c'. hm_get (br_ton_configurations s) a = Some c' \<and>
                    1 \<le> tec_end_timestamp (tcd_network_configuration (tcs_details c')) \<and>
                    tec_end_timestamp (tcd_network_configuration (tcs_details c')) < now) \<and>
                 1 \<le> tec_end_timestamp (tcd_network_configuration (tcs_details c)) \<and>
                 tec_end_timestamp (tcd_network_configuration (tcs_details c)) < later
              then None else Some c))"
proof -
  have wf: "hm_wf (br_ton_configurations s)"
    using bridge_reachable_inv [OF assms] by (simp add: bridge_inv_def)
  have expired: "has_expired_ton_event_configurations now s \<longleftrightarrow>
      (\<exists>a c'. hm_get (br_ton_configurations s) a = Some c' \<and>
         1 \<le> tec_end_timestamp (tcd_network_configuration (tcs_details c')) \<and>
         tec_end_timestamp (tcd_network_configuration (tcs_details c')) < now)"
    by (auto simp: has_expired_ton_event_configurations_def list_ex_iff
        ton_configuration_is_expired_def dest: map_of_is_SomeI [OF wf] hm_get_in_set)
  show ?thesis
    unfolding gc_turn_def expired [symmetric]
    by (simp add: Let_def hm_get_retain [OF wf] ton_configuration_is_expired_def
        split: option.splits sum.splits)
qed

section \<open>Witnesses\<close>

definition example_abi :: "(unit, unit, uint256) bridge_abi_lib" where
  "example_abi = \<lparr>eth_event_abi_new = \<lambda>_. Inr (), eth_event_topic = \<lambda>_. 2,
     decode_ton_event_abi = \<lambda>_. Inr (), code_hash_of = \<lambda>c. c\<rparr>"

definition example_find :: "uint256 \<Rightarrow> nat existing_contract option result" where
  "example_find a = Inr (Some (example_contract (unat a)))"

definition example_loaded :: "(unit, unit, uint256) bridge_state" where
  "example_loaded =
     snd (get_all_configurations example_ton_lib example_abi (\<lambda>_. True) 10 (Inr example_find) 1
       bridge_state_default)"

lemma example_loaded_reachable: "bridge_reachable example_ton_lib example_abi example_loaded"
  unfolding example_loaded_def
  by (rule bridge_reachable.Step [OF bridge_reachable.Start bridge_step.Load]) (rule surjective_pairing)

lemma example_loaded_maps:
  "br_eth_configurations example_loaded =
     [(20, \<lparr>ecs_details = example_eth_configuration, ecs_event_abi = (), ecs_observer = 1\<rparr>)]"
  "br_ton_configurations example_loaded =
     [(21, \<lparr>tcs_details = example_ton_configuration, tcs_event_abi = (), tcs_observer = 3\<rparr>)]"
  by (simp_all add: example_loaded_def get_all_configurations_def getter_defs example_find_def
      bridge_state_default_def load_connector_def Let_def subscribe_observer_def
      process_event_configuration_def add_eth_event_configuration_def
      add_ton_event_configuration_def add_event_code_hash_def example_abi_def hm_contains_def
      example_eth_configuration_def example_ton_configuration_def ton_configuration_is_expired_def
      upt_rec)

theorem active_configuration_counts_witness:
  "total_active_ton_event_configurations (bridge_metrics 0 0 example_loaded) = 1"
  using active_configuration_counts [OF example_loaded_reachable] by (simp add: example_loaded_maps)

theorem event_code_kinds_separate_witness:
  "hm_get (br_event_code_hashes example_loaded) 100 = Some Eth \<and>
   hm_get (br_event_code_hashes example_loaded) 200 = Some Ton"
proof -
  have "hm_get (br_eth_configurations example_loaded) 20 =
      Some \<lparr>ecs_details = example_eth_configuration, ecs_event_abi = (), ecs_observer = 1\<rparr>"
    "hm_get (br_ton_configurations example_loaded) 21 =
      Some \<lparr>tcs_details = example_ton_configuration, tcs_event_abi = (), tcs_observer = 3\<rparr>"
    by (simp_all add: example_loaded_maps)
  then show ?thesis
    using event_code_kinds_separate [OF example_loaded_reachable]
    by (force simp: example_abi_def example_eth_configuration_def example_ton_configuration_def)
qed

theorem gc_removes_expired_witness:
  "hm_get (br_ton_configurations (gc_turn 60 (Inr 61) example_loaded)) 21 = None \<and>
   hm_get (br_ton_configurations (gc_turn 60 (Inl InvalidAbi) example_loaded)) 21 \<noteq> None"
  using gc_removes_expired [OF example_loaded_reachable, of 60 "Inr 61" 21]
    gc_removes_expired [OF example_loaded_reachable, of 60 "Inl InvalidAbi" 21]
  by (simp add: example_loaded_maps) (simp add: example_ton_configuration_def)

end
