(* ===== verification/Message_Queue.thy ===== *)
theory Message_Queue
  imports Shard_Utils Channels
begin

text \<open>
  \<open>utils/pending_messages_queue.rs\<close>: external messages that wait for delivery. Each pending
  message has a oneshot channel; its receiver gets one \<open>MessageStatus\<close>. A channel is a number
  (\<open>next_channel\<close> counts the channels made so far), and \<open>sent\<close> lists the statuses sent.
  \<open>min_expire_at\<close> and \<open>entry_count\<close> are the atomics beside the locked map.

  The invariant \<open>queue_inv\<close> says that the atomics agree with the map and that no channel is
  answered twice; \<open>queue_abs\<close> maps the queue to its contract (pending messages and answers), and
  the operations refine the operations of the contract. The relation \<open>queue_step\<close> interleaves
  threads; \<open>update\<close> reads the minimum before it takes the lock.
\<close>

datatype message_status = Delivered | Expired

record pending_message_id =
  pm_account :: uint256
  pm_message_hash :: uint256

record pending_message =
  pm_tx :: "nat option"
  pm_expire_at :: u32

record pending_messages_queue =
  min_expire_at :: u32
  entries :: "(pending_message_id, pending_message) hmap"
  entry_count :: usize
  next_channel :: nat
  sent :: "(nat \<times> message_status) list"

definition queue_new :: pending_messages_queue where
  "queue_new = \<lparr>min_expire_at = u32_MAX, entries = [], entry_count = 0,
     next_channel = 0, sent = []\<rparr>"

definition queue_len :: "pending_messages_queue \<Rightarrow> usize" where
  "queue_len q = entry_count q"

definition add_message ::
  "uint256 \<Rightarrow> uint256 \<Rightarrow> u32 \<Rightarrow> pending_messages_queue \<Rightarrow> nat result \<times> pending_messages_queue" where
  "add_message account message_hash expire_at q =
     (let mid = \<lparr>pm_account = account, pm_message_hash = message_hash\<rparr>
      in case hm_get (entries q) mid of
           None \<Rightarrow>
             (let rx = next_channel q
              in (Inr rx,
                  q\<lparr>entries := hm_insert mid \<lparr>pm_tx = Some rx, pm_expire_at = expire_at\<rparr> (entries q),
                    next_channel := Suc rx,
                    min_expire_at := min (min_expire_at q) expire_at,
                    entry_count := entry_count q + 1\<rparr>))
         | Some _ \<Rightarrow> (Inl (QueueErr AlreadyExists), q))"

text \<open>\<open>if let Some(tx) = message.tx.take() { tx.send(status).ok(); }\<close>\<close>

definition send_status :: "pending_message \<Rightarrow> message_status \<Rightarrow> (nat \<times> message_status) list" where
  "send_status message status = (case pm_tx message of Some tx \<Rightarrow> [(tx, status)] | None \<Rightarrow> [])"

definition entries_min :: "(pending_message_id, pending_message) hmap \<Rightarrow> u32" where
  "entries_min es =
     foldl (\<lambda>m (_, item). if pm_expire_at item < m then pm_expire_at item else m) u32_MAX es"

definition deliver_message ::
  "uint256 \<Rightarrow> uint256 \<Rightarrow> pending_messages_queue \<Rightarrow> pending_messages_queue" where
  "deliver_message account message_hash q =
     (let mid = \<lparr>pm_account = account, pm_message_hash = message_hash\<rparr>
      in case hm_get (entries q) mid of
           None \<Rightarrow> q
         | Some message \<Rightarrow>
             (let q1 = q\<lparr>entries := hm_remove mid (entries q),
                         entry_count := entry_count q - 1,
                         sent := sent q @ send_status message Delivered\<rparr>
              in if min_expire_at q \<noteq> pm_expire_at message then q1
                 else q1\<lparr>min_expire_at := entries_min (entries q1)\<rparr>))"

text \<open>The closure of \<open>retain\<close> in \<open>update\<close>, run over the entries: the new minimum, the entries
  kept, the statuses sent.\<close>

fun retain_unexpired ::
  "(uint256 \<Rightarrow> bool) \<Rightarrow> u32 \<Rightarrow> u32 \<Rightarrow> (pending_message_id, pending_message) hmap \<Rightarrow>
   u32 \<times> (pending_message_id, pending_message) hmap \<times> (nat \<times> message_status) list" where
  "retain_unexpired in_shard current_utime m [] = (m, [], [])"
| "retain_unexpired in_shard current_utime m ((mid, item) # es) =
     (if current_utime \<le> pm_expire_at item \<or> \<not> in_shard (pm_account mid)
      then (let m' = (if pm_expire_at item < m then pm_expire_at item else m);
                (m'', kept, out) = retain_unexpired in_shard current_utime m' es
            in (m'', (mid, item) # kept, out))
      else (let (m', kept, out) = retain_unexpired in_shard current_utime m es
            in (m', kept, send_status item Expired @ out)))"

text \<open>The part of \<open>update\<close> under the lock, and \<open>update\<close> with its check before the lock.\<close>

definition queue_update_locked ::
  "u64 \<Rightarrow> shard_ident \<Rightarrow> u32 \<Rightarrow> pending_messages_queue \<Rightarrow> pending_messages_queue" where
  "queue_update_locked SHARD_FULL shard current_utime q =
     (let (m, kept, out) =
            retain_unexpired (contains_account SHARD_FULL shard) current_utime u32_MAX (entries q)
      in q\<lparr>entries := kept, sent := sent q @ out, min_expire_at := m,
           entry_count := of_nat (length kept)\<rparr>)"

definition queue_update ::
  "u64 \<Rightarrow> shard_ident \<Rightarrow> u32 \<Rightarrow> pending_messages_queue \<Rightarrow> pending_messages_queue" where
  "queue_update SHARD_FULL shard current_utime q =
     (if current_utime \<le> min_expire_at q then q
      else queue_update_locked SHARD_FULL shard current_utime q)"

section \<open>The unit tests of the source\<close>

lemma test_normal_message_flow:
  "let (rx, q1) = add_message 0 0 10 queue_new; q2 = deliver_message 0 0 q1
   in rx = Inr 0 \<and> add_message 0 0 20 q1 = (Inl (QueueErr AlreadyExists), q1) \<and>
      min_expire_at q1 = 10 \<and> min_expire_at q2 = u32_MAX \<and> sent q2 = [(0, Delivered)]"
  by (simp add: add_message_def deliver_message_def queue_new_def entries_min_def send_status_def)

lemma test_expired_message_flow:
  "let (rx, q1) = add_message 0 0 10 queue_new;
       masterchain = \<lparr>workchain_id = - 1, shard_prefix_with_tag = 0x8000000000000000, prefix_len = 0\<rparr>;
       q2 = queue_update 0x8000000000000000 masterchain 5 q1;
       q3 = queue_update 0x8000000000000000 masterchain 15 q2
   in min_expire_at q2 = 10 \<and> min_expire_at q3 = u32_MAX \<and> sent q3 = [(0, Expired)]"
  by (simp add: add_message_def queue_new_def queue_update_def queue_update_locked_def send_status_def
      contains_account_def)

section \<open>The minimum of the expiration times\<close>

definition is_entries_min :: "u32 \<Rightarrow> (pending_message_id, pending_message) hmap \<Rightarrow> bool" where
  "is_entries_min m es \<longleftrightarrow>
     (\<forall>(_, item) \<in> set es. m \<le> pm_expire_at item) \<and>
     (m = u32_MAX \<or> (\<exists>(_, item) \<in> set es. m = pm_expire_at item))"

lemma is_entries_min_le:
  assumes "is_entries_min m es" "is_entries_min m' es"
  shows "m \<le> m'"
proof (cases "m' = u32_MAX")
  case True
  then show ?thesis by simp
next
  case False
  then obtain x where "x \<in> set es" "m' = pm_expire_at (snd x)"
    using assms(2) by (auto simp: is_entries_min_def)
  then show ?thesis using assms(1) by (auto simp: is_entries_min_def)
qed

lemma is_entries_min_unique: "is_entries_min m es \<Longrightarrow> is_entries_min m' es \<Longrightarrow> m = m'"
  by (simp add: antisym is_entries_min_le)

lemma foldl_min_append:
  "foldl (\<lambda>m (_, item). if pm_expire_at item < m then pm_expire_at item else m) m (es @ [x]) =
   min (foldl (\<lambda>m (_, item). if pm_expire_at item < m then pm_expire_at item else m) m es)
     (pm_expire_at (snd x))"
  by (auto simp: case_prod_unfold min_def)

lemma entries_min_append: "entries_min (es @ [x]) = min (entries_min es) (pm_expire_at (snd x))"
  unfolding entries_min_def by (rule foldl_min_append)

lemma entries_min_is_min: "is_entries_min (entries_min es) es"
proof (induction es rule: rev_induct)
  case Nil
  then show ?case by (simp add: entries_min_def is_entries_min_def)
next
  case (snoc x es)
  then show ?case
    by (cases x) (fastforce simp: entries_min_append is_entries_min_def min_def)
qed

lemma entries_min_eqI: "is_entries_min m es \<Longrightarrow> entries_min es = m"
  using entries_min_is_min is_entries_min_unique by blast

lemma entries_min_le: "(mid, item) \<in> set es \<Longrightarrow> entries_min es \<le> pm_expire_at item"
  using entries_min_is_min [of es] by (auto simp: is_entries_min_def)

lemma entries_min_remove_other:
  assumes "hm_wf es" "hm_get es mid = Some item" "entries_min es \<noteq> pm_expire_at item"
  shows "entries_min (hm_remove mid es) = entries_min es"
proof (rule entries_min_eqI)
  have "set (hm_remove mid es) = set es - {(mid, item)}"
    using assms(1,2) by (rule hm_remove_set)
  then show "is_entries_min (entries_min es) (hm_remove mid es)"
    using entries_min_is_min [of es] assms(3) by (auto simp: is_entries_min_def)
qed

text \<open>The closure of \<open>retain\<close> in closed form.\<close>

definition keeps :: "(uint256 \<Rightarrow> bool) \<Rightarrow> u32 \<Rightarrow> pending_message_id \<times> pending_message \<Rightarrow> bool" where
  "keeps in_shard current_utime e \<longleftrightarrow>
     current_utime \<le> pm_expire_at (snd e) \<or> \<not> in_shard (pm_account (fst e))"

lemma retain_unexpired_closed:
  "retain_unexpired in_shard t m es =
     (foldl (\<lambda>m (_, item). if pm_expire_at item < m then pm_expire_at item else m) m
        (filter (keeps in_shard t) es),
      filter (keeps in_shard t) es,
      concat (map (\<lambda>(_, item). send_status item Expired) (filter (Not \<circ> keeps in_shard t) es)))"
proof (induction es arbitrary: m)
  case (Cons x es)
  then show ?case by (cases x) (simp add: keeps_def)
qed simp

lemma queue_update_locked_closed:
  "queue_update_locked f shard t q =
     (let P = keeps (contains_account f shard) t; kept = filter P (entries q)
      in q\<lparr>entries := kept,
           sent := sent q @
             concat (map (\<lambda>(_, item). send_status item Expired) (filter (Not \<circ> P) (entries q))),
           min_expire_at := entries_min kept, entry_count := of_nat (length kept)\<rparr>)"
  by (simp add: queue_update_locked_def retain_unexpired_closed entries_min_def Let_def)

section \<open>The invariant\<close>

definition open_channels :: "(pending_message_id, pending_message) hmap \<Rightarrow> nat list" where
  "open_channels es = map (\<lambda>(_, item). the (pm_tx item)) es"

definition queue_inv :: "pending_messages_queue \<Rightarrow> bool" where
  "queue_inv q \<longleftrightarrow>
     hm_wf (entries q) \<and>
     min_expire_at q = entries_min (entries q) \<and>
     entry_count q = of_nat (length (entries q)) \<and>
     (\<forall>(_, item) \<in> set (entries q). pm_tx item \<noteq> None) \<and>
     mset (open_channels (entries q)) + mset (map fst (sent q)) = mset_set {0..<next_channel q}"

lemma queue_invD:
  assumes "queue_inv q"
  shows "hm_wf (entries q)" "min_expire_at q = entries_min (entries q)"
    "entry_count q = of_nat (length (entries q))"
    "(mid, item) \<in> set (entries q) \<Longrightarrow> pm_tx item \<noteq> None"
    "mset (open_channels (entries q)) + mset (map fst (sent q)) = mset_set {0..<next_channel q}"
  using assms by (auto simp: queue_inv_def)

lemma queue_inv_new: "queue_inv queue_new"
  by (simp add: queue_inv_def queue_new_def entries_min_def open_channels_def)

lemma queue_inv_add: "queue_inv q \<Longrightarrow> queue_inv (snd (add_message a h e q))"
  by (auto simp: add_message_def queue_inv_def hm_insert_new entries_min_append open_channels_def
      Let_def map_of_eq_None_iff atLeast0_lessThan_Suc split: option.splits)

lemma queue_inv_deliver:
  assumes "queue_inv q"
  shows "queue_inv (deliver_message a h q)"
proof (cases "hm_get (entries q) \<lparr>pm_account = a, pm_message_hash = h\<rparr>")
  case None
  then show ?thesis using assms by (simp add: deliver_message_def)
next
  case (Some item)
  let ?k = "\<lparr>pm_account = a, pm_message_hash = h\<rparr>"
  note inv = queue_invD [OF assms]
  note split = hm_remove_mset [OF inv(1) Some]
  obtain c where tx: "pm_tx item = Some c"
    using inv(4) map_of_SomeD [OF Some] by blast
  have chans: "mset (open_channels (entries q)) =
      add_mset c (mset (open_channels (hm_remove ?k (entries q))))"
    using arg_cong [OF split, of "image_mset (\<lambda>(_, item). the (pm_tx item))"]
    by (simp add: open_channels_def tx)
  have len: "length (entries q) = Suc (length (hm_remove ?k (entries q)))"
    using arg_cong [OF split, of size] by simp
  have sub: "set (hm_remove ?k (entries q)) \<subseteq> set (entries q)"
    by (auto simp: hm_remove_filter)
  show ?thesis
    using inv(1-3,5) assms Some tx chans len sub entries_min_remove_other [OF inv(1) Some]
    by (auto simp: queue_inv_def deliver_message_def send_status_def Let_def split: option.splits)
qed

lemma mset_map_filter_split:
  "mset (map f (filter P xs)) + mset (map f (filter (Not \<circ> P) xs)) = mset (map f xs)"
  by (induction xs) auto

lemma expired_statuses:
  assumes "\<forall>(_, item) \<in> set es. pm_tx item \<noteq> None"
  shows "concat (map (\<lambda>(_, item). send_status item Expired) es) =
    map (\<lambda>c. (c, Expired)) (open_channels es)"
  using assms by (induction es) (auto simp: open_channels_def send_status_def)

lemma queue_inv_update_locked:
  assumes "queue_inv q"
  shows "queue_inv (queue_update_locked f shard t q)"
proof -
  let ?P = "keeps (contains_account f shard) t"
  note inv = queue_invD [OF assms]
  have some: "\<forall>(_, item) \<in> set (entries q). pm_tx item \<noteq> None"
    using assms by (simp add: queue_inv_def)
  have out: "concat (map (\<lambda>(_, item). send_status item Expired) (filter (Not \<circ> ?P) (entries q))) =
      map (\<lambda>c. (c, Expired)) (open_channels (filter (Not \<circ> ?P) (entries q)))"
    using some by (intro expired_statuses) auto
  have "mset (open_channels (filter ?P (entries q))) +
      mset (open_channels (filter (Not \<circ> ?P) (entries q))) = mset (open_channels (entries q))"
    unfolding open_channels_def by (rule mset_map_filter_split)
  then have "mset (open_channels (filter ?P (entries q))) + (mset (map fst (sent q)) +
      mset (open_channels (filter (Not \<circ> ?P) (entries q)))) = mset_set {0..<next_channel q}"
    using inv(5) by (simp add: ac_simps)
  then show ?thesis
    using inv(1) some
    by (simp add: queue_inv_def queue_update_locked_closed Let_def comp_def distinct_map_filter
        out [unfolded comp_def]
        ac_simps)
qed

text \<open>The check before the lock never changes the result.\<close>

lemma queue_update_locked_idle:
  assumes "queue_inv q" "t \<le> min_expire_at q"
  shows "queue_update_locked f shard t q = q"
proof -
  note inv = queue_invD [OF assms(1)]
  have "keeps (contains_account f shard) t x" if "x \<in> set (entries q)" for x
    using entries_min_le [of "fst x" "snd x" "entries q"] that assms(2) inv(2)
    by (auto simp: keeps_def intro: order_trans)
  then have "filter (keeps (contains_account f shard) t) (entries q) = entries q"
    and "filter (Not \<circ> keeps (contains_account f shard) t) (entries q) = []"
    by (auto simp: filter_empty_conv intro: filter_True)
  with inv(2,3) show ?thesis by (simp add: queue_update_locked_closed Let_def)
qed

lemma queue_update_eq_locked:
  "queue_inv q \<Longrightarrow> queue_update f shard t q = queue_update_locked f shard t q"
  by (simp add: queue_update_def queue_update_locked_idle)

lemma queue_inv_update: "queue_inv q \<Longrightarrow> queue_inv (queue_update f shard t q)"
  by (simp add: queue_update_eq_locked queue_inv_update_locked)

section \<open>The contract of the queue\<close>

text \<open>What the queue promises: which messages are pending, on which channel and until when, and
  which status each channel has received.\<close>

record queue_spec =
  qs_pending :: "pending_message_id \<Rightarrow> (nat \<times> u32) option"
  qs_status :: "nat \<Rightarrow> message_status option"
  qs_next :: nat

definition queue_abs :: "pending_messages_queue \<Rightarrow> queue_spec" where
  "queue_abs q =
     \<lparr>qs_pending = (\<lambda>mid. map_option (\<lambda>m. (the (pm_tx m), pm_expire_at m)) (hm_get (entries q) mid)),
      qs_status = map_of (sent q), qs_next = next_channel q\<rparr>"

definition spec_add :: "pending_message_id \<Rightarrow> u32 \<Rightarrow> queue_spec \<Rightarrow> nat result \<times> queue_spec" where
  "spec_add mid e s =
     (case qs_pending s mid of
        None \<Rightarrow> (Inr (qs_next s),
          s\<lparr>qs_pending := (qs_pending s)(mid \<mapsto> (qs_next s, e)), qs_next := Suc (qs_next s)\<rparr>)
      | Some _ \<Rightarrow> (Inl (QueueErr AlreadyExists), s))"

definition spec_deliver :: "pending_message_id \<Rightarrow> queue_spec \<Rightarrow> queue_spec" where
  "spec_deliver mid s =
     (case qs_pending s mid of
        None \<Rightarrow> s
      | Some (c, _) \<Rightarrow> s\<lparr>qs_pending := (qs_pending s)(mid := None),
                        qs_status := (qs_status s)(c \<mapsto> Delivered)\<rparr>)"

definition spec_expired ::
  "(uint256 \<Rightarrow> bool) \<Rightarrow> u32 \<Rightarrow> queue_spec \<Rightarrow> pending_message_id \<Rightarrow> nat \<Rightarrow> bool" where
  "spec_expired in_shard t s mid c \<longleftrightarrow>
     (\<exists>e. qs_pending s mid = Some (c, e) \<and> e < t \<and> in_shard (pm_account mid))"

definition spec_update :: "(uint256 \<Rightarrow> bool) \<Rightarrow> u32 \<Rightarrow> queue_spec \<Rightarrow> queue_spec" where
  "spec_update in_shard t s =
     s\<lparr>qs_pending := (\<lambda>mid. if \<exists>c. spec_expired in_shard t s mid c then None
                          else qs_pending s mid),
       qs_status := (\<lambda>c. if \<exists>mid. spec_expired in_shard t s mid c then Some Expired
                        else qs_status s c)\<rparr>"

interpretation mqc: oneshot_channels queue_inv "\<lambda>q. open_channels (entries q)" sent next_channel
  by unfold_locales (rule queue_invD(5))

lemma queue_chan_unique:
  assumes "queue_inv q" "(k, i) \<in> set (entries q)" "(k', i') \<in> set (entries q)"
    and "pm_tx i = pm_tx i'"
  shows "k = k' \<and> i = i'"
proof -
  from mqc.waiting_distinct [OF assms(1)]
  have "inj_on (\<lambda>(_, item). the (pm_tx item)) (set (entries q))"
    by (simp add: open_channels_def distinct_map)
  from inj_onD [OF this, of "(k, i)" "(k', i')"] show ?thesis using assms(2-4) by simp
qed

lemma queue_chan_unsent:
  assumes "queue_inv q" "(k, i) \<in> set (entries q)"
  shows "the (pm_tx i) \<notin> fst ` set (sent q)" "the (pm_tx i) < next_channel q"
proof -
  have mem: "the (pm_tx i) \<in> set (open_channels (entries q))"
    using assms(2) by (force simp: open_channels_def)
  from mqc.waiting_unanswered [OF assms(1) this]
  show "the (pm_tx i) \<notin> fst ` set (sent q)" "the (pm_tx i) < next_channel q"
    by (simp_all add: map_of_eq_None_iff)
qed

text \<open>The operations refine the operations of the contract.\<close>

lemma add_message_refines:
  fixes a h :: uint256
  assumes "queue_inv q"
  defines "mid \<equiv> \<lparr>pm_account = a, pm_message_hash = h\<rparr>"
  shows "map_prod (\<lambda>r. r) queue_abs (add_message a h e q) = spec_add mid e (queue_abs q)"
  unfolding mid_def
  by (auto simp: add_message_def spec_add_def queue_abs_def Let_def hmap_simps fun_eq_iff
      split: option.splits)

lemma deliver_message_refines:
  fixes a h :: uint256
  assumes "queue_inv q"
  defines "mid \<equiv> \<lparr>pm_account = a, pm_message_hash = h\<rparr>"
  shows "queue_abs (deliver_message a h q) = spec_deliver mid (queue_abs q)"
proof (cases "hm_get (entries q) mid")
  case None
  then show ?thesis
    by (simp add: deliver_message_def spec_deliver_def queue_abs_def mid_def)
next
  case (Some item)
  have mem: "(mid, item) \<in> set (entries q)" using Some by (rule map_of_SomeD)
  then obtain c where c: "pm_tx item = Some c"
    using queue_invD(4) [OF assms(1)] by blast
  have "c \<notin> fst ` set (sent q)"
    using queue_chan_unsent(1) [OF assms(1) mem] by (simp add: c)
  then have "map_of (sent q) c = None" by (simp add: map_of_eq_None_iff)
  then show ?thesis
    using Some c
    by (auto simp: deliver_message_def spec_deliver_def queue_abs_def mid_def Let_def
        send_status_def hmap_simps fun_eq_iff map_add_def split: option.splits)
qed

lemma map_of_expired:
  "map_of (map (\<lambda>c. (c, Expired)) cs) c = (if c \<in> set cs then Some Expired else None)"
  by (induction cs) auto

lemma queue_update_locked_refines:
  assumes "queue_inv q"
  shows "queue_abs (queue_update_locked f shard t q) =
    spec_update (contains_account f shard) t (queue_abs q)"
proof -
  let ?S = "contains_account f shard"
  let ?P = "keeps ?S t"
  let ?gone = "open_channels (filter (Not \<circ> ?P) (entries q))"
  note inv = queue_invD [OF assms]
  have out: "concat (map (\<lambda>(_, item). send_status item Expired) (filter (Not \<circ> ?P) (entries q))) =
      map (\<lambda>c. (c, Expired)) ?gone"
    using assms by (intro expired_statuses) (auto simp: queue_inv_def)
  have pend: "hm_get (filter ?P (entries q)) mid =
      (case hm_get (entries q) mid of None \<Rightarrow> None
       | Some v \<Rightarrow> if ?P (mid, v) then Some v else None)" for mid
    using hm_get_retain [OF inv(1), of "\<lambda>k v. ?P (k, v)" mid] by (simp add: hm_retain_def)
  have exp: "spec_expired ?S t (queue_abs q) mid c \<longleftrightarrow>
      (\<exists>v. hm_get (entries q) mid = Some v \<and> c = the (pm_tx v) \<and> \<not> ?P (mid, v))" for mid c
    by (auto simp: spec_expired_def queue_abs_def keeps_def not_le)
  have gone: "(\<exists>mid. spec_expired ?S t (queue_abs q) mid c) \<longleftrightarrow> c \<in> set ?gone" for c
    unfolding exp using inv(1) by (force simp: open_channels_def)
  have unsent: "map_of (sent q) c = None" if "c \<in> set ?gone" for c
    using that queue_chan_unsent(1) [OF assms] by (force simp: open_channels_def map_of_eq_None_iff)
  show ?thesis
    unfolding queue_update_locked_closed Let_def out spec_update_def gone
    by (auto simp: queue_abs_def fun_eq_iff map_of_expired map_add_def pend unsent
        exp [unfolded queue_abs_def] split: option.splits)
qed

lemma queue_update_refines:
  "queue_inv q \<Longrightarrow> queue_abs (queue_update f shard t q) =
    spec_update (contains_account f shard) t (queue_abs q)"
  by (simp add: queue_update_eq_locked queue_update_locked_refines)

section \<open>The interface the other components use\<close>

text \<open>
  What the engine (which adds messages) and the TON subscriber (which delivers and expires them)
  rely on: \<open>pend\<close> is the pending message of an account and hash, \<open>stat\<close> the status a channel
  has received.
\<close>

locale message_queue =
  fixes invar :: "'q \<Rightarrow> bool"
    and pend :: "'q \<Rightarrow> uint256 \<Rightarrow> uint256 \<Rightarrow> (nat \<times> u32) option"
    and stat :: "'q \<Rightarrow> nat \<Rightarrow> message_status option"
    and add :: "uint256 \<Rightarrow> uint256 \<Rightarrow> u32 \<Rightarrow> 'q \<Rightarrow> nat result \<times> 'q"
    and deliver :: "uint256 \<Rightarrow> uint256 \<Rightarrow> 'q \<Rightarrow> 'q"
    and update :: "shard_ident \<Rightarrow> u32 \<Rightarrow> 'q \<Rightarrow> 'q"
    and holds :: "shard_ident \<Rightarrow> uint256 \<Rightarrow> bool"
  assumes invar_add: "invar q \<Longrightarrow> invar (snd (add a h e q))"
    and invar_deliver: "invar q \<Longrightarrow> invar (deliver a h q)"
    and invar_update: "invar q \<Longrightarrow> invar (update s t q)"
    and pend_unique: "invar q \<Longrightarrow> pend q a h = Some (c, e) \<Longrightarrow> pend q a' h' = Some (c, e') \<Longrightarrow>
      a = a' \<and> h = h'"
    and pend_open: "invar q \<Longrightarrow> pend q a h = Some (c, e) \<Longrightarrow> stat q c = None"
    and add_new: "invar q \<Longrightarrow> pend q a h = None \<Longrightarrow>
      \<exists>c q'. add a h e q = (Inr c, q') \<and>
        (\<forall>a' h'. pend q' a' h' = (if a' = a \<and> h' = h then Some (c, e) else pend q a' h')) \<and>
        stat q' = stat q"
    and add_dup: "invar q \<Longrightarrow> pend q a h = Some x \<Longrightarrow>
      add a h e q = (Inl (QueueErr AlreadyExists), q)"
    and pend_deliver: "invar q \<Longrightarrow>
      pend (deliver a h q) a' h' = (if a' = a \<and> h' = h then None else pend q a' h')"
    and stat_deliver: "invar q \<Longrightarrow>
      stat (deliver a h q) c =
        (if \<exists>e. pend q a h = Some (c, e) then Some Delivered else stat q c)"
    and pend_update: "invar q \<Longrightarrow>
      pend (update s t q) a h =
        (case pend q a h of None \<Rightarrow> None
         | Some (c, e) \<Rightarrow> if e < t \<and> holds s a then None else Some (c, e))"
    and stat_update: "invar q \<Longrightarrow>
      stat (update s t q) c =
        (if \<exists>a h e. pend q a h = Some (c, e) \<and> e < t \<and> holds s a then Some Expired else stat q c)"
begin

text \<open>A status is final.\<close>

lemma stat_final_deliver: "invar q \<Longrightarrow> stat q c = Some x \<Longrightarrow> stat (deliver a h q) c = Some x"
  using pend_open by (auto simp: stat_deliver)

lemma stat_final_update:
  assumes "invar q" "stat q c = Some x"
  shows "stat (update s t q) c = Some x"
proof -
  have "pend q a h \<noteq> Some (c, e)" for a h e
    using pend_open [OF assms(1), of a h c e] assms(2) by auto
  then show ?thesis using assms by (simp add: stat_update)
qed

lemma stat_final_add: "invar q \<Longrightarrow> stat (snd (add a h e q)) = stat q"
proof (cases "pend q a h")
  case None
  assume "invar q"
  with None add_new [of q a h e] show ?thesis by auto
qed (simp add: add_dup)

text \<open>A message that is added and then seen in a block is delivered; one that is added and then
  overtaken by the time of its shard expires.\<close>

lemma add_then_deliver:
  assumes "invar q" "add a h e q = (Inr c, q')"
  shows "stat (deliver a h q') c = Some Delivered"
proof -
  have "pend q a h = None"
    using assms add_dup [OF assms(1)] by (cases "pend q a h") auto
  then have "pend q' a h = Some (c, e)"
    using add_new [OF assms(1), of a h e] assms(2) by auto
  moreover have "invar q'" using invar_add [OF assms(1), of a h e] assms(2) by simp
  ultimately show ?thesis by (simp add: stat_deliver)
qed

lemma add_then_expire:
  assumes "invar q" "add a h e q = (Inr c, q')" "e < t" "holds s a"
  shows "stat (update s t q') c = Some Expired"
proof -
  have "pend q a h = None"
    using assms add_dup [OF assms(1)] by (cases "pend q a h") auto
  then have "pend q' a h = Some (c, e)"
    using add_new [OF assms(1), of a h e] assms(2) by auto
  moreover have "invar q'" using invar_add [OF assms(1), of a h e] assms(2) by simp
  ultimately show ?thesis using assms(3,4) by (auto simp: stat_update)
qed

text \<open>A shard's time does not expire the messages of other shards.\<close>

lemma update_other_shard:
  "invar q \<Longrightarrow> \<not> holds s a \<Longrightarrow> pend (update s t q) a h = pend q a h"
  by (auto simp: pend_update split: option.splits)

end

definition queue_pend ::
  "pending_messages_queue \<Rightarrow> uint256 \<Rightarrow> uint256 \<Rightarrow> (nat \<times> u32) option" where
  "queue_pend q a h = qs_pending (queue_abs q) \<lparr>pm_account = a, pm_message_hash = h\<rparr>"

definition queue_stat :: "pending_messages_queue \<Rightarrow> nat \<Rightarrow> message_status option" where
  "queue_stat q c = qs_status (queue_abs q) c"

lemma queue_pend_Some:
  assumes "queue_inv q"
  shows "queue_pend q a h = Some (c, e) \<longleftrightarrow>
    (\<lparr>pm_account = a, pm_message_hash = h\<rparr>, \<lparr>pm_tx = Some c, pm_expire_at = e\<rparr>) \<in> set (entries q)"
proof -
  have tx: "pm_tx v \<noteq> None" if "(mid, v) \<in> set (entries q)" for mid v
    using queue_invD(4) [OF assms that] .
  show ?thesis
    using queue_invD(1) [OF assms] tx
    by (auto simp: queue_pend_def queue_abs_def) (metis option.collapse pending_message.surjective
        old.unit.exhaust)
qed

lemma queue_pend_open: "queue_inv q \<Longrightarrow> queue_pend q a h = Some (c, e) \<Longrightarrow> queue_stat q c = None"
  using queue_chan_unsent(1) [of q]
  by (fastforce simp: queue_pend_Some queue_stat_def queue_abs_def map_of_eq_None_iff)

lemma queue_pend_unique:
  assumes "queue_inv q" "queue_pend q a h = Some (c, e)" "queue_pend q a' h' = Some (c, e')"
  shows "a = a' \<and> h = h'"
  using queue_chan_unique [OF assms(1)] assms(2,3) by (fastforce simp: queue_pend_Some [OF assms(1)])

lemma queue_add_new:
  assumes "queue_inv q" "queue_pend q a h = None"
  shows "\<exists>c q'. add_message a h e q = (Inr c, q') \<and>
    (\<forall>a' h'. queue_pend q' a' h' = (if a' = a \<and> h' = h then Some (c, e) else queue_pend q a' h')) \<and>
    queue_stat q' = queue_stat q"
proof -
  obtain r q' where r: "add_message a h e q = (r, q')" by fastforce
  with add_message_refines [OF assms(1), of a h e] assms(2) show ?thesis
    by (auto simp: spec_add_def queue_pend_def queue_stat_def fun_eq_iff)
qed

lemma queue_add_dup:
  assumes "queue_inv q" "queue_pend q a h = Some x"
  shows "add_message a h e q = (Inl (QueueErr AlreadyExists), q)"
  using assms(2) by (auto simp: queue_pend_def queue_abs_def add_message_def Let_def)

lemma queue_pend_deliver:
  assumes "queue_inv q"
  shows "queue_pend (deliver_message a h q) a' h' =
    (if a' = a \<and> h' = h then None else queue_pend q a' h')"
  unfolding queue_pend_def deliver_message_refines [OF assms]
  by (auto simp: spec_deliver_def split: option.splits)

lemma queue_stat_deliver:
  assumes "queue_inv q"
  shows "queue_stat (deliver_message a h q) c =
    (if \<exists>e. queue_pend q a h = Some (c, e) then Some Delivered else queue_stat q c)"
  unfolding queue_pend_def queue_stat_def deliver_message_refines [OF assms]
  by (auto simp: spec_deliver_def split: option.splits)

lemma queue_pend_update:
  assumes "queue_inv q"
  shows "queue_pend (queue_update f s t q) a h =
    (case queue_pend q a h of None \<Rightarrow> None
     | Some (c, e) \<Rightarrow> if e < t \<and> contains_account f s a then None else Some (c, e))"
  unfolding queue_pend_def queue_update_refines [OF assms]
  by (auto simp: spec_update_def spec_expired_def split: option.splits)

lemma ex_message_id:
  "(\<exists>mid. P mid) \<longleftrightarrow> (\<exists>a h. P \<lparr>pm_account = a, pm_message_hash = h\<rparr>)"
proof
  assume "\<exists>mid. P mid"
  then obtain mid where "P mid" ..
  then show "\<exists>a h. P \<lparr>pm_account = a, pm_message_hash = h\<rparr>" by (cases mid) auto
qed blast

lemma queue_stat_update:
  assumes "queue_inv q"
  shows "queue_stat (queue_update f s t q) c =
    (if \<exists>a h e. queue_pend q a h = Some (c, e) \<and> e < t \<and> contains_account f s a
     then Some Expired else queue_stat q c)"
proof -
  have "(\<exists>mid. spec_expired (contains_account f s) t (queue_abs q) mid c) \<longleftrightarrow>
      (\<exists>a h e. queue_pend q a h = Some (c, e) \<and> e < t \<and> contains_account f s a)"
    by (simp add: ex_message_id spec_expired_def queue_pend_def)
  then show ?thesis
    unfolding queue_stat_def queue_update_refines [OF assms] by (simp add: spec_update_def)
qed

interpretation mq: message_queue queue_inv queue_pend queue_stat add_message deliver_message
  "queue_update SHARD_FULL" "contains_account SHARD_FULL" for SHARD_FULL
proof (unfold_locales, goal_cases)
  case 1
  then show ?case by (rule queue_inv_add)
next
  case 2
  then show ?case by (rule queue_inv_deliver)
next
  case 3
  then show ?case by (rule queue_inv_update)
next
  case 4
  then show ?case by (rule queue_pend_unique)
next
  case 5
  then show ?case by (rule queue_pend_open)
next
  case 6
  then show ?case by (rule queue_add_new)
next
  case 7
  then show ?case by (rule queue_add_dup)
next
  case 8
  then show ?case by (rule queue_pend_deliver)
next
  case 9
  then show ?case by (rule queue_stat_deliver)
next
  case 10
  then show ?case by (rule queue_pend_update)
next
  case 11
  then show ?case by (rule queue_stat_update)
qed

section \<open>Threads\<close>

text \<open>
  The queue is shared by the tasks that send messages and the subscriber that handles blocks.
  \<open>add_message\<close> and \<open>deliver_message\<close> hold the lock throughout. \<open>update\<close> reads
  \<open>min_expire_at\<close> without the lock: it may return at once, or wait for the lock with other
  operations in between.
\<close>

record queue_sys =
  qsys_queue :: pending_messages_queue
  qsys_waiting :: "(shard_ident \<times> u32) list"

datatype queue_event =
    EvAdd uint256 uint256 u32
  | EvDeliver uint256 uint256
  | EvUpdateSkip shard_ident u32
  | EvUpdateEnter shard_ident u32
  | EvUpdateLocked shard_ident u32

inductive queue_step :: "u64 \<Rightarrow> queue_sys \<Rightarrow> queue_event \<Rightarrow> queue_sys \<Rightarrow> bool" for SHARD_FULL where
  step_add: "queue_step SHARD_FULL s (EvAdd a h e)
    (s\<lparr>qsys_queue := snd (add_message a h e (qsys_queue s))\<rparr>)"
| step_deliver: "queue_step SHARD_FULL s (EvDeliver a h)
    (s\<lparr>qsys_queue := deliver_message a h (qsys_queue s)\<rparr>)"
| step_skip: "t \<le> min_expire_at (qsys_queue s) \<Longrightarrow> queue_step SHARD_FULL s (EvUpdateSkip shard t) s"
| step_enter: "\<not> t \<le> min_expire_at (qsys_queue s) \<Longrightarrow>
    queue_step SHARD_FULL s (EvUpdateEnter shard t)
      (s\<lparr>qsys_waiting := (shard, t) # qsys_waiting s\<rparr>)"
| step_locked: "(shard, t) \<in> set (qsys_waiting s) \<Longrightarrow>
    queue_step SHARD_FULL s (EvUpdateLocked shard t)
      (s\<lparr>qsys_queue := queue_update_locked SHARD_FULL shard t (qsys_queue s),
         qsys_waiting := remove1 (shard, t) (qsys_waiting s)\<rparr>)"

inductive_cases queue_stepE: "queue_step SHARD_FULL s ev s'"

inductive queue_reachable :: "u64 \<Rightarrow> queue_sys \<Rightarrow> bool" for SHARD_FULL where
  reach_init: "queue_reachable SHARD_FULL \<lparr>qsys_queue = queue_new, qsys_waiting = []\<rparr>"
| reach_step: "queue_reachable SHARD_FULL s \<Longrightarrow> queue_step SHARD_FULL s ev s' \<Longrightarrow>
    queue_reachable SHARD_FULL s'"

text \<open>The operation of the contract each event performs.\<close>

fun spec_event :: "u64 \<Rightarrow> queue_event \<Rightarrow> queue_spec \<Rightarrow> queue_spec" where
  "spec_event f (EvAdd a h e) s = snd (spec_add \<lparr>pm_account = a, pm_message_hash = h\<rparr> e s)"
| "spec_event f (EvDeliver a h) s = spec_deliver \<lparr>pm_account = a, pm_message_hash = h\<rparr> s"
| "spec_event f (EvUpdateSkip shard t) s = spec_update (contains_account f shard) t s"
| "spec_event f (EvUpdateEnter shard t) s = s"
| "spec_event f (EvUpdateLocked shard t) s = spec_update (contains_account f shard) t s"

lemma queue_step_inv:
  "queue_step f s ev s' \<Longrightarrow> queue_inv (qsys_queue s) \<Longrightarrow> queue_inv (qsys_queue s')"
  by (induction rule: queue_step.induct)
    (simp_all add: queue_inv_add queue_inv_deliver queue_inv_update_locked)

lemma queue_reachable_inv: "queue_reachable f s \<Longrightarrow> queue_inv (qsys_queue s)"
  by (induction rule: queue_reachable.induct) (auto simp: queue_inv_new intro: queue_step_inv)

lemma queue_step_refines:
  assumes "queue_step f s ev s'" "queue_inv (qsys_queue s)"
  shows "queue_abs (qsys_queue s') = spec_event f ev (queue_abs (qsys_queue s))"
  using assms(1)
proof cases
  case (step_add a h e)
  then show ?thesis
    using arg_cong [OF add_message_refines [OF assms(2), of a h e], of snd] by simp
next
  case (step_deliver a h)
  then show ?thesis using deliver_message_refines [OF assms(2), of a h] by simp
next
  case (step_skip t shard)
  then show ?thesis
    using queue_update_locked_refines [OF assms(2), of f shard t]
      queue_update_locked_idle [OF assms(2), of t f shard] by simp
next
  case (step_enter t shard)
  then show ?thesis by simp
next
  case (step_locked shard t)
  then show ?thesis using queue_update_locked_refines [OF assms(2), of f shard t] by simp
qed

section \<open>Properties\<close>

lemma queue_reachable_example:
  "queue_reachable f \<lparr>qsys_queue = snd (add_message 7 9 10 queue_new), qsys_waiting = []\<rparr>"
  using reach_step [OF reach_init step_add, of f 7 9 10] by simp

lemma queue_step_sent:
  "queue_step f s ev s' \<Longrightarrow> set (sent (qsys_queue s)) \<subseteq> set (sent (qsys_queue s'))"
  by (induction rule: queue_step.induct)
    (auto simp: add_message_def deliver_message_def queue_update_locked_def Let_def
      split: option.splits prod.splits)

interpretation mqs: oneshot_system "\<lambda>s. queue_inv (qsys_queue s)"
  "\<lambda>s. open_channels (entries (qsys_queue s))" "\<lambda>s. sent (qsys_queue s)"
  "\<lambda>s. next_channel (qsys_queue s)" "\<lambda>s s'. \<exists>ev. queue_step SHARD_FULL s ev s'" for SHARD_FULL
proof (unfold_locales, goal_cases)
  case (1 s)
  then show ?case by (rule mqc.accounted)
next
  case (2 s s')
  then show ?case by (blast intro: queue_step_inv)
next
  case (3 s s')
  then show ?case by (blast dest: queue_step_sent)
qed

text \<open>C6: Whatever the interleaving of senders, deliveries and expirations, every channel that
  was handed out is either waiting in exactly one entry and has no status, or has received
  exactly one status and is in no entry; no status is lost or sent twice, and a channel keeps the
  status it has received whatever happens later.\<close>

theorem queue_exactly_one_status:
  assumes "queue_reachable SHARD_FULL s" "c < next_channel (qsys_queue s)"
  shows "count_list (open_channels (entries (qsys_queue s))) c +
      count_list (map fst (sent (qsys_queue s))) c = 1 \<and>
    (map_of (sent (qsys_queue s)) c = Some status \<longrightarrow>
     (\<lambda>s s'. \<exists>ev. queue_step SHARD_FULL s ev s')\<^sup>*\<^sup>* s s' \<longrightarrow>
     map_of (sent (qsys_queue s')) c = Some status)"
proof -
  have inv: "queue_inv (qsys_queue s)" using assms(1) by (rule queue_reachable_inv)
  have "count (mset (open_channels (entries (qsys_queue s))) + mset (map fst (sent (qsys_queue s)))) c = 1"
    unfolding queue_invD(5) [OF inv] using assms(2) by simp
  then have "count_list (open_channels (entries (qsys_queue s))) c +
      count_list (map fst (sent (qsys_queue s))) c = 1"
    by (simp add: count_mset flip: mset_map)
  with mqs.answer_final [OF _ inv] show ?thesis by blast
qed

lemma queue_delivered_example:
  "queue_reachable f
     \<lparr>qsys_queue = deliver_message 7 9 (snd (add_message 7 9 10 queue_new)), qsys_waiting = []\<rparr>"
  using reach_step [OF queue_reachable_example step_deliver, of f 7 9] by simp

theorem queue_exactly_one_status_witness:
  "count_list (open_channels (entries (snd (add_message 7 9 10 queue_new)))) 0 +
     count_list (map fst (sent (snd (add_message 7 9 10 queue_new)))) 0 = 1 \<and>
   map_of (sent (snd (add_message 7 9 11 (deliver_message 7 9 (snd (add_message 7 9 10 queue_new)))))) 0 =
     Some Delivered"
proof -
  let ?q = "snd (add_message 7 9 10 queue_new)"
  let ?s = "\<lparr>qsys_queue = deliver_message 7 9 ?q, qsys_waiting = []\<rparr>"
  have "0 < next_channel (qsys_queue \<lparr>qsys_queue = ?q, qsys_waiting = []\<rparr>)"
    by (simp add: add_message_def queue_new_def)
  from queue_exactly_one_status [OF queue_reachable_example this]
  have one: "count_list (open_channels (entries ?q)) 0 + count_list (map fst (sent ?q)) 0 = 1" by simp
  have "queue_step f ?s (EvAdd 7 9 11) (?s\<lparr>qsys_queue := snd (add_message 7 9 11 (qsys_queue ?s))\<rparr>)" for f
    by (rule step_add)
  then have run: "(\<lambda>s s'. \<exists>ev. queue_step (f :: u64) s ev s')\<^sup>*\<^sup>* ?s
      (?s\<lparr>qsys_queue := snd (add_message 7 9 11 (qsys_queue ?s))\<rparr>)" for f
    by blast
  have "0 < next_channel (qsys_queue ?s)" "map_of (sent (qsys_queue ?s)) 0 = Some Delivered"
    by (simp_all add: add_message_def queue_new_def deliver_message_def send_status_def)
  from conjunct2 [OF queue_exactly_one_status [OF queue_delivered_example this(1)], rule_format,
      OF this(2) run] one
  show ?thesis by simp
qed

text \<open>C7: Every step of every interleaving performs one operation of the contract (or none, for
  a thread that goes on to wait for the lock): in particular skipping \<open>update\<close> because of the
  cached minimum is the contract's update at that moment, and a delayed locked update is the
  contract's update when it runs.\<close>

theorem queue_concurrent_refinement:
  assumes "queue_reachable SHARD_FULL s" "queue_step SHARD_FULL s ev s'"
  shows "queue_abs (qsys_queue s') = spec_event SHARD_FULL ev (queue_abs (qsys_queue s))"
  by (rule queue_step_refines [OF assms(2) queue_reachable_inv [OF assms(1)]])

theorem queue_concurrent_refinement_witness:
  "queue_abs (deliver_message 7 9 (snd (add_message 7 9 10 queue_new))) =
   spec_deliver \<lparr>pm_account = 7, pm_message_hash = 9\<rparr>
     (queue_abs (snd (add_message 7 9 10 queue_new)))"
  using queue_concurrent_refinement [OF queue_reachable_example step_deliver [where a = 7 and h = 9]]
  by simp

text \<open>In every reachable state the two atomics beside the map are exact: \<open>min_expire_at\<close> is
  the least expiration time of the entries (\<open>u32::MAX\<close> when there is none) and \<open>entry_count\<close> is
  the number of entries.\<close>

theorem queue_atomics_exact:
  assumes "queue_reachable SHARD_FULL s"
  shows "is_entries_min (min_expire_at (qsys_queue s)) (entries (qsys_queue s)) \<and>
    queue_len (qsys_queue s) = of_nat (length (entries (qsys_queue s)))"
  using queue_invD(2,3) [OF queue_reachable_inv [OF assms]] entries_min_is_min
  by (simp add: queue_len_def)

theorem queue_atomics_exact_witness:
  "queue_len (snd (add_message 7 9 10 queue_new)) = 1 \<and>
   is_entries_min 10 (entries (snd (add_message 7 9 10 queue_new)))"
  using queue_atomics_exact [OF queue_reachable_example]
  by (simp add: add_message_def queue_new_def)

text \<open>The early return of \<open>update\<close> on the cached minimum never changes the outcome: with or
  without it the same entries expire and the same statuses are sent.\<close>

theorem queue_update_fast_path:
  assumes "queue_inv q"
  shows "queue_update SHARD_FULL shard t q = queue_update_locked SHARD_FULL shard t q"
  using assms by (rule queue_update_eq_locked)

theorem queue_update_fast_path_witness:
  "queue_inv queue_new \<and>
   (\<forall>f shard. queue_update f shard 3 queue_new = queue_update_locked f shard 3 queue_new)"
  using queue_inv_new queue_update_fast_path [OF queue_inv_new] by blast

text \<open>The life of a message: adding it opens a channel; a block that contains it answers
  \<open>Delivered\<close> on that channel; if the time of its shard passes \<open>expire_at\<close> first, the answer is
  \<open>Expired\<close>; adding it again while it is pending is refused and changes nothing.\<close>

theorem queue_message_lifecycle:
  assumes "queue_inv q" "add_message a h e q = (Inr c, q')"
  shows "queue_stat (deliver_message a h q') c = Some Delivered \<and>
    (e < t \<longrightarrow> contains_account SHARD_FULL shard a \<longrightarrow>
      queue_stat (queue_update SHARD_FULL shard t q') c = Some Expired) \<and>
    add_message a h e' q' = (Inl (QueueErr AlreadyExists), q')"
proof -
  have inv': "queue_inv q'" using queue_inv_add [OF assms(1), of a h e] assms(2) by simp
  have new: "queue_pend q a h = None"
    using assms queue_add_dup [OF assms(1)] by (cases "queue_pend q a h") auto
  have "queue_pend q' a h = Some (c, e)"
    using queue_add_new [OF assms(1) new, of e] assms(2) by auto
  then have dup: "add_message a h e' q' = (Inl (QueueErr AlreadyExists), q')"
    by (rule queue_add_dup [OF inv'])
  show ?thesis
    using mq.add_then_deliver [OF assms] mq.add_then_expire [OF assms] dup by blast
qed

theorem queue_message_lifecycle_witness:
  "queue_stat (deliver_message 7 9 (snd (add_message 7 9 10 queue_new))) 0 = Some Delivered"
proof -
  have "add_message 7 9 10 queue_new = (Inr 0, snd (add_message 7 9 10 queue_new))"
    by (simp add: add_message_def queue_new_def)
  from queue_message_lifecycle [OF queue_inv_new this, of 0 0 undefined 0] show ?thesis by simp
qed

end
