(* ===== verification/Keystore.thy ===== *)
theory Keystore
  imports Ton_Contracts
begin

text \<open>
  \<open>engine/keystore/mod.rs\<close>: the Ethereum signature of an event and the signed external messages; the
  start of the key store is in \<open>Keystore_Start\<close> and \<open>Identity\<close>. Hashing, signing and encoding are
  arguments; a clock reading is a \<open>u64\<close> of milliseconds.
\<close>

section \<open>Ethereum signatures\<close>

text \<open>\<open>sign_recoverable(..).serialize_compact()\<close> returns the recovery id and 64 bytes.\<close>

definition eth_signed_message_prefix :: "u8 list" where
  "eth_signed_message_prefix =
     0x19 # map (\<lambda>c. of_nat (of_char c)) ''Ethereum Signed Message:'' @ [10, 51, 50]"

definition eth_sign ::
  "(u8 list \<Rightarrow> u8 list) \<Rightarrow> (u8 list \<Rightarrow> 32 word \<times> u8 list) \<Rightarrow> u8 list \<Rightarrow> u8 list" where
  "eth_sign keccak256 sign_recoverable data =
     (let data_hash = keccak256 data;
          eth_data = eth_signed_message_prefix @ data_hash;
          hash = keccak256 eth_data;
          (recovery_id, signature) = sign_recoverable hash
      in signature @ [ucast recovery_id + 27])"

section \<open>Signed messages\<close>

datatype header_value = Time u64 | Expire u32 | PublicKey uint256

definition MESSAGE_TTL_SEC :: u32 where
  "MESSAGE_TTL_SEC = 60"

definition message_headers :: "u64 \<Rightarrow> u32 \<Rightarrow> uint256 \<Rightarrow> (string, header_value) hmap" where
  "message_headers time expire_at public_key =
     [(''time'', Time time), (''expire'', Expire expire_at), (''pubkey'', PublicKey public_key)]"

record 'body signed_message =
  sm_account :: uint256
  sm_dst_workchain :: int
  sm_body :: 'body
  sm_expire_at :: u32

text \<open>\<open>encode_input\<close> gets the function, the headers, the inputs and the key that signs, if any.\<close>

type_synonym ('ton, 'body) encoder =
  "abi_function \<Rightarrow> (string, header_value) hmap \<Rightarrow> abi_token list \<Rightarrow> 'ton option \<Rightarrow> 'body result"

definition ton_sign ::
  "('ton, 'body) encoder \<Rightarrow> uint256 \<Rightarrow> 'ton \<Rightarrow> u64 \<Rightarrow> unsigned_message \<Rightarrow>
   'body signed_message result" where
  "ton_sign encode_input public_key keypair time m =
     (let expire_at = ucast (time div 1000) + MESSAGE_TTL_SEC
      in and_then (encode_input (um_function m) (message_headers time expire_at public_key)
             (um_inputs m) (Some keypair))
           (\<lambda>body. Inr \<lparr>sm_account = um_account m, sm_dst_workchain = um_dst_workchain m,
                        sm_body = body, sm_expire_at = expire_at\<rparr>))"

text \<open>\<open>build_without_signature\<close>; the default public key is all zeros.\<close>

definition build_without_signature ::
  "('ton, 'body) encoder \<Rightarrow> u64 \<Rightarrow> unsigned_message \<Rightarrow> 'body signed_message result" where
  "build_without_signature encode_input time m =
     (let expire_at = ucast (time div 1000) + MESSAGE_TTL_SEC
      in and_then (encode_input (um_function m) (message_headers time expire_at 0) (um_inputs m) None)
           (\<lambda>body. Inr \<lparr>sm_account = um_account m, sm_dst_workchain = um_dst_workchain m,
                        sm_body = body, sm_expire_at = expire_at\<rparr>))"

section \<open>Properties\<close>

lemma unat_ucast_seconds:
  assumes "unat (time :: u64) div 1000 + 60 < 2 ^ 32"
  shows "unat (ucast (time div 1000) + MESSAGE_TTL_SEC :: u32) = unat time div 1000 + 60"
proof -
  have "unat (time div 1000) = unat time div 1000" by (simp add: unat_div)
  then have "unat (ucast (time div 1000) :: u32) = unat time div 1000"
    using assms by (simp add: unsigned_ucast_eq take_bit_nat_eq_self)
  then show ?thesis
    using assms by (simp add: MESSAGE_TTL_SEC_def unat_word_ariths)
qed

text \<open>A signed message expires sixty seconds after the clock it was signed with, carries that clock
  and the relay's key in its headers, and goes to the account of the unsigned message in the base
  workchain.\<close>

theorem ton_sign_expires_in_a_minute:
  assumes "ton_sign encode_input public_key keypair time m = Inr sm"
    and "unat time div 1000 + 60 < 2 ^ 32"
  shows "unat (sm_expire_at sm) = unat time div 1000 + 60 \<and>
    sm_account sm = um_account m \<and> sm_dst_workchain sm = um_dst_workchain m \<and>
    (\<exists>headers. encode_input (um_function m) headers (um_inputs m) (Some keypair) =
        Inr (sm_body sm) \<and>
      hm_get headers ''time'' = Some (Time time) \<and>
      hm_get headers ''expire'' = Some (Expire (sm_expire_at sm)) \<and>
      hm_get headers ''pubkey'' = Some (PublicKey public_key))"
proof -
  let ?e = "ucast (time div 1000) + MESSAGE_TTL_SEC :: u32"
  obtain body where body: "encode_input (um_function m) (message_headers time ?e public_key)
      (um_inputs m) (Some keypair) = Inr body"
    and sm: "sm = \<lparr>sm_account = um_account m, sm_dst_workchain = um_dst_workchain m,
      sm_body = body, sm_expire_at = ?e\<rparr>"
    using assms(1) by (auto simp: ton_sign_def Let_def and_then_Inr_iff)
  show ?thesis
    using body unat_ucast_seconds [OF assms(2)]
    by (intro conjI exI [of _ "message_headers time ?e public_key"])
      (simp_all add: sm message_headers_def)
qed

theorem ton_sign_expires_in_a_minute_witness:
  "unat (sm_expire_at \<lparr>sm_account = 5, sm_dst_workchain = 0, sm_body = (), sm_expire_at = 61\<rparr>) = 61"
  using ton_sign_expires_in_a_minute [of "\<lambda>_ _ _ _. Inr ()" 7 "()" 1000
      "unsigned_message_new abi_eth_event_confirm 5"
      "\<lparr>sm_account = 5, sm_dst_workchain = 0, sm_body = (), sm_expire_at = 61\<rparr>"]
  by (simp add: ton_sign_def unsigned_message_new_def MESSAGE_TTL_SEC_def)

text \<open>An Ethereum signature has 65 bytes: the 64 bytes of the recoverable signature of the prefixed
  hash and, last, the recovery id offset by 27, which is 27 to 30 for every id the curve has.\<close>

theorem eth_sign_layout:
  fixes data :: "u8 list" and keccak256 :: "u8 list \<Rightarrow> u8 list"
    and sign_recoverable :: "u8 list \<Rightarrow> 32 word \<times> u8 list"
  assumes "\<And>hash. length (snd (sign_recoverable hash)) = 64"
    and "\<And>hash. fst (sign_recoverable hash) < 4"
  defines "signature \<equiv> eth_sign keccak256 sign_recoverable data"
  shows "length signature = 65 \<and>
    take 64 signature = snd (sign_recoverable (keccak256
      (eth_signed_message_prefix @ keccak256 data))) \<and>
    27 \<le> unat (last signature) \<and> unat (last signature) \<le> 30"
proof -
  let ?r = "sign_recoverable (keccak256 (eth_signed_message_prefix @ keccak256 data))"
  have signature: "signature = snd ?r @ [ucast (fst ?r) + 27]"
    by (simp add: signature_def eth_sign_def Let_def case_prod_unfold)
  have "unat (fst ?r) < 4" using assms(2) by (simp add: word_less_nat_alt)
  moreover from this have "unat (ucast (fst ?r) :: u8) = unat (fst ?r)"
    by (simp add: unsigned_ucast_eq take_bit_nat_eq_self)
  ultimately have "unat (ucast (fst ?r) + 27 :: u8) = unat (fst ?r) + 27" "unat (fst ?r) < 4"
    by (simp_all add: unat_word_ariths)
  then show ?thesis
    using assms(1) by (simp add: signature)
qed

theorem eth_sign_layout_witness:
  "length (eth_sign (\<lambda>bs. bs) (\<lambda>_. (1, replicate 64 0)) [1, 2]) = 65"
  using eth_sign_layout [of "\<lambda>_. (1, replicate 64 0)" "\<lambda>bs. bs" "[1, 2]"] by simp

end
