(* ===== verification/Delivery.thy ===== *)
theory Delivery
  imports Message_Queue Keystore
begin

text \<open>
  The delivery of external messages by \<open>EngineContext\<close> in \<open>engine/mod.rs\<close>:
  \<open>send_ton_message\<close> puts one message into the queue of pending messages and broadcasts it, and
  \<open>deliver_message\<close> signs and sends again until the message is delivered, its condition fails, or an
  error ends the loop. What happens around the loop is a list of turns, one for each pass: the
  condition, the clock, the encoded body, and the outcome of the send.
\<close>

section \<open>Sending one message\<close>

text \<open>The header of a message: an external one has a destination whose prefix may fail to compute.
  \<open>om_cell\<close> is the representation hash of the written cell, \<open>om_serialized\<close> the bag of cells.\<close>

datatype ton_header = ExtInHeader "unit result" | OtherHeader

record out_message =
  om_header :: ton_header
  om_cell :: "uint256 result"
  om_serialized :: "unit result"

text \<open>The part of \<open>send_ton_message\<close> before the broadcast, and the whole function from the outcome
  of the broadcast and the status the channel received.\<close>

definition send_ton_message_enqueue ::
  "uint256 \<Rightarrow> out_message \<Rightarrow> u32 \<Rightarrow> pending_messages_queue \<Rightarrow> nat result \<times> pending_messages_queue" where
  "send_ton_message_enqueue account message expire_at q =
     (case om_header message of
        OtherHeader \<Rightarrow> (Inl (EngineErr ExternalTonMessageExpected), q)
      | ExtInHeader (Inl e) \<Rightarrow> (Inl e, q)
      | ExtInHeader (Inr _) \<Rightarrow>
          (case om_cell message of
             Inl e \<Rightarrow> (Inl e, q)
           | Inr repr_hash \<Rightarrow>
               (case om_serialized message of
                  Inl e \<Rightarrow> (Inl e, q)
                | Inr _ \<Rightarrow> add_message account repr_hash expire_at q)))"

definition send_ton_message ::
  "unit result \<Rightarrow> message_status result \<Rightarrow> nat result \<Rightarrow> message_status result" where
  "send_ton_message broadcast received rx =
     and_then rx (\<lambda>_. and_then broadcast (\<lambda>_. received))"

section \<open>The delivery loop\<close>

record turn =
  turn_condition :: bool
  turn_time :: u64
  turn_send :: "message_status result"

text \<open>The result (\<open>None\<close>: the turns end while the loop still runs) and the messages sent.\<close>

fun deliver_loop ::
  "(u64 \<Rightarrow> 'body signed_message result) \<Rightarrow> turn list \<Rightarrow>
   unit result option \<times> 'body signed_message list" where
  "deliver_loop sign [] = (None, [])"
| "deliver_loop sign (t # ts) =
     (if \<not> turn_condition t then (Some (Inr ()), [])
      else case sign (turn_time t) of
             Inl e \<Rightarrow> (Some (Inl e), [])
           | Inr message \<Rightarrow>
               (case turn_send t of
                  Inl e \<Rightarrow> (Some (Inl e), [message])
                | Inr Expired \<Rightarrow>
                    (let (r, messages) = deliver_loop sign ts in (r, message # messages))
                | Inr Delivered \<Rightarrow> (Some (Inr ()), [message])))"

text \<open>\<open>EngineContext::deliver_message\<close> with the relay's signer.\<close>

definition engine_deliver_message ::
  "('ton, 'body) encoder \<Rightarrow> uint256 \<Rightarrow> 'ton \<Rightarrow> unsigned_message \<Rightarrow> turn list \<Rightarrow>
   unit result option \<times> 'body signed_message list" where
  "engine_deliver_message encode_input public_key keypair m turns =
     deliver_loop (\<lambda>time. ton_sign encode_input public_key keypair time m) turns"

section \<open>Facts\<close>

lemma deliver_loop_messages:
  "deliver_loop sign turns = (r, ms) \<Longrightarrow>
   length ms \<le> length turns \<and>
   (\<forall>i < length ms. turn_condition (turns ! i) \<and> sign (turn_time (turns ! i)) = Inr (ms ! i)) \<and>
   (\<forall>i. Suc i < length ms \<longrightarrow> turn_send (turns ! i) = Inr Expired)"
proof (induction turns arbitrary: r ms)
  case (Cons t ts)
  show ?case
  proof (cases "\<exists>m. turn_condition t \<and> sign (turn_time t) = Inr m \<and> turn_send t = Inr Expired")
    case True
    then obtain m where m: "turn_condition t" "sign (turn_time t) = Inr m" "turn_send t = Inr Expired"
      by blast
    obtain r' ms' where rec: "deliver_loop sign ts = (r', ms')" by (cases "deliver_loop sign ts")
    have ms: "ms = m # ms'" using Cons.prems m rec by simp
    show ?thesis
      using Cons.IH [OF rec] m unfolding ms by (auto simp: nth_Cons split: nat.splits)
  next
    case False
    then have "ms = [] \<or> (\<exists>m. ms = [m] \<and> turn_condition t \<and> sign (turn_time t) = Inr m)"
      using Cons.prems
      by (auto split: if_splits sum.splits message_status.splits)
    then show ?thesis by auto
  qed
qed simp

lemma deliver_loop_result:
  "deliver_loop sign turns = (r, ms) \<Longrightarrow>
   (case r of
      None \<Rightarrow> length ms = length turns \<and> (\<forall>t \<in> set turns. turn_send t = Inr Expired)
    | Some (Inr _) \<Rightarrow>
        (ms \<noteq> [] \<and> turn_send (turns ! (length ms - 1)) = Inr Delivered) \<or>
        (length ms < length turns \<and> \<not> turn_condition (turns ! length ms) \<and>
         (\<forall>i < length ms. turn_send (turns ! i) = Inr Expired))
    | Some (Inl e) \<Rightarrow>
        (ms \<noteq> [] \<and> turn_send (turns ! (length ms - 1)) = Inl e) \<or>
        (length ms < length turns \<and> sign (turn_time (turns ! length ms)) = Inl e))"
proof (induction turns arbitrary: r ms)
  case (Cons t ts)
  show ?case
  proof (cases "\<exists>m. turn_condition t \<and> sign (turn_time t) = Inr m \<and> turn_send t = Inr Expired")
    case True
    then obtain m where m: "turn_condition t" "sign (turn_time t) = Inr m" "turn_send t = Inr Expired"
      by blast
    obtain r' ms' where rec: "deliver_loop sign ts = (r', ms')" by (cases "deliver_loop sign ts")
    have eqs: "ms = m # ms'" "r = r'" using Cons.prems m rec by simp_all
    show ?thesis
      using Cons.IH [OF rec] m unfolding eqs
      by (cases ms') (auto simp: nth_Cons split: option.splits sum.splits nat.splits)
  next
    case False
    then show ?thesis
      using Cons.prems by (auto split: if_splits sum.splits message_status.splits)
  qed
qed simp

section \<open>Properties\<close>

text \<open>C26: The delivery loop sends nothing once its condition fails, sends again only after the message
  before expired, and ends successfully exactly by a delivery or by a failed condition; every
  message is signed with the clock of its own turn.\<close>

theorem deliver_loop_correct:
  assumes "engine_deliver_message encode_input public_key keypair m turns = (r, ms)"
  shows "(\<forall>i < length ms. turn_condition (turns ! i) \<and>
      ton_sign encode_input public_key keypair (turn_time (turns ! i)) m = Inr (ms ! i)) \<and>
    (\<forall>i. Suc i < length ms \<longrightarrow> turn_send (turns ! i) = Inr Expired) \<and>
    (r = Some (Inr ()) \<longrightarrow>
      (ms \<noteq> [] \<and> turn_send (turns ! (length ms - 1)) = Inr Delivered) \<or>
      (length ms < length turns \<and> \<not> turn_condition (turns ! length ms)))"
  using deliver_loop_messages [OF assms [unfolded engine_deliver_message_def]]
    deliver_loop_result [OF assms [unfolded engine_deliver_message_def]]
  by auto

theorem deliver_loop_correct_witness:
  "let turns = [\<lparr>turn_condition = True, turn_time = 1000, turn_send = Inr Expired\<rparr>,
                \<lparr>turn_condition = True, turn_time = 70000, turn_send = Inr Delivered\<rparr>];
       m = unsigned_message_new abi_eth_event_confirm 5;
       ms = [\<lparr>sm_account = 5, sm_dst_workchain = 0, sm_body = (), sm_expire_at = 61\<rparr>,
             \<lparr>sm_account = 5, sm_dst_workchain = 0, sm_body = (), sm_expire_at = 130\<rparr>]
   in engine_deliver_message (\<lambda>_ _ _ _. Inr ()) 7 () m turns = (Some (Inr ()), ms) \<and>
      turn_send (turns ! 1) = Inr Delivered"
proof -
  let ?turns = "[\<lparr>turn_condition = True, turn_time = 1000, turn_send = Inr Expired\<rparr>,
                \<lparr>turn_condition = True, turn_time = 70000, turn_send = Inr Delivered\<rparr>]"
  let ?m = "unsigned_message_new abi_eth_event_confirm 5"
  let ?ms = "[\<lparr>sm_account = 5, sm_dst_workchain = 0, sm_body = (), sm_expire_at = 61\<rparr>,
             \<lparr>sm_account = 5, sm_dst_workchain = 0, sm_body = (), sm_expire_at = 130\<rparr>]"
  have run: "engine_deliver_message (\<lambda>_ _ _ _. Inr ()) 7 () ?m ?turns = (Some (Inr ()), ?ms)"
    by (simp add: engine_deliver_message_def ton_sign_def unsigned_message_new_def MESSAGE_TTL_SEC_def)
  show ?thesis
    using run deliver_loop_correct [OF run] by (simp add: Let_def)
qed

text \<open>A message that \<open>send_ton_message\<close> accepts is pending under its own cell hash and answered
  \<open>Delivered\<close> by a block that contains it, or \<open>Expired\<close> once its shard passes its expiration; every
  refused message leaves the queue as it was.\<close>

theorem send_ton_message_registers:
  assumes "queue_inv q"
  shows "case send_ton_message_enqueue account message expire_at q of
      (Inl e, q') \<Rightarrow> q' = q
    | (Inr rx, q') \<Rightarrow>
        (\<exists>h. om_cell message = Inr h \<and>
          queue_stat (Message_Queue.deliver_message account h q') rx = Some Delivered) \<and>
        (\<forall>shard t. expire_at < t \<and> contains_account SHARD_FULL shard account \<longrightarrow>
          queue_stat (queue_update SHARD_FULL shard t q') rx = Some Expired)"
proof -
  have accepted: ?thesis if add: "add_message account h expire_at q = (Inr rx, q')"
    and h: "om_cell message = Inr h" "send_ton_message_enqueue account message expire_at q = (Inr rx, q')"
    for h rx q'
    using h mq.add_then_deliver [OF assms add] mq.add_then_expire [OF assms add] by auto
  have "add_message account h expire_at q = (Inl e, q') \<Longrightarrow> q' = q" for h e q'
    by (auto simp: add_message_def Let_def split: option.splits)
  then show ?thesis
    using accepted
    by (cases "om_header message"; cases "om_cell message"; cases "om_serialized message")
      (auto simp: send_ton_message_enqueue_def split: sum.splits prod.splits)
qed

theorem send_ton_message_registers_witness:
  "\<exists>rx q'. send_ton_message_enqueue 7 \<lparr>om_header = ExtInHeader (Inr ()), om_cell = Inr 9,
        om_serialized = Inr ()\<rparr> 10 queue_new = (Inr rx, q') \<and>
     queue_stat (Message_Queue.deliver_message 7 9 q') rx = Some Delivered"
  using send_ton_message_registers [OF queue_inv_new, where account = 7 and expire_at = 10
      and SHARD_FULL = 0 and message = "\<lparr>om_header = ExtInHeader (Inr ()), om_cell = Inr 9,
        om_serialized = Inr ()\<rparr>"]
  by (simp add: send_ton_message_enqueue_def add_message_def queue_new_def)

end
