(* ===== verification/Bridge_Events.thy ===== *)
theory Bridge_Events
  imports Bridge_State Delivery Eth_Subscriber
begin

text \<open>
  The event half of \<open>engine/bridge/mod.rs\<close>: the map of pending events, the decision what to do
  with an event contract, the handlers of the event observers and the tasks that vote. A function
  that awaits is cut at its waits: each definition is what runs between two of them, with the
  outcome of the wait as an argument. The counter of pending events is updated after the map's
  lock is released, so the definitions return whether an entry was added or removed, and
  \<open>count_add\<close> and \<open>count_sub\<close> are separate.
\<close>

section \<open>Pending events\<close>

record pending_event_state =
  pe_processing_started :: bool
  pe_observer :: observer

record events_state =
  ev_pending :: "(uint256, pending_event_state) hmap"
  ev_count :: usize
  ev_next_observer :: observer
  ev_subscriptions :: "(uint256 \<times> observer) list"

definition events_new :: events_state where
  "events_new = \<lparr>ev_pending = [], ev_count = 0, ev_next_observer = 0, ev_subscriptions = []\<rparr>"

definition count_add :: "events_state \<Rightarrow> events_state" where
  "count_add st = st\<lparr>ev_count := ev_count st + 1\<rparr>"

definition count_sub :: "events_state \<Rightarrow> events_state" where
  "count_sub st = st\<lparr>ev_count := ev_count st - 1\<rparr>"

definition start_processing :: "uint256 \<Rightarrow> events_state \<Rightarrow> bool \<times> events_state" where
  "start_processing account st =
     (case hm_get (ev_pending st) account of
        Some entry \<Rightarrow>
          (\<not> pe_processing_started entry,
           st\<lparr>ev_pending := hm_insert account (entry\<lparr>pe_processing_started := True\<rparr>)
             (ev_pending st)\<rparr>)
      | None \<Rightarrow> (False, st))"

text \<open>The part of \<open>remove\<close> and of the closures \<open>remove_entry\<close> that takes the entry out.\<close>

definition remove_entry :: "uint256 \<Rightarrow> events_state \<Rightarrow> bool \<times> events_state" where
  "remove_entry account st =
     (hm_contains account (ev_pending st),
      st\<lparr>ev_pending := hm_remove account (ev_pending st)\<rparr>)"

definition events_remove :: "uint256 \<Rightarrow> events_state \<Rightarrow> events_state" where
  "events_remove account st =
     (let (removed, st1) = remove_entry account st in if removed then count_sub st1 else st1)"

text \<open>The part of \<open>add_pending_event\<close> under the entry's lock, and the whole function.\<close>

definition insert_entry :: "uint256 \<Rightarrow> events_state \<Rightarrow> bool \<times> events_state" where
  "insert_entry account st =
     (if hm_contains account (ev_pending st) then (False, st)
      else (let observer = ev_next_observer st
            in (True, st\<lparr>ev_pending := hm_insert account
                   \<lparr>pe_processing_started = False, pe_observer = observer\<rparr> (ev_pending st),
                 ev_next_observer := observer + 1,
                 ev_subscriptions := ev_subscriptions st @ [(account, observer)]\<rparr>)))"

definition add_pending_event :: "uint256 \<Rightarrow> events_state \<Rightarrow> bool \<times> events_state" where
  "add_pending_event account st =
     (let (new_event, st1) = insert_entry account st
      in (new_event, if new_event then count_add st1 else st1))"

section \<open>What to do with an event contract\<close>

datatype event_action = Nop | Remove | Vote

definition SUPPORTED_API_VERSION :: u32 where
  "SUPPORTED_API_VERSION = 2"

text \<open>\<open>EventBaseContract::process\<close>. The voters are asked for only when the guards before them hold; a
  failing API version counts as zero.\<close>

definition event_process ::
  "('acc, 'tok, 'cell) ton_lib \<Rightarrow> 'acc existing_contract \<Rightarrow> uint256 \<Rightarrow> bool \<Rightarrow> event_action result" where
  "event_process ton c public_key require_all_signatures =
     (let our_vote_is_missing =
            and_then (event_base_get_voters ton c VoteEmpty) (\<lambda>voters.
              Inr (public_key \<in> set voters \<and>
                   unwrap_or 0 (event_base_get_api_version ton c) = SUPPORTED_API_VERSION))
      in case event_base_status ton c of
           Inl e \<Rightarrow> Inl e
         | Inr Initializing \<Rightarrow> Inr Nop
         | Inr Pending \<Rightarrow>
             and_then our_vote_is_missing (\<lambda>vote. Inr (if vote then Vote else Remove))
         | Inr Confirmed \<Rightarrow>
             if require_all_signatures \<and> MIN_EVENT_BALANCE \<le> account_balance ton (ec_account c)
             then and_then our_vote_is_missing (\<lambda>vote. Inr (if vote then Vote else Remove))
             else Inr Remove
         | Inr Rejected \<Rightarrow> Inr Remove)"

section \<open>Observers of event contracts\<close>

text \<open>The handlers return whether the entry was removed and whether an update task is spawned.\<close>

definition process_eth_event ::
  "uint256 \<Rightarrow> uint256 \<Rightarrow> eth_event \<times> event_status \<Rightarrow> events_state \<Rightarrow> bool \<times> bool \<times> events_state" where
  "process_eth_event our_public_key account event st =
     (let remove = (let (removed, st1) = remove_entry account st in (removed, False, st1));
          ignore = (False, False, st)
      in if \<not> hm_contains account (ev_pending st) then ignore
         else case event of
                (_, Confirmed) \<Rightarrow> remove
              | (_, Rejected) \<Rightarrow> remove
              | (EthReceiveRoundRelays keys, _) \<Rightarrow>
                  if our_public_key \<in> set keys then (False, True, st) else remove
              | (EthConfirm public_key, _) \<Rightarrow>
                  if public_key = our_public_key then remove else ignore
              | (EthReject public_key, _) \<Rightarrow>
                  if public_key = our_public_key then remove else ignore)"

definition process_ton_event ::
  "uint256 \<Rightarrow> uint256 \<Rightarrow> ton_event \<times> event_status \<Rightarrow> events_state \<Rightarrow> bool \<times> bool \<times> events_state" where
  "process_ton_event our_public_key account event st =
     (let remove = (let (removed, st1) = remove_entry account st in (removed, False, st1));
          ignore = (False, False, st)
      in if \<not> hm_contains account (ev_pending st) then ignore
         else if event = (TonClosed, Confirmed) then remove
         else if snd event = Rejected then remove
         else case fst event of
                TonReceiveRoundRelays keys \<Rightarrow>
                  if our_public_key \<in> set keys then (False, True, st) else remove
              | TonConfirm public_key \<Rightarrow> if public_key = our_public_key then remove else ignore
              | TonReject public_key \<Rightarrow> if public_key = our_public_key then remove else ignore
              | TonClosed \<Rightarrow> ignore)"

text \<open>A handler to its end, with the counter.\<close>

definition with_count :: "bool \<times> bool \<times> events_state \<Rightarrow> bool \<times> events_state" where
  "with_count r = (case r of (removed, spawn, st) \<Rightarrow> (spawn, if removed then count_sub st else st))"

text \<open>\<open>preprocess_event\<close> after its wait; the flags are as above.\<close>

definition preprocess_event ::
  "('acc, 'tok, 'cell) ton_lib \<Rightarrow> uint256 \<Rightarrow> bool \<Rightarrow> 'acc existing_contract result \<Rightarrow> uint256 \<Rightarrow>
   events_state \<Rightarrow> unit result \<times> bool \<times> bool \<times> events_state" where
  "preprocess_event ton our_public_key require_all_signatures contract account st =
     (case and_then contract (\<lambda>c. event_process ton c our_public_key require_all_signatures) of
        Inl e \<Rightarrow> (Inl e, False, False, st)
      | Inr Nop \<Rightarrow> (Inr (), False, False, st)
      | Inr Remove \<Rightarrow>
          (let (removed, st1) = remove_entry account st in (Inr (), removed, False, st1))
      | Inr Vote \<Rightarrow> (Inr (), False, True, st))"

text \<open>The observers of configurations: a deployment adds the event and, when it was new, spawns
  \<open>preprocess_event\<close> for it; the other events change the configuration.\<close>

definition process_eth_event_configuration_event ::
  "uint256 \<Rightarrow> eth_event_configuration_event \<Rightarrow> ('abi, 'tabi, 'cell) bridge_state \<times> events_state \<Rightarrow>
   unit result \<times> uint256 option \<times> ('abi, 'tabi, 'cell) bridge_state \<times> events_state" where
  "process_eth_event_configuration_event account event s =
     (case event of
        EthEventDeployed address \<Rightarrow>
          (let (new_event, st) = add_pending_event address (snd s)
           in (Inr (), if new_event then Some address else None, fst s, st))
      | SetEndBlockNumber end_block_number \<Rightarrow>
          (let (r, bs) = set_eth_end_block_number account end_block_number (fst s)
           in (r, None, bs, snd s)))"

definition process_ton_event_configuration_event ::
  "uint256 \<Rightarrow> ton_event_configuration_event \<Rightarrow> ('abi, 'tabi, 'cell) bridge_state \<times> events_state \<Rightarrow>
   unit result \<times> uint256 option \<times> ('abi, 'tabi, 'cell) bridge_state \<times> events_state" where
  "process_ton_event_configuration_event account event s =
     (case event of
        TonEventDeployed address \<Rightarrow>
          (let (new_event, st) = add_pending_event address (snd s)
           in (Inr (), if new_event then Some address else None, fst s, st))
      | SetEndTimestamp end_timestamp \<Rightarrow>
          (let (r, bs) = set_ton_end_timestamp account end_timestamp (fst s)
           in (r, None, bs, snd s)))"

text \<open>The end of both update tasks: the observer that is kept alive while the vote is delivered,
  \<open>None\<close> when the event is gone, and the condition of the delivery loop.\<close>

definition delivery_observer :: "uint256 \<Rightarrow> events_state \<Rightarrow> observer option" where
  "delivery_observer account st = map_option pe_observer (hm_get (ev_pending st) account)"

definition delivery_condition :: "uint256 \<Rightarrow> events_state \<Rightarrow> bool" where
  "delivery_condition account st = hm_contains account (ev_pending st)"

section \<open>Voting for ETH events\<close>

datatype ('abi, 'cell) eth_decision =
    EthFinished "unit result"
  | EthRemove
  | EthVerify u32 "'cell eth_event_vote_data" h160 'abi u16

definition update_eth_event_decide ::
  "('acc, 'tok, 'cell) ton_lib \<Rightarrow> uint256 \<Rightarrow> (u32 \<Rightarrow> bool) \<Rightarrow>
   (uint256, ('abi, 'cell) eth_event_configuration_state) hmap \<Rightarrow>
   'acc existing_contract result \<Rightarrow> ('abi, 'cell) eth_decision" where
  "update_eth_event_decide ton our_public_key has_subscriber configurations contract =
     (case contract of
        Inl e \<Rightarrow> EthFinished (Inl e)
      | Inr c \<Rightarrow>
     (case event_process ton c our_public_key False of
        Inl e \<Rightarrow> EthFinished (Inl e)
      | Inr Nop \<Rightarrow> EthFinished (Inr ())
      | Inr Remove \<Rightarrow> EthRemove
      | Inr Vote \<Rightarrow>
     (case eth_event_get_init_data ton c of
        Inl e \<Rightarrow> EthFinished (Inl e)
      | Inr event_init_data \<Rightarrow>
     (case hm_get configurations (eid_configuration event_init_data) of
        None \<Rightarrow> EthRemove
      | Some configuration \<Rightarrow>
          (let network = ecd_network_configuration (ecs_details configuration)
           in if has_subscriber (eec_chain_id network)
              then EthVerify (eec_chain_id network) (eid_vote_data event_init_data)
                     (eec_event_emitter network) (ecs_event_abi configuration)
                     (eec_event_blocks_to_confirm network)
              else EthRemove)))))"

text \<open>The message after \<open>verify\<close> returned; \<open>None\<close> removes the event.\<close>

definition update_eth_event_message ::
  "uint256 \<Rightarrow> verification_status result \<Rightarrow> unsigned_message option option" where
  "update_eth_event_message account verification =
     (case verification of
        Inr Exists \<Rightarrow> Some (eth_event_confirm_message account)
      | Inr NotExists \<Rightarrow> Some (eth_event_reject_message account)
      | Inl e \<Rightarrow> None)"

section \<open>Voting for TON events\<close>

record ('tabi, 'tokens, 'cell) ton_event_lib =
  decode_params :: "'tabi \<Rightarrow> 'cell \<Rightarrow> 'tokens result"
  map_ton_tokens_to_eth_bytes :: "'tokens \<Rightarrow> u8 list result"
  make_mapped_ton_event ::
    "u64 \<Rightarrow> u32 \<Rightarrow> u8 list \<Rightarrow> uint256 \<Rightarrow> uint256 \<Rightarrow> h160 \<Rightarrow> u32 \<Rightarrow> u8 list"

datatype ton_decision =
    TonFinished "unit result"
  | TonRemove
  | TonVote "unsigned_message option"

definition update_ton_event_decide ::
  "('acc, 'tok, 'cell) ton_lib \<Rightarrow> ('tabi, 'tokens, 'cell) ton_event_lib \<Rightarrow> (u8 list \<Rightarrow> u8 list) \<Rightarrow>
   uint256 \<Rightarrow> (uint256, ('tabi, 'cell) ton_event_configuration_state) hmap \<Rightarrow> uint256 \<Rightarrow>
   'acc existing_contract result \<Rightarrow> ton_decision" where
  "update_ton_event_decide ton lib sign our_public_key configurations account contract =
     (case contract of
        Inl e \<Rightarrow> TonFinished (Inl e)
      | Inr c \<Rightarrow>
     (case event_process ton c our_public_key True of
        Inl e \<Rightarrow> TonFinished (Inl e)
      | Inr Nop \<Rightarrow> TonFinished (Inr ())
      | Inr Remove \<Rightarrow> TonRemove
      | Inr Vote \<Rightarrow>
     (case event_base_round_number ton c of
        Inl e \<Rightarrow> TonFinished (Inl e)
      | Inr round_number \<Rightarrow>
     (case ton_event_get_init_data ton c of
        Inl e \<Rightarrow> TonFinished (Inl e)
      | Inr event_init_data \<Rightarrow>
     (case hm_get configurations (tid_configuration event_init_data) of
        None \<Rightarrow> TonRemove
      | Some configuration \<Rightarrow>
          (let vote_data = tid_vote_data event_init_data;
               proxy = tec_proxy (tcd_network_configuration (tcs_details configuration));
               decoded_data =
                 and_then (decode_params lib (tcs_event_abi configuration) (tvd_event_data vote_data))
                   (\<lambda>data. and_then (map_ton_tokens_to_eth_bytes lib data)
                   (\<lambda>bytes. Inr (make_mapped_ton_event lib (tvd_event_transaction_lt vote_data)
                      (tvd_event_timestamp vote_data) bytes (tid_configuration event_init_data)
                      account proxy round_number)))
           in case decoded_data of
                Inr data \<Rightarrow> TonVote (ton_event_confirm_message account (sign data))
              | Inl e \<Rightarrow> TonVote (ton_event_reject_message account)))))))"

section \<open>The scan of all events on startup\<close>

text \<open>The closure of \<open>get_all_events\<close> for one account: \<open>code_hash\<close> is what \<open>read_code_hash\<close> returns,
  \<open>contract\<close> the account read afterwards. The result is whether the iteration goes on, whether the
  entry was added, and whether an update task is spawned for which kind.\<close>

definition scan_account ::
  "('acc, 'tok, 'cell) ton_lib \<Rightarrow> uint256 \<Rightarrow> (uint256, event_type) hmap \<Rightarrow> uint256 list \<Rightarrow>
   uint256 list \<Rightarrow> uint256 \<Rightarrow> uint256 option result \<Rightarrow> 'acc existing_contract option result \<Rightarrow>
   events_state \<times> events_state \<Rightarrow> unit result \<times> event_type option \<times> events_state \<times> events_state"
where
  "scan_account ton our_public_key hashes eth_configurations ton_configurations hash code_hash
     contract sts =
     (case code_hash of
        Inl e \<Rightarrow> (Inl e, None, sts)
      | Inr None \<Rightarrow> (Inr (), None, sts)
      | Inr (Some h) \<Rightarrow>
     (case hm_get hashes h of
        None \<Rightarrow> (Inr (), None, sts)
      | Some event_type \<Rightarrow>
     (case contract of
        Inl e \<Rightarrow> (Inl e, None, sts)
      | Inr None \<Rightarrow> (Inr (), None, sts)
      | Inr (Some c) \<Rightarrow>
     (case event_process ton c our_public_key (event_type = Ton) of
        Inl e \<Rightarrow> (Inr (), None, sts)
      | Inr Remove \<Rightarrow> (Inr (), None, sts)
      | Inr _ \<Rightarrow>
          (case event_type of
             Eth \<Rightarrow>
               (case eth_event_get_init_data ton c of
                  Inl e \<Rightarrow> (Inr (), None, sts)
                | Inr init_data \<Rightarrow>
                    if eid_configuration init_data \<notin> set eth_configurations then (Inr (), None, sts)
                    else (let (added, st) = add_pending_event hash (fst sts)
                          in (Inr (), if added then Some Eth else None, (st, snd sts))))
           | Ton \<Rightarrow>
               (case ton_event_get_init_data ton c of
                  Inl e \<Rightarrow> (Inr (), None, sts)
                | Inr init_data \<Rightarrow>
                    if tid_configuration init_data \<notin> set ton_configurations then (Inr (), None, sts)
                    else (let (added, st) = add_pending_event hash (snd sts)
                          in (Inr (), if added then Some Ton else None, (fst sts, st)))))))))"

definition unique_eth_event_configurations :: "('abi, 'tabi, 'cell) bridge_state \<Rightarrow> uint256 list" where
  "unique_eth_event_configurations s = map fst (br_eth_configurations s)"

definition unique_ton_event_configurations :: "('abi, 'tabi, 'cell) bridge_state \<Rightarrow> uint256 list" where
  "unique_ton_event_configurations s = map fst (br_ton_configurations s)"

end
