(* ===== verification/Bridge_Events_Props.thy ===== *)
theory Bridge_Events_Props
  imports Bridge_Events Example_Contracts
begin

text \<open>
  The contract of the map of pending events (the locale \<open>pending_registry\<close>), the system of
  handlers and tasks that share it, and the properties of the votes.
\<close>

section \<open>The contract of a registry of pending events\<close>

text \<open>\<open>entry s a\<close> is the flag and the observer of a pending account; \<open>issued\<close> holds every observer
  made so far.\<close>

locale pending_registry =
  fixes invar :: "'s \<Rightarrow> bool"
    and entry :: "'s \<Rightarrow> uint256 \<Rightarrow> (bool \<times> observer) option"
    and issued :: "'s \<Rightarrow> observer set"
    and add :: "uint256 \<Rightarrow> 's \<Rightarrow> bool \<times> 's"
    and remove :: "uint256 \<Rightarrow> 's \<Rightarrow> bool \<times> 's"
    and start :: "uint256 \<Rightarrow> 's \<Rightarrow> bool \<times> 's"
  assumes invar_add: "invar s \<Longrightarrow> invar (snd (add a s))"
    and invar_remove: "invar s \<Longrightarrow> invar (snd (remove a s))"
    and invar_start: "invar s \<Longrightarrow> invar (snd (start a s))"
    and entry_issued: "invar s \<Longrightarrow> entry s a = Some (f, ob) \<Longrightarrow> ob \<in> issued s"
    and entry_unique: "invar s \<Longrightarrow> entry s a = Some (f, ob) \<Longrightarrow> entry s b = Some (g, ob) \<Longrightarrow> a = b"
    and add_new: "invar s \<Longrightarrow> entry s a = None \<Longrightarrow>
      \<exists>ob. ob \<notin> issued s \<and> fst (add a s) \<and> issued (snd (add a s)) = insert ob (issued s) \<and>
        entry (snd (add a s)) = (entry s)(a \<mapsto> (False, ob))"
    and add_dup: "invar s \<Longrightarrow> entry s a \<noteq> None \<Longrightarrow> add a s = (False, s)"
    and fst_remove: "invar s \<Longrightarrow> fst (remove a s) \<longleftrightarrow> entry s a \<noteq> None"
    and entry_remove: "invar s \<Longrightarrow> entry (snd (remove a s)) = (entry s)(a := None)"
    and issued_remove: "invar s \<Longrightarrow> issued (snd (remove a s)) = issued s"
    and start_present: "invar s \<Longrightarrow> entry s a = Some (f, ob) \<Longrightarrow>
      fst (start a s) = (\<not> f) \<and> entry (snd (start a s)) = (entry s)(a \<mapsto> (True, ob))"
    and start_absent: "invar s \<Longrightarrow> entry s a = None \<Longrightarrow> start a s = (False, s)"
    and issued_start: "invar s \<Longrightarrow> issued (snd (start a s)) = issued s"

text \<open>The observers whose processing was started: each once, and flagged while still pending.\<close>

definition started_ok ::
  "(uint256 \<Rightarrow> (bool \<times> observer) option) \<Rightarrow> observer set \<Rightarrow> observer list \<Rightarrow> bool" where
  "started_ok ents obs started \<longleftrightarrow>
     distinct started \<and> set started \<subseteq> obs \<and>
     (\<forall>a f ob. ents a = Some (f, ob) \<longrightarrow> ob \<in> set started \<longrightarrow> f)"

context pending_registry
begin

lemma start_twice: "invar s \<Longrightarrow> \<not> fst (start a (snd (start a s)))"
  using start_absent [of s a] start_present [of s a] invar_start [of s a]
    start_present [OF invar_start, of s a a]
  by (cases "entry s a") auto

lemma start_after_remove: "invar s \<Longrightarrow> \<not> fst (start a (snd (remove a s)))"
  using start_absent [OF invar_remove, of s a a] by (simp add: entry_remove)

lemma started_add:
  assumes "invar s" "started_ok (entry s) (issued s) obs"
  shows "started_ok (entry (snd (add a s))) (issued (snd (add a s))) obs"
proof (cases "entry s a")
  case None
  from add_new [OF assms(1) this] obtain ob where "ob \<notin> issued s"
    "issued (snd (add a s)) = insert ob (issued s)"
    "entry (snd (add a s)) = (entry s)(a \<mapsto> (False, ob))" by blast
  then show ?thesis using assms(2) by (auto simp: started_ok_def split: if_splits) blast+
next
  case (Some e)
  then show ?thesis using assms add_dup [OF assms(1), of a] by simp
qed

lemma started_remove:
  assumes "invar s" "started_ok (entry s) (issued s) obs"
  shows "started_ok (entry (snd (remove a s))) (issued (snd (remove a s))) obs"
  using assms(2) by (auto simp: started_ok_def entry_remove [OF assms(1)] issued_remove [OF assms(1)])

lemma started_again:
  assumes "invar s" "started_ok (entry s) (issued s) obs" "\<not> fst (start a s)"
  shows "started_ok (entry (snd (start a s))) (issued (snd (start a s))) obs"
proof (cases "entry s a")
  case None
  then show ?thesis using assms start_absent [OF assms(1)] by simp
next
  case (Some e)
  obtain f ob where e: "e = (f, ob)" by (cases e)
  show ?thesis
    using assms(2) start_present [OF assms(1), of a f ob] Some
    by (auto simp: started_ok_def e issued_start [OF assms(1)])
qed

lemma started_start:
  assumes "invar s" "started_ok (entry s) (issued s) obs" "fst (start a s)"
  shows "\<exists>ob. entry s a = Some (False, ob) \<and>
    started_ok (entry (snd (start a s))) (issued (snd (start a s))) (obs @ [ob])"
proof -
  obtain f ob where e: "entry s a = Some (f, ob)"
    using assms(3) start_absent [OF assms(1), of a] by (cases "entry s a") auto
  note start = start_present [OF assms(1) e]
  then have f: "\<not> f" using assms(3) by simp
  then have fresh: "ob \<notin> set obs" using assms(2) e by (auto simp: started_ok_def)
  have "b = a" if "entry s b = Some (g, ob)" for b g
    using entry_unique [OF assms(1) that e] .
  then have "started_ok (entry (snd (start a s))) (issued (snd (start a s))) (obs @ [ob])"
    using assms(2) start fresh entry_issued [OF assms(1) e]
    by (auto simp: started_ok_def issued_start [OF assms(1)] split: if_splits) blast+
  then show ?thesis using e f by auto
qed

end

section \<open>The bridge's registry\<close>

definition pending_entry :: "events_state \<Rightarrow> uint256 \<Rightarrow> (bool \<times> observer) option" where
  "pending_entry st a =
     map_option (\<lambda>e. (pe_processing_started e, pe_observer e)) (hm_get (ev_pending st) a)"

definition issued_observers :: "events_state \<Rightarrow> observer set" where
  "issued_observers st = {0..<ev_next_observer st}"

definition events_inv :: "events_state \<Rightarrow> bool" where
  "events_inv st \<longleftrightarrow>
     hm_wf (ev_pending st) \<and>
     (\<forall>a f ob. pending_entry st a = Some (f, ob) \<longrightarrow> ob < ev_next_observer st) \<and>
     (\<forall>a f b g ob. pending_entry st a = Some (f, ob) \<longrightarrow> pending_entry st b = Some (g, ob) \<longrightarrow> a = b)"

lemma hm_contains_pending: "hm_contains a (ev_pending st) \<longleftrightarrow> pending_entry st a \<noteq> None"
  by (simp add: hm_contains_def pending_entry_def)

lemma pending_entry_insert:
  "pending_entry (snd (insert_entry a st)) =
     (if pending_entry st a = None then (pending_entry st)(a \<mapsto> (False, ev_next_observer st))
      else pending_entry st)"
  by (auto simp: insert_entry_def hm_contains_pending Let_def fun_eq_iff)
    (auto simp: pending_entry_def hm_get_insert)

lemma pending_entry_remove:
  "pending_entry (snd (remove_entry a st)) = (pending_entry st)(a := None)"
  by (auto simp: remove_entry_def pending_entry_def hm_get_remove fun_eq_iff)

lemma pending_entry_start:
  "pending_entry (snd (start_processing a st)) =
     (case pending_entry st a of
        None \<Rightarrow> pending_entry st
      | Some (f, ob) \<Rightarrow> (pending_entry st)(a \<mapsto> (True, ob)))"
  by (auto simp: start_processing_def pending_entry_def hm_get_insert fun_eq_iff
      split: option.splits)

lemma fst_insert_entry: "fst (insert_entry a st) \<longleftrightarrow> pending_entry st a = None"
  by (cases "pending_entry st a") (auto simp: insert_entry_def hm_contains_pending Let_def)

lemma insert_entry_dup: "pending_entry st a \<noteq> None \<Longrightarrow> insert_entry a st = (False, st)"
  by (simp add: insert_entry_def hm_contains_pending)

lemma fst_remove_entry: "fst (remove_entry a st) \<longleftrightarrow> pending_entry st a \<noteq> None"
  by (simp add: remove_entry_def hm_contains_pending)

lemma fst_start_processing:
  "fst (start_processing a st) \<longleftrightarrow> (\<exists>ob. pending_entry st a = Some (False, ob))"
  by (auto simp: start_processing_def pending_entry_def split: option.splits)

lemma start_processing_absent: "pending_entry st a = None \<Longrightarrow> start_processing a st = (False, st)"
  by (auto simp: start_processing_def pending_entry_def split: option.splits)

lemma next_observer_simps [simp]:
  "ev_next_observer (snd (insert_entry a st)) =
     (if pending_entry st a = None then Suc (ev_next_observer st) else ev_next_observer st)"
  "ev_next_observer (snd (remove_entry a st)) = ev_next_observer st"
  "ev_next_observer (snd (start_processing a st)) = ev_next_observer st"
  by (auto simp: insert_entry_def remove_entry_def start_processing_def hm_contains_pending Let_def
      split: option.splits)

lemma hm_wf_pending:
  assumes "hm_wf (ev_pending st)"
  shows "hm_wf (ev_pending (snd (insert_entry a st)))"
    and "hm_wf (ev_pending (snd (remove_entry a st)))"
    and "hm_wf (ev_pending (snd (start_processing a st)))"
  using assms
  by (auto simp: insert_entry_def remove_entry_def start_processing_def Let_def split: option.splits)

lemma events_inv_new: "events_inv events_new"
  by (simp add: events_inv_def events_new_def pending_entry_def)

lemma events_inv_insert: "events_inv st \<Longrightarrow> events_inv (snd (insert_entry a st))"
  unfolding events_inv_def pending_entry_insert
  by (auto simp: hm_wf_pending less_Suc_eq split: if_splits)

lemma events_inv_remove: "events_inv st \<Longrightarrow> events_inv (snd (remove_entry a st))"
  unfolding events_inv_def pending_entry_remove
  by (auto simp: hm_wf_pending split: if_splits)

lemma events_inv_start: "events_inv st \<Longrightarrow> events_inv (snd (start_processing a st))"
  unfolding events_inv_def pending_entry_start
  by (auto simp: hm_wf_pending split: if_splits option.splits)

interpretation er: pending_registry events_inv pending_entry issued_observers insert_entry
  remove_entry start_processing
proof (unfold_locales, goal_cases)
  case (1 s a)
  then show ?case by (rule events_inv_insert)
next
  case (2 s a)
  then show ?case by (rule events_inv_remove)
next
  case (3 s a)
  then show ?case by (rule events_inv_start)
next
  case (4 s a f ob)
  then show ?case unfolding events_inv_def issued_observers_def by auto
next
  case (5 s a f ob b g)
  then show ?case unfolding events_inv_def by blast
next
  case (6 s a)
  then show ?case
    by (intro exI [of _ "ev_next_observer s"])
      (auto simp: issued_observers_def fst_insert_entry pending_entry_insert)
next
  case (7 s a)
  then show ?case by (simp add: insert_entry_dup)
next
  case (8 s a)
  show ?case by (rule fst_remove_entry)
next
  case (9 s a)
  show ?case by (rule pending_entry_remove)
next
  case (10 s a)
  show ?case by (simp add: issued_observers_def)
next
  case (11 s a f ob)
  then show ?case by (simp add: fst_start_processing pending_entry_start)
next
  case (12 s a)
  then show ?case by (simp add: start_processing_absent)
next
  case (13 s a)
  show ?case by (simp add: issued_observers_def)
qed

section \<open>Handlers and tasks\<close>

text \<open>
  The tasks that share the registry of one kind of events. \<open>Voting a ob\<close> runs after
  \<open>start_processing\<close> succeeded on the entry with observer \<open>ob\<close>; \<open>Delivering a ob\<close> is in the delivery
  loop. A task that ends, for whatever reason, disappears. \<open>Count_add\<close> and \<open>Count_sub\<close> are counter
  updates whose map operation is done. \<open>evs_started\<close> records the observers whose processing was
  started.
\<close>

datatype event_task =
    Preprocess uint256
  | Update uint256
  | Voting uint256 observer
  | Delivering uint256 observer
  | Count_add
  | Count_sub

record event_system =
  evs_state :: events_state
  evs_tasks :: "event_task multiset"
  evs_started :: "observer list"

definition tasks_after :: "uint256 \<Rightarrow> bool \<Rightarrow> bool \<Rightarrow> event_task multiset" where
  "tasks_after account removed spawn =
     (if removed then {#Count_sub#} else {#}) + (if spawn then {#Update account#} else {#})"

inductive event_step ::
  "('acc, 'tok, 'cell) ton_lib \<Rightarrow> uint256 \<Rightarrow> event_system \<Rightarrow> event_system \<Rightarrow> bool" for ton key where
  Deployed: "insert_entry a (evs_state y) = (True, st) \<Longrightarrow>
    event_step ton key y (y\<lparr>evs_state := st, evs_tasks := evs_tasks y + {#Count_add, Preprocess a#}\<rparr>)"
| Scanned: "insert_entry a (evs_state y) = (True, st) \<Longrightarrow>
    event_step ton key y (y\<lparr>evs_state := st, evs_tasks := evs_tasks y + {#Count_add, Update a#}\<rparr>)"
| Eth_transaction: "process_eth_event key a ev (evs_state y) = (removed, spawn, st) \<Longrightarrow>
    event_step ton key y (y\<lparr>evs_state := st, evs_tasks := evs_tasks y + tasks_after a removed spawn\<rparr>)"
| Ton_transaction: "process_ton_event key a tev (evs_state y) = (removed, spawn, st) \<Longrightarrow>
    event_step ton key y (y\<lparr>evs_state := st, evs_tasks := evs_tasks y + tasks_after a removed spawn\<rparr>)"
| Preprocessed: "evs_tasks y = add_mset (Preprocess a) ts \<Longrightarrow>
    preprocess_event ton key require_all c a (evs_state y) = (r, removed, spawn, st) \<Longrightarrow>
    event_step ton key y (y\<lparr>evs_state := st, evs_tasks := ts + tasks_after a removed spawn\<rparr>)"
| Started: "evs_tasks y = add_mset (Update a) ts \<Longrightarrow>
    start_processing a (evs_state y) = (True, st) \<Longrightarrow>
    pending_entry (evs_state y) a = Some (f, ob) \<Longrightarrow>
    event_step ton key y (y\<lparr>evs_state := st, evs_tasks := ts + {#Voting a ob#},
      evs_started := evs_started y @ [ob]\<rparr>)"
| Not_started: "evs_tasks y = add_mset (Update a) ts \<Longrightarrow>
    start_processing a (evs_state y) = (False, st) \<Longrightarrow>
    event_step ton key y (y\<lparr>evs_state := st, evs_tasks := ts\<rparr>)"
| Vote_dropped: "evs_tasks y = add_mset (Voting a ob) ts \<Longrightarrow>
    remove_entry a (evs_state y) = (removed, st) \<Longrightarrow>
    event_step ton key y (y\<lparr>evs_state := st, evs_tasks := ts + tasks_after a removed False\<rparr>)"
| Vote_delivered: "evs_tasks y = add_mset (Voting a ob) ts \<Longrightarrow>
    delivery_observer a (evs_state y) = Some ob' \<Longrightarrow>
    event_step ton key y (y\<lparr>evs_tasks := ts + {#Delivering a ob'#}\<rparr>)"
| Vote_finished: "evs_tasks y = add_mset (Voting a ob) ts \<Longrightarrow>
    event_step ton key y (y\<lparr>evs_tasks := ts\<rparr>)"
| Delivery_finished: "evs_tasks y = add_mset (Delivering a ob) ts \<Longrightarrow>
    event_step ton key y (y\<lparr>evs_tasks := ts\<rparr>)"
| Counted_add: "evs_tasks y = add_mset Count_add ts \<Longrightarrow>
    event_step ton key y (y\<lparr>evs_state := count_add (evs_state y), evs_tasks := ts\<rparr>)"
| Counted_sub: "evs_tasks y = add_mset Count_sub ts \<Longrightarrow>
    event_step ton key y (y\<lparr>evs_state := count_sub (evs_state y), evs_tasks := ts\<rparr>)"

inductive event_reachable ::
  "('acc, 'tok, 'cell) ton_lib \<Rightarrow> uint256 \<Rightarrow> event_system \<Rightarrow> bool" for ton key where
  Start: "event_reachable ton key \<lparr>evs_state = events_new, evs_tasks = {#}, evs_started = []\<rparr>"
| Step: "event_reachable ton key y \<Longrightarrow> event_step ton key y z \<Longrightarrow> event_reachable ton key z"

text \<open>A handler either leaves the registry alone or removes the entry of its account.\<close>

definition registry_effect :: "uint256 \<Rightarrow> events_state \<Rightarrow> bool \<Rightarrow> events_state \<Rightarrow> bool" where
  "registry_effect a st removed st' \<longleftrightarrow> \<not> removed \<and> st' = st \<or> remove_entry a st = (removed, st')"

lemma eth_effect:
  "process_eth_event key a ev st = (removed, spawn, st') \<Longrightarrow> registry_effect a st removed st'"
  by (cases ev; cases "fst ev"; cases "snd ev")
    (auto simp: process_eth_event_def registry_effect_def Let_def split: if_splits prod.splits)

lemma ton_effect:
  "process_ton_event key a ev st = (removed, spawn, st') \<Longrightarrow> registry_effect a st removed st'"
  by (auto simp: process_ton_event_def registry_effect_def Let_def
      split: if_splits prod.splits ton_event.splits)

lemma preprocess_effect:
  "preprocess_event ton key req c a st = (r, removed, spawn, st') \<Longrightarrow>
   registry_effect a st removed st'"
  by (auto simp: preprocess_event_def registry_effect_def Let_def
      split: sum.splits prod.splits event_action.splits)

section \<open>The invariant of the system\<close>

definition votings :: "event_task multiset \<Rightarrow> observer multiset" where
  "votings ts = image_mset (\<lambda>t. case t of Voting a ob \<Rightarrow> ob | _ \<Rightarrow> 0)
     (filter_mset (\<lambda>t. case t of Voting _ _ \<Rightarrow> True | _ \<Rightarrow> False) ts)"

lemma votings_simps [simp]:
  "votings {#} = {#}"
  "votings (add_mset t ts) =
     (case t of Voting a ob \<Rightarrow> add_mset ob (votings ts) | _ \<Rightarrow> votings ts)"
  "votings (ts + us) = votings ts + votings us"
  by (simp_all add: votings_def split: event_task.splits)

lemma votings_tasks_after [simp]: "votings (tasks_after a removed spawn) = {#}"
  by (simp add: tasks_after_def)

lemma count_tasks_after [simp]:
  "count (tasks_after a removed spawn) Count_add = 0"
  "count (tasks_after a removed spawn) Count_sub = (if removed then 1 else 0)"
  by (simp_all add: tasks_after_def)

definition system_inv :: "event_system \<Rightarrow> bool" where
  "system_inv y \<longleftrightarrow>
     events_inv (evs_state y) \<and>
     started_ok (pending_entry (evs_state y)) (issued_observers (evs_state y)) (evs_started y) \<and>
     votings (evs_tasks y) \<subseteq># mset (evs_started y) \<and>
     of_nat (length (ev_pending (evs_state y))) + of_nat (count (evs_tasks y) Count_sub) =
       ev_count (evs_state y) + of_nat (count (evs_tasks y) Count_add)"

lemma ev_count_simps [simp]:
  "ev_count (snd (insert_entry a st)) = ev_count st"
  "ev_count (snd (remove_entry a st)) = ev_count st"
  "ev_count (snd (start_processing a st)) = ev_count st"
  by (auto simp: insert_entry_def remove_entry_def start_processing_def Let_def
      split: option.splits)

lemma pending_length:
  assumes "events_inv st"
  shows "length (ev_pending (snd (insert_entry a st))) =
      (if fst (insert_entry a st) then Suc (length (ev_pending st)) else length (ev_pending st))"
    and "length (ev_pending st) =
      (if fst (remove_entry a st) then Suc (length (ev_pending (snd (remove_entry a st))))
       else length (ev_pending (snd (remove_entry a st))))"
    and "length (ev_pending (snd (start_processing a st))) = length (ev_pending st)"
proof -
  have wf: "hm_wf (ev_pending st)" using assms by (simp add: events_inv_def)
  have "ev_pending st \<noteq> []" if "hm_contains a (ev_pending st)"
    using that by (auto simp: hm_contains_def)
  then show "length (ev_pending st) =
      (if fst (remove_entry a st) then Suc (length (ev_pending (snd (remove_entry a st))))
       else length (ev_pending (snd (remove_entry a st))))"
    by (auto simp: remove_entry_def hm_remove_length [OF wf])
  show "length (ev_pending (snd (insert_entry a st))) =
      (if fst (insert_entry a st) then Suc (length (ev_pending st)) else length (ev_pending st))"
    by (simp add: insert_entry_def hm_insert_length Let_def)
  show "length (ev_pending (snd (start_processing a st))) = length (ev_pending st)"
    by (auto simp: start_processing_def hm_insert_length hm_contains_def split: option.splits)
qed

lemma count_update_simps [simp]:
  "pending_entry (count_add st) = pending_entry st" "pending_entry (count_sub st) = pending_entry st"
  "issued_observers (count_add st) = issued_observers st"
  "issued_observers (count_sub st) = issued_observers st"
  "ev_pending (count_add st) = ev_pending st" "ev_pending (count_sub st) = ev_pending st"
  "ev_count (count_add st) = ev_count st + 1" "ev_count (count_sub st) = ev_count st - 1"
  "events_inv (count_add st) \<longleftrightarrow> events_inv st" "events_inv (count_sub st) \<longleftrightarrow> events_inv st"
proof -
  show entry: "pending_entry (count_add st) = pending_entry st"
    "pending_entry (count_sub st) = pending_entry st"
    by (simp_all add: pending_entry_def count_add_def count_sub_def fun_eq_iff)
  show "events_inv (count_add st) \<longleftrightarrow> events_inv st" "events_inv (count_sub st) \<longleftrightarrow> events_inv st"
    unfolding events_inv_def entry by (simp_all add: count_add_def count_sub_def)
qed (simp_all add: issued_observers_def count_add_def count_sub_def)

lemma system_inv_effect:
  assumes inv: "system_inv y" and eff: "registry_effect a (evs_state y) removed st"
    and votes: "votings ts \<subseteq># votings (evs_tasks y)"
    and add: "count ts Count_add = count (evs_tasks y) Count_add"
    and sub: "count ts Count_sub = count (evs_tasks y) Count_sub"
  shows "system_inv (y\<lparr>evs_state := st, evs_tasks := ts + tasks_after a removed spawn\<rparr>)"
proof -
  have ev: "events_inv (evs_state y)" and ok: "started_ok (pending_entry (evs_state y))
      (issued_observers (evs_state y)) (evs_started y)"
    using inv by (simp_all add: system_inv_def)
  have votes': "votings ts \<subseteq># mset (evs_started y)"
    using votes inv by (auto simp: system_inv_def intro: subset_mset.trans)
  from eff consider (same) "\<not> removed" "st = evs_state y"
    | (remove) "remove_entry a (evs_state y) = (removed, st)"
    by (auto simp: registry_effect_def)
  then show ?thesis
  proof cases
    case same
    then show ?thesis using inv votes' add sub by (simp add: system_inv_def)
  next
    case remove
    then have st: "st = snd (remove_entry a (evs_state y))"
      and rem: "removed = fst (remove_entry a (evs_state y))" by simp_all
    show ?thesis
      using inv votes' add sub er.invar_remove [OF ev, of a] er.started_remove [OF ev ok, of a]
        pending_length(2) [OF ev, of a]
      unfolding system_inv_def st rem
      by (auto simp: algebra_simps split: if_splits)
  qed
qed

lemma system_inv_step:
  assumes "event_step ton key y z" "system_inv y"
  shows "system_inv z"
  using assms
proof (induction rule: event_step.induct)
  case (Deployed a y st)
  then have st: "st = snd (insert_entry a (evs_state y))" "fst (insert_entry a (evs_state y))"
    by simp_all
  have ev: "events_inv (evs_state y)" and ok: "started_ok (pending_entry (evs_state y))
      (issued_observers (evs_state y)) (evs_started y)"
    using Deployed.prems by (simp_all add: system_inv_def)
  show ?case
    using Deployed.prems er.invar_add [OF ev, of a] er.started_add [OF ev ok, of a]
      pending_length(1) [OF ev, of a] st(2)
    unfolding system_inv_def st(1) by (simp add: algebra_simps)
next
  case (Scanned a y st)
  then have st: "st = snd (insert_entry a (evs_state y))" "fst (insert_entry a (evs_state y))"
    by simp_all
  have ev: "events_inv (evs_state y)" and ok: "started_ok (pending_entry (evs_state y))
      (issued_observers (evs_state y)) (evs_started y)"
    using Scanned.prems by (simp_all add: system_inv_def)
  show ?case
    using Scanned.prems er.invar_add [OF ev, of a] er.started_add [OF ev ok, of a]
      pending_length(1) [OF ev, of a] st(2)
    unfolding system_inv_def st(1) by (simp add: algebra_simps)
next
  case (Eth_transaction a ev y removed spawn st)
  then show ?case by (intro system_inv_effect eth_effect) auto
next
  case (Ton_transaction a ev y removed spawn st)
  then show ?case by (intro system_inv_effect ton_effect) auto
next
  case (Preprocessed y a ts req c r removed spawn st)
  then show ?case by (intro system_inv_effect preprocess_effect) auto
next
  case (Started y a ts st f ob)
  then have st: "st = snd (start_processing a (evs_state y))" "fst (start_processing a (evs_state y))"
    by simp_all
  have ev: "events_inv (evs_state y)" and ok: "started_ok (pending_entry (evs_state y))
      (issued_observers (evs_state y)) (evs_started y)"
    using Started.prems by (simp_all add: system_inv_def)
  have "started_ok (pending_entry st) (issued_observers st) (evs_started y @ [ob])"
    using er.started_start [OF ev ok st(2)] Started(3) st(1) by auto
  then show ?case
    using Started.prems Started(1) er.invar_start [OF ev, of a] pending_length(3) [OF ev, of a]
    unfolding system_inv_def st(1) by simp
next
  case (Not_started y a ts st)
  then have st: "st = snd (start_processing a (evs_state y))" "\<not> fst (start_processing a (evs_state y))"
    by simp_all
  have ev: "events_inv (evs_state y)" and ok: "started_ok (pending_entry (evs_state y))
      (issued_observers (evs_state y)) (evs_started y)"
    using Not_started.prems by (simp_all add: system_inv_def)
  show ?case
    using Not_started.prems Not_started(1) er.invar_start [OF ev, of a]
      er.started_again [OF ev ok st(2)] pending_length(3) [OF ev, of a]
    unfolding system_inv_def st(1) by simp
next
  case (Vote_dropped y a ob ts removed st)
  then show ?case by (intro system_inv_effect) (auto simp: registry_effect_def)
next
  case (Vote_delivered y a ob ts ob')
  then show ?case by (auto simp: system_inv_def dest: subset_mset.order_trans [rotated] mset_subset_eq_insertD)
next
  case (Vote_finished y a ob ts)
  then show ?case by (auto simp: system_inv_def dest: mset_subset_eq_insertD)
next
  case (Counted_add y ts)
  then show ?case
    by (simp add: system_inv_def algebra_simps)
next
  case (Counted_sub y ts)
  then show ?case
    by (simp add: system_inv_def algebra_simps)
qed (simp add: system_inv_def)

lemma system_inv_reachable: "event_reachable ton key y \<Longrightarrow> system_inv y"
proof (induction rule: event_reachable.induct)
  case Start
  then show ?case
    by (simp add: system_inv_def events_inv_new started_ok_def)
      (simp add: events_new_def)
next
  case (Step y z)
  then show ?case using system_inv_step by blast
qed

section \<open>Properties\<close>

text \<open>C5: Each pending event is voted on by at most one task: in every reachable state no two tasks
  vote under the same observer, and an event that some task votes on is marked as started for as
  long as it stays pending.\<close>

theorem one_voting_task_per_event:
  assumes "event_reachable ton key y"
  shows "count (votings (evs_tasks y)) ob \<le> 1 \<and>
    (ob \<in># votings (evs_tasks y) \<longrightarrow>
      (\<forall>a f. pending_entry (evs_state y) a = Some (f, ob) \<longrightarrow> f))"
proof -
  have inv: "votings (evs_tasks y) \<subseteq># mset (evs_started y)"
    and ok: "started_ok (pending_entry (evs_state y)) (issued_observers (evs_state y)) (evs_started y)"
    using system_inv_reachable [OF assms] by (simp_all add: system_inv_def)
  have "count (votings (evs_tasks y)) ob \<le> count (mset (evs_started y)) ob"
    using inv by (simp add: mset_subset_eq_count)
  also have "\<dots> \<le> 1" using ok by (simp add: started_ok_def distinct_count_atmost_1)
  finally have "count (votings (evs_tasks y)) ob \<le> 1" .
  moreover have "ob \<in> set (evs_started y)" if "ob \<in># votings (evs_tasks y)"
    using mset_subset_eqD [OF inv that] by simp
  ultimately show ?thesis using ok by (auto simp: started_ok_def)
qed

text \<open>The exported number of pending events is the size of the map, up to the updates in flight:
  with the additions that still have to be counted it equals, modulo \<open>2^64\<close>, the size of the map
  with the removals that still have to be counted.\<close>

theorem pending_event_count:
  assumes "event_reachable ton key y"
  shows "ev_count (evs_state y) + of_nat (count (evs_tasks y) Count_add) =
    of_nat (length (ev_pending (evs_state y))) + of_nat (count (evs_tasks y) Count_sub)"
  using system_inv_reachable [OF assms] by (simp add: system_inv_def)

text \<open>C4: The relay votes for an event contract exactly when the contract is pending, or, where all
  signatures are wanted, confirmed with at least the minimal balance left, and in both cases the
  relay's key is among the voters that have not voted and the contract has API version 2. A pending
  contract in any other condition is dropped, an initializing one is left to its transactions.\<close>

theorem event_process_vote_iff:
  "(event_process ton c key require_all = Inr Vote \<longleftrightarrow>
      (event_base_status ton c = Inr Pending \<or>
       event_base_status ton c = Inr Confirmed \<and> require_all \<and>
         100000000 \<le> unat (account_balance ton (ec_account c))) \<and>
      (\<exists>voters. event_base_get_voters ton c VoteEmpty = Inr voters \<and> key \<in> set voters) \<and>
      event_base_get_api_version ton c = Inr 2) \<and>
   (event_process ton c key require_all = Inr Nop \<longleftrightarrow> event_base_status ton c = Inr Initializing)"
proof -
  have "MIN_EVENT_BALANCE \<le> b \<longleftrightarrow> 100000000 \<le> unat b" for b
    by (simp add: MIN_EVENT_BALANCE_def word_le_nat_alt)
  moreover have "unwrap_or 0 v = SUPPORTED_API_VERSION \<longleftrightarrow> v = Inr 2" for v
    by (cases v) (simp_all add: SUPPORTED_API_VERSION_def)
  ultimately show ?thesis
    by (cases "event_base_status ton c"; cases "event_base_get_voters ton c VoteEmpty")
      (auto simp: event_process_def Let_def split: event_status.splits)
qed

text \<open>An ETH event is verified with the chain, the emitter, the ABI and the confirmations of the
  configuration that its own contract names, only for a contract the relay votes on, and only on a
  chain with a subscriber; without such a configuration or subscriber the event is removed.\<close>

theorem eth_vote_follows_configuration:
  "update_eth_event_decide ton key has_subscriber configurations (Inr c) =
      EthVerify chain vote_data emitter abi blocks \<longleftrightarrow>
   event_process ton c key False = Inr Vote \<and>
   (\<exists>data configuration. eth_event_get_init_data ton c = Inr data \<and>
      hm_get configurations (eid_configuration data) = Some configuration \<and>
      vote_data = eid_vote_data data \<and>
      chain = eec_chain_id (ecd_network_configuration (ecs_details configuration)) \<and>
      has_subscriber chain \<and>
      emitter = eec_event_emitter (ecd_network_configuration (ecs_details configuration)) \<and>
      abi = ecs_event_abi configuration \<and>
      blocks = eec_event_blocks_to_confirm (ecd_network_configuration (ecs_details configuration)))"
  by (auto simp: update_eth_event_decide_def Let_def
      split: sum.splits option.splits event_action.splits)

text \<open>An observed transaction takes a pending ETH event out of the registry exactly when the voting
  is over, when the relay is not among the round's keys, or when the vote in the transaction is the
  relay's own; it starts a voting task exactly when the relay's key is among the received keys.\<close>

theorem eth_event_handler_exact:
  assumes "pending_entry st account \<noteq> None"
  shows "(fst (process_eth_event key account (ev, status) st) \<longleftrightarrow>
      status \<in> {Confirmed, Rejected} \<or>
      (\<exists>keys. ev = EthReceiveRoundRelays keys \<and> key \<notin> set keys) \<or>
      ev = EthConfirm key \<or> ev = EthReject key) \<and>
    (fst (snd (process_eth_event key account (ev, status) st)) \<longleftrightarrow>
      status \<notin> {Confirmed, Rejected} \<and> (\<exists>keys. ev = EthReceiveRoundRelays keys \<and> key \<in> set keys)) \<and>
    pending_entry (snd (snd (process_eth_event key account (ev, status) st))) =
      (if fst (process_eth_event key account (ev, status) st)
       then (pending_entry st)(account := None) else pending_entry st)"
proof -
  have c: "hm_contains account (ev_pending st)" using assms by (simp add: hm_contains_pending)
  have r: "remove_entry account st = (True, snd (remove_entry account st))"
    using assms by (simp add: prod_eq_iff fst_remove_entry)
  show ?thesis
    using pending_entry_remove [of account st]
    by (cases ev; cases status)
      (auto simp: process_eth_event_def c Let_def subst [OF r, of "\<lambda>x. fst x"] case_prod_unfold
        fst_remove_entry assms)
qed

text \<open>An observed transaction takes a pending TON event out of the registry exactly when it was
  rejected, when it was confirmed and its contract is closed, when the relay is not among the
  round's keys, or when the vote is the relay's own; a confirmed event with enough balance stays, so
  that its signatures can be collected.\<close>

theorem ton_event_handler_exact:
  assumes "pending_entry st account \<noteq> None"
  shows "fst (process_ton_event key account (ev, status) st) \<longleftrightarrow>
      status = Rejected \<or> (status = Confirmed \<and> ev = TonClosed) \<or>
      (\<exists>keys. ev = TonReceiveRoundRelays keys \<and> key \<notin> set keys) \<or>
      ev = TonConfirm key \<or> ev = TonReject key"
proof -
  have c: "hm_contains account (ev_pending st)" using assms by (simp add: hm_contains_pending)
  show ?thesis
    by (cases ev; cases status)
      (auto simp: process_ton_event_def c Let_def case_prod_unfold fst_remove_entry assms)
qed

section \<open>Witnesses\<close>

definition example_pending_events :: events_state where
  "example_pending_events = snd (insert_entry 5 events_new)"

lemma example_pending_entry: "pending_entry example_pending_events = [5 \<mapsto> (False, 0)]"
  by (simp add: example_pending_events_def pending_entry_insert)
    (simp add: pending_entry_def events_new_def fun_eq_iff)

lemma example_process:
  "event_process example_ton_lib (example_contract n) 42 require_all = Inr Vote"
  by (simp add: event_process_def getter_defs SUPPORTED_API_VERSION_def)

lemma example_deployed:
  "event_reachable example_ton_lib 42 \<lparr>evs_state = example_pending_events,
     evs_tasks = {#Count_add, Preprocess 5#}, evs_started = []\<rparr>"
proof -
  have "pending_entry events_new 5 = None" by (simp add: pending_entry_def events_new_def)
  then have "insert_entry 5 (evs_state \<lparr>evs_state = events_new, evs_tasks = {#}, evs_started = []\<rparr>) =
      (True, example_pending_events)"
    by (simp add: example_pending_events_def prod_eq_iff fst_insert_entry)
  from event_reachable.Step [OF event_reachable.Start
      event_step.Deployed [OF this, of example_ton_lib 42]]
  show ?thesis by simp
qed

lemma example_voting:
  "event_reachable example_ton_lib 42 \<lparr>evs_state = snd (start_processing 5 example_pending_events),
     evs_tasks = {#Count_add, Voting 5 0#}, evs_started = [0]\<rparr>"
proof -
  let ?y = "\<lparr>evs_state = example_pending_events, evs_tasks = {#Count_add, Preprocess 5#},
     evs_started = []\<rparr>"
  have pre: "preprocess_event example_ton_lib 42 False (Inr (example_contract 5)) 5 (evs_state ?y) =
      (Inr (), False, True, example_pending_events)"
    by (simp add: preprocess_event_def example_process)
  have "evs_tasks ?y = add_mset (Preprocess 5) {#Count_add#}" by (simp add: add_mset_commute)
  note step = event_step.Preprocessed [OF this pre]
  have update: "event_reachable example_ton_lib 42 \<lparr>evs_state = example_pending_events,
      evs_tasks = {#Count_add, Update 5#}, evs_started = []\<rparr>"
    using event_reachable.Step [OF example_deployed step]
    by (simp add: tasks_after_def add_mset_commute)
  let ?z = "\<lparr>evs_state = example_pending_events, evs_tasks = {#Count_add, Update 5#},
     evs_started = []\<rparr>"
  have start: "start_processing 5 (evs_state ?z) =
      (True, snd (start_processing 5 example_pending_events))"
    by (simp add: prod_eq_iff fst_start_processing example_pending_entry)
  have tasks: "evs_tasks ?z = add_mset (Update 5) {#Count_add#}" by (simp add: add_mset_commute)
  have "pending_entry (evs_state ?z) 5 = Some (False, 0)" by (simp add: example_pending_entry)
  from event_reachable.Step [OF update event_step.Started [OF tasks start this]]
  show ?thesis by (simp add: add_mset_commute)
qed

theorem one_voting_task_per_event_witness:
  "count (votings {#Count_add, Voting 5 0#}) 0 \<le> 1 \<and>
   pending_entry (snd (start_processing 5 example_pending_events)) 5 \<noteq> Some (False, 0)"
  using one_voting_task_per_event [OF example_voting, of 0] by auto

theorem pending_event_count_witness:
  "ev_count example_pending_events + 1 = of_nat (length (ev_pending example_pending_events))"
  using pending_event_count [OF example_deployed] by simp

theorem event_process_vote_iff_witness:
  "event_process example_ton_lib (example_contract 5) 42 False = Inr Vote"
  using event_process_vote_iff [of example_ton_lib "example_contract 5" 42 False]
  by (simp add: getter_defs)

theorem eth_vote_follows_configuration_witness:
  "\<exists>vote_data. update_eth_event_decide example_ton_lib 42 (\<lambda>_. True)
     [(20, \<lparr>ecs_details = example_eth_configuration, ecs_event_abi = (), ecs_observer = 1\<rparr>)]
     (Inr (example_contract 5)) = EthVerify 1 vote_data 1 () 3"
  using eth_vote_follows_configuration [of example_ton_lib 42 "\<lambda>_. True"
      "[(20, \<lparr>ecs_details = example_eth_configuration, ecs_event_abi = (), ecs_observer = 1\<rparr>)]"
      "example_contract 5" 1 "eid_vote_data example_eth_event" 1 "()" 3]
  by (intro exI [of _ "eid_vote_data example_eth_event"])
    (simp add: example_process getter_defs, simp add: example_eth_configuration_def
      example_eth_event_def)

theorem eth_event_handler_exact_witness:
  "fst (process_eth_event 42 5 (EthConfirm 42, Pending) example_pending_events) \<and>
   fst (snd (process_eth_event 42 5 (EthReceiveRoundRelays [42], Pending) example_pending_events))"
  using eth_event_handler_exact [of example_pending_events 5 42 "EthConfirm 42" Pending]
    eth_event_handler_exact [of example_pending_events 5 42 "EthReceiveRoundRelays [42]" Pending]
  by (simp add: example_pending_entry)

theorem ton_event_handler_exact_witness:
  "\<not> fst (process_ton_event 42 5 (TonConfirm 7, Confirmed) example_pending_events) \<and>
   fst (process_ton_event 42 5 (TonClosed, Confirmed) example_pending_events)"
  using ton_event_handler_exact [of example_pending_events 5 42 "TonConfirm 7" Confirmed]
    ton_event_handler_exact [of example_pending_events 5 42 TonClosed Confirmed]
  by (simp add: example_pending_entry)

end
