(* ===== verification/Tristate.thy ===== *)
theory Tristate
  imports Prelude
begin

text \<open>
  \<open>utils/tristate.rs\<close>: an optional boolean kept in an atomic byte. The byte is 0 for
  \<open>Some(false)\<close>, 1 for \<open>Some(true)\<close> and 2 for \<open>None\<close>. The locale \<open>flag_cell\<close> is the
  contract the staking component uses.
\<close>

type_synonym tristate = u8

definition tristate_default :: tristate where
  "tristate_default = 0"

definition tristate_store :: "bool option \<Rightarrow> tristate \<Rightarrow> tristate" where
  "tristate_store data t =
     (case data of Some False \<Rightarrow> 0 | Some True \<Rightarrow> 1 | None \<Rightarrow> 2)"

definition tristate_new :: "bool option \<Rightarrow> tristate" where
  "tristate_new data = tristate_store data tristate_default"

text \<open>\<open>compare_exchange(2, data as u8)\<close>.\<close>

definition tristate_store_if_empty :: "bool \<Rightarrow> tristate \<Rightarrow> tristate" where
  "tristate_store_if_empty data t = (if t = 2 then (if data then 1 else 0) else t)"

definition tristate_load :: "tristate \<Rightarrow> bool option" where
  "tristate_load t = (if t = 0 then Some False else if t = 1 then Some True else None)"

definition tristate_inv :: "tristate \<Rightarrow> bool" where
  "tristate_inv t \<longleftrightarrow> t \<in> {0, 1, 2}"

section \<open>The contract of a flag\<close>

locale flag_cell =
  fixes new :: "bool option \<Rightarrow> 'c"
    and store :: "bool option \<Rightarrow> 'c \<Rightarrow> 'c"
    and store_if_empty :: "bool \<Rightarrow> 'c \<Rightarrow> 'c"
    and load :: "'c \<Rightarrow> bool option"
    and invar :: "'c \<Rightarrow> bool"
  assumes load_new: "load (new d) = d"
    and load_store: "invar c \<Longrightarrow> load (store d c) = d"
    and load_store_if_empty: "invar c \<Longrightarrow>
      load (store_if_empty b c) = (case load c of None \<Rightarrow> Some b | Some x \<Rightarrow> Some x)"
    and invar_new: "invar (new d)"
    and invar_store: "invar c \<Longrightarrow> invar (store d c)"
    and invar_store_if_empty: "invar c \<Longrightarrow> invar (store_if_empty b c)"
begin

lemma store_if_empty_keeps: "invar c \<Longrightarrow> load c = Some x \<Longrightarrow> load (store_if_empty b c) = Some x"
  by (simp add: load_store_if_empty)

lemma store_if_empty_fills: "invar c \<Longrightarrow> load c = None \<Longrightarrow> load (store_if_empty b c) = Some b"
  by (simp add: load_store_if_empty)

lemma reset_then_first_wins:
  "invar c \<Longrightarrow> load (store_if_empty b' (store_if_empty b (store None c))) = Some b"
  by (simp add: load_store_if_empty load_store invar_store invar_store_if_empty)

end

interpretation tri: flag_cell tristate_new tristate_store tristate_store_if_empty tristate_load
  tristate_inv
  by unfold_locales
    (auto simp: tristate_new_def tristate_store_def tristate_store_if_empty_def
      tristate_load_def tristate_inv_def split: option.splits bool.splits)

lemmas tri_load_simps [simp] = tri.load_new tri.load_store tri.load_store_if_empty

lemmas tri_inv_intros [simp, intro] = tri.invar_new tri.invar_store tri.invar_store_if_empty

section \<open>Properties\<close>

text \<open>The atomic byte implements an optional boolean: loading returns what was stored, and
  \<open>store_if_empty\<close> writes exactly when the flag is unset, from any state the operations can
  reach.\<close>

theorem tristate_refines_option:
  assumes "tristate_inv t"
  shows "tristate_load (tristate_new d) = d \<and> tristate_load (tristate_store d t) = d \<and>
    tristate_load (tristate_store_if_empty b t) =
      (case tristate_load t of None \<Rightarrow> Some b | Some x \<Rightarrow> Some x) \<and>
    tristate_inv (tristate_store d t) \<and> tristate_inv (tristate_store_if_empty b t)"
  using assms by simp

theorem tristate_refines_option_witness:
  "tristate_inv 2 \<and> tristate_load (tristate_store_if_empty True 2) = Some True"
proof -
  have inv: "tristate_inv 2" by (simp add: tristate_inv_def)
  have "tristate_load 2 = None" by (simp add: tristate_load_def)
  then show ?thesis using inv tristate_refines_option [OF inv, of None True] by simp
qed

end
