(* ===== verification/Staking.thy ===== *)
theory Staking
  imports Tx_Context Tristate
begin

text \<open>
  \<open>engine/staking/mod.rs\<close>: the relay's part in the elections. The contracts are looked up in one
  view of all shards, \<open>find_acc\<close> (the map that \<open>get_all_shard_accounts\<close> returned, after
  \<open>find_account\<close>). A handler returns the notifications it sends and the tasks it spawns as a list of
  effects. A clock reading is a \<open>u64\<close> of seconds.
\<close>

section \<open>Round state\<close>

datatype elections_state =
    NotStarted u32 \<comment> \<open>start time\<close>
  | Started u32 u32 \<comment> \<open>start time, end time\<close>
  | Finished

record round_state =
  rs_number :: u32
  rs_elections_state :: elections_state
  rs_next_elections_account :: uint256
  rs_min_relay_deposit :: u128

definition get_round_state ::
  "('acc, 'tok, 'cell) ton_lib \<Rightarrow> 'acc existing_contract \<Rightarrow> round_state result" where
  "get_round_state ton c =
     and_then (context_res ''Failed to get relay config'' (staking_get_relay_config ton c))
       (\<lambda>relay_config.
     and_then (context_res ''Failed to get relay_rounds_details'' (staking_get_relay_rounds_details ton c))
       (\<lambda>rounds.
     and_then (context_res ''Failed to get next election address''
         (staking_get_election_address ton c (rrd_current_relay_round rounds + 1)))
       (\<lambda>next_elections_account.
     Inr \<lparr>rs_number = rrd_current_relay_round rounds,
          rs_elections_state =
            (if rrd_current_election_start_time rounds = 0
             then if rrd_current_election_ended rounds then Finished
                  else NotStarted (rrd_current_relay_round_start_time rounds +
                                   rcd_time_before_election relay_config)
             else Started (rrd_current_election_start_time rounds)
                          (rrd_current_election_start_time rounds + rcd_election_time relay_config)),
          rs_next_elections_account = next_elections_account,
          rs_min_relay_deposit = rcd_min_relay_deposit relay_config\<rparr>)))"

definition get_eth_bridge_configuration_details ::
  "('acc, 'tok, 'cell) ton_lib \<Rightarrow> (uint256 \<Rightarrow> 'acc existing_contract option result) \<Rightarrow>
   'acc existing_contract \<Rightarrow> 'cell eth_event_configuration_details result" where
  "get_eth_bridge_configuration_details ton find_acc c =
     and_then (context_res ''Failed to get staking details'' (staking_get_details ton c)) (\<lambda>details.
     and_then (and_then (find_acc (sd_bridge_event_config_eth_ton details))
         (context_opt ''Bridge ETH event configuration not found'')) (\<lambda>configuration_contract.
     context_res ''Failed to get ETH bridge configuration details''
       (eth_configuration_get_details ton configuration_contract)))"

section \<open>Events\<close>

datatype staking_event =
    ElectionStarted election_started_event
  | ElectionEnded election_ended_event
  | RelayRoundInitialized relay_round_initialized_event
  | RelayConfigUpdated relay_config_updated_event

datatype user_data_event =
    RelayKeysUpdated relay_keys_updated_event
  | TonPubkeyConfirmed ton_pubkey_confirmed_event
  | EthAddressConfirmed eth_address_confirmed_event
  | RelayMembershipRequested relay_membership_requested_event
  | DepositProcessed deposit_processed_event

text \<open>The macro \<open>parse_tokens!\<close>.\<close>

definition parse_tokens :: "'r option \<Rightarrow> 'a result \<Rightarrow> ('a \<Rightarrow> 'r) \<Rightarrow> 'r option" where
  "parse_tokens res parsed matched =
     (case parsed of Inr p \<Rightarrow> Some (matched p) | Inl e \<Rightarrow> res)"

definition read_staking_event ::
  "('acc, 'tok, 'cell) ton_lib \<Rightarrow> 'body tx_lib \<Rightarrow> ('acc, 'body) tx_context \<Rightarrow>
   (round_state \<times> staking_event) option" where
  "read_staking_event ton lib ctx =
     Option.bind
       (iterate_events (tx_read_function_id lib)
          (\<lambda>i body res.
             if i = tx_event_id lib abi_staking_event_election_started
             then parse_tokens res (tx_decode_election_started lib body) ElectionStarted
             else if i = tx_event_id lib abi_staking_event_election_ended
             then parse_tokens res (tx_decode_election_ended lib body) ElectionEnded
             else if i = tx_event_id lib abi_staking_event_relay_round_initialized
             then parse_tokens res (tx_decode_round_initialized lib body) RelayRoundInitialized
             else if i = tx_event_id lib abi_staking_event_relay_config_updated
             then parse_tokens res (tx_decode_config_updated lib body) RelayConfigUpdated
             else res)
          (ctx_out_msgs ctx) None)
       (\<lambda>res. case and_then (get_account_state ctx) (get_round_state ton) of
                Inr state \<Rightarrow> Some (state, res)
              | Inl e \<Rightarrow> None)"

definition read_user_data_event ::
  "'body tx_lib \<Rightarrow> ('acc, 'body) tx_context \<Rightarrow> user_data_event option" where
  "read_user_data_event lib ctx =
     iterate_events (tx_read_function_id lib)
       (\<lambda>i body res.
          if i = tx_event_id lib abi_user_data_event_relay_keys_updated
          then parse_tokens res (tx_decode_relay_keys_updated lib body) RelayKeysUpdated
          else if i = tx_event_id lib abi_user_data_event_ton_pubkey_confirmed
          then parse_tokens res (tx_decode_ton_pubkey_confirmed lib body) TonPubkeyConfirmed
          else if i = tx_event_id lib abi_user_data_event_eth_address_confirmed
          then parse_tokens res (tx_decode_eth_address_confirmed lib body) EthAddressConfirmed
          else if i = tx_event_id lib abi_user_data_event_relay_membership_requested
          then parse_tokens res (tx_decode_membership_requested lib body) RelayMembershipRequested
          else if i = tx_event_id lib abi_user_data_event_deposit_processed
          then parse_tokens res (tx_decode_deposit_processed lib body) DepositProcessed
          else res)
       (ctx_out_msgs ctx) None"

section \<open>State\<close>

record staking =
  stk_user_data_balance :: u128
  stk_round :: round_state
  stk_participates_in_round :: tristate
  stk_elected :: tristate
  stk_staking_account :: uint256
  stk_user_data_account :: uint256

text \<open>What the engine context contributes.\<close>

record staking_context =
  sc_staker_account :: uint256
  sc_ignore_elections :: bool
  sc_ton_public_key :: uint256
  sc_eth_address :: h160

datatype staking_effect =
    NotifyElectionsStart
  | NotifyElectionsEnd
  | NotifyRelayRoundStarted
  | NotifyRelayConfigUpdated
  | NotifyBalanceChanged
  | SpawnBecomeRelay
  | SpawnUpdateParticipates
  | SpawnGetReward u32 u32 \<comment> \<open>round, end time\<close>
  | RequestShutdown
  | SubscribeAccount uint256 \<comment> \<open>an observer's \<open>add_transactions_subscription\<close>\<close>
  | BecomeRelay \<comment> \<open>\<open>new\<close> itself runs \<open>become_relay_next_round\<close>\<close>
  | StartManagingElections

definition process_staking_event ::
  "staking_context \<Rightarrow> round_state \<times> staking_event \<Rightarrow> staking \<Rightarrow> staking_effect list \<times> staking" where
  "process_staking_event ctx rse s =
     (let (round_state, event) = rse;
          s1 = s\<lparr>stk_round := round_state,
                 stk_elected := (case rs_elections_state round_state of
                     NotStarted _ \<Rightarrow> tristate_store None (stk_elected s)
                   | _ \<Rightarrow> stk_elected s)\<rparr>
      in case event of
           ElectionStarted _ \<Rightarrow>
             (NotifyElectionsStart # (if sc_ignore_elections ctx then [] else [SpawnBecomeRelay]),
              s1\<lparr>stk_elected := tristate_store_if_empty False (stk_elected s1)\<rparr>)
         | ElectionEnded _ \<Rightarrow> ([NotifyElectionsEnd], s1)
         | RelayRoundInitialized event \<Rightarrow>
             ([NotifyRelayRoundStarted, SpawnUpdateParticipates,
               SpawnGetReward (rri_round_num event) (rri_round_end_time event)],
              s1\<lparr>stk_participates_in_round := tristate_store None (stk_participates_in_round s1)\<rparr>)
         | RelayConfigUpdated _ \<Rightarrow> ([NotifyRelayConfigUpdated], s1))"

definition process_user_data_event ::
  "staking_context \<Rightarrow> user_data_event \<Rightarrow> staking \<Rightarrow> staking_effect list \<times> staking" where
  "process_user_data_event ctx event s =
     (case event of
        RelayKeysUpdated event \<Rightarrow>
          (if rku_ton_pubkey event \<noteq> sc_ton_public_key ctx \<or> rku_eth_address event \<noteq> sc_eth_address ctx
           then [RequestShutdown] else [], s)
      | RelayMembershipRequested event \<Rightarrow>
          ([], s\<lparr>stk_elected := tristate_store (Some True) (stk_elected s)\<rparr>)
      | DepositProcessed event \<Rightarrow>
          ([NotifyBalanceChanged], s\<lparr>stk_user_data_balance := dpe_new_balance event\<rparr>)
      | _ \<Rightarrow> ([], s))"

section \<open>Startup\<close>

text \<open>One pass of the loop in \<open>new\<close>: \<open>Inr None\<close> waits for the next state of the shards.\<close>

definition staking_new_attempt ::
  "('acc, 'tok, 'cell) ton_lib \<Rightarrow> staking_context \<Rightarrow> uint256 \<Rightarrow>
   (uint256 \<Rightarrow> 'acc existing_contract option result) \<Rightarrow>
   (relay_round_details \<times> round_state \<times> uint256) option result" where
  "staking_new_attempt ton ctx staking_account find_acc =
     and_then (and_then (find_acc staking_account) (context_opt ''Staking contract not found''))
       (\<lambda>staking_contract.
     and_then (context_res ''Current relay round not found'' (get_round_state ton staking_contract))
       (\<lambda>relay_round_state.
     and_then (context_res ''Failed to get current relay round address''
         (staking_get_relay_round_address ton staking_contract (rs_number relay_round_state)))
       (\<lambda>relay_round_address.
     and_then (find_acc relay_round_address) (\<lambda>relay_round_contract.
       case relay_round_contract of
         None \<Rightarrow> Inr None
       | Some contract \<Rightarrow>
           and_then (context_res ''Failed to get relay round details''
               (relay_round_get_details ton contract)) (\<lambda>relay_round_details.
           if \<not> rd_relays_installed relay_round_details then Inr None
           else
           and_then (context_res ''User data account not found''
               (staking_get_user_data_address ton staking_contract (sc_staker_account ctx)))
             (\<lambda>user_data_account.
           Inr (Some (relay_round_details, relay_round_state, user_data_account))))))))"

definition check_elected ::
  "('acc, 'tok, 'cell) ton_lib \<Rightarrow> staking_context \<Rightarrow>
   (uint256 \<Rightarrow> 'acc existing_contract option result) \<Rightarrow> uint256 \<Rightarrow> bool result" where
  "check_elected ton ctx find_acc elections_account =
     and_then (and_then (find_acc elections_account)
         (context_opt ''Next elections contract not found'')) (\<lambda>elections_contract.
     and_then (context_res ''Failed to get staker addresses from next elections contract''
         (elections_staker_addrs ton elections_contract)) (\<lambda>staker_addrs.
     Inr (sc_staker_account ctx \<in> set staker_addrs)))"

text \<open>\<open>new\<close> from the view its loop ended with: the object, and whether the relay votes at once.\<close>

definition staking_new_finish ::
  "('acc, 'tok, 'cell) ton_lib \<Rightarrow> staking_context \<Rightarrow> uint256 \<Rightarrow>
   (uint256 \<Rightarrow> 'acc existing_contract option result) \<Rightarrow>
   relay_round_details \<times> round_state \<times> uint256 \<Rightarrow> (staking \<times> bool) result" where
  "staking_new_finish ton ctx staking_account find_acc found =
     (let (relay_round_details, relay_round_state, user_data_account) = found
      in and_then (and_then (find_acc user_data_account)
             (context_opt ''User data account not found'')) (\<lambda>user_data_contract.
         and_then (context_res ''Failed to get user data details''
             (user_data_get_details ton user_data_contract)) (\<lambda>user_data.
         and_then
           (case rs_elections_state relay_round_state of
              NotStarted _ \<Rightarrow> Inr (False, None)
            | Started _ _ \<Rightarrow>
                and_then (check_elected ton ctx find_acc (rs_next_elections_account relay_round_state))
                  (\<lambda>elected. Inr (\<not> sc_ignore_elections ctx \<and> \<not> elected, Some elected))
            | Finished \<Rightarrow>
                and_then (check_elected ton ctx find_acc (rs_next_elections_account relay_round_state))
                  (\<lambda>elected. Inr (False, Some elected)))
           (\<lambda>(should_vote, elected).
              Inr (\<lparr>stk_user_data_balance = ud_token_balance user_data,
                    stk_round = relay_round_state,
                    stk_participates_in_round = tristate_new (Some
                      (sc_staker_account ctx \<in> set (rd_staker_addrs relay_round_details))),
                    stk_elected = tristate_new elected,
                    stk_staking_account = staking_account,
                    stk_user_data_account = user_data_account\<rparr>, should_vote)))))"

text \<open>The loop of \<open>new\<close> over the views it gets, one after another; \<open>None\<close> while it still
  waits.\<close>

fun staking_new_loop ::
  "('acc, 'tok, 'cell) ton_lib \<Rightarrow> staking_context \<Rightarrow> uint256 \<Rightarrow>
   (uint256 \<Rightarrow> 'acc existing_contract option result) result list \<Rightarrow> (staking \<times> bool) result option"
where
  "staking_new_loop ton ctx staking_account [] = None"
| "staking_new_loop ton ctx staking_account (view # views) =
     (case and_then view (staking_new_attempt ton ctx staking_account) of
        Inl e \<Rightarrow> Some (Inl e)
      | Inr None \<Rightarrow> staking_new_loop ton ctx staking_account views
      | Inr (Some found) \<Rightarrow>
          Some (and_then view (\<lambda>find_acc.
            staking_new_finish ton ctx staking_account find_acc found)))"

section \<open>Rewards\<close>

text \<open>\<open>try_collect_reward\<close>: the task it spawns, if any.\<close>

definition try_collect_reward ::
  "('acc, 'tok, 'cell) ton_lib \<Rightarrow> staking_context \<Rightarrow>
   (uint256 \<Rightarrow> 'acc existing_contract option result) \<Rightarrow> 'acc existing_contract \<Rightarrow> u32 \<Rightarrow>
   staking_effect list result" where
  "try_collect_reward ton ctx find_acc staking_contract relay_round =
     and_then (context_res ''Failed to compute relay round address''
         (staking_get_relay_round_address ton staking_contract relay_round)) (\<lambda>relay_round_address.
       case find_acc relay_round_address of
         Inl e \<Rightarrow> Inr []
       | Inr None \<Rightarrow> Inr []
       | Inr (Some relay_round_contract) \<Rightarrow>
           if relay_round_has_unclaimed_reward ton relay_round_contract (sc_staker_account ctx) =
                Inr False
           then Inr []
           else case relay_round_end_time ton relay_round_contract of
                  Inr end_time \<Rightarrow> Inr [SpawnGetReward relay_round end_time]
                | Inl e \<Rightarrow> Inr [])"

fun collect_rounds :: "(u32 \<Rightarrow> 'e list result) \<Rightarrow> u32 list \<Rightarrow> unit result \<times> 'e list" where
  "collect_rounds try_collect [] = (Inr (), [])"
| "collect_rounds try_collect (round # rounds) =
     (case try_collect round of
        Inl e \<Rightarrow> (Inl e, [])
      | Inr effects \<Rightarrow>
          (let (r, rest) = collect_rounds try_collect rounds in (r, effects @ rest)))"

text \<open>\<open>oldest..=current\<close> backwards, \<open>oldest\<close> two rounds before the current one but not below 0.\<close>

definition reward_rounds :: "u32 \<Rightarrow> u32 list" where
  "reward_rounds current_round =
     rev (map of_nat [unat current_round - 2..<Suc (unat current_round)])"

definition collect_all_unclaimed_reward ::
  "('acc, 'tok, 'cell) ton_lib \<Rightarrow> staking_context \<Rightarrow> uint256 \<Rightarrow>
   (uint256 \<Rightarrow> 'acc existing_contract option result) result \<Rightarrow> unit result \<times> staking_effect list" where
  "collect_all_unclaimed_reward ton ctx staking_account view =
     (case and_then view (\<lambda>find_acc.
             and_then (and_then (find_acc staking_account) (context_opt ''Staking contract not found''))
               (\<lambda>staking_contract.
             and_then (context_res ''Failed to get relay rounds details''
                 (staking_get_relay_rounds_details ton staking_contract)) (\<lambda>rounds.
             Inr (find_acc, staking_contract, rrd_current_relay_round rounds)))) of
        Inl e \<Rightarrow> (Inl e, [])
      | Inr (find_acc, staking_contract, current_round) \<Rightarrow>
          collect_rounds (try_collect_reward ton ctx find_acc staking_contract)
            (reward_rounds current_round))"

text \<open>The wait of \<open>get_reward_for_relay_round\<close>, in seconds.\<close>

definition saturating_sub :: "u64 \<Rightarrow> u64 \<Rightarrow> u64" where
  "saturating_sub a b = (if b \<le> a then a - b else 0)"

definition ROUND_OFFSET :: u64 where
  "ROUND_OFFSET = 10"

definition get_reward_delay :: "u32 \<Rightarrow> u64 \<Rightarrow> u64" where
  "get_reward_delay end_time now = saturating_sub (ucast end_time) now + ROUND_OFFSET"

section \<open>Participation\<close>

definition update_participates_in_round_status ::
  "('acc, 'tok, 'cell) ton_lib \<Rightarrow> (uint256 \<Rightarrow> 'acc existing_contract option result) result \<Rightarrow>
   staking \<Rightarrow> unit result \<times> staking" where
  "update_participates_in_round_status ton view s =
     (case and_then view (\<lambda>find_acc.
             and_then (and_then (find_acc (stk_staking_account s))
                 (context_opt ''Staking contract not found'')) (\<lambda>staking_contract.
             and_then (context_res ''Failed to get relay_rounds_details''
                 (staking_get_relay_rounds_details ton staking_contract)) (\<lambda>rounds.
             and_then (context_res ''Failed to compute relay round address''
                 (staking_get_relay_round_address ton staking_contract
                    (rrd_current_relay_round rounds))) (\<lambda>relay_round_address.
             and_then (and_then (find_acc relay_round_address)
                 (context_opt ''Current relay round contract not found'')) (\<lambda>relay_round_contract.
             context_res ''Failed to get relay round details''
               (relay_round_get_details ton relay_round_contract)))))) of
        Inl e \<Rightarrow> (Inl e, s)
      | Inr details \<Rightarrow>
          (Inr (), s\<lparr>stk_participates_in_round := tristate_store_if_empty
             (stk_staking_account s \<in> set (rd_staker_addrs details)) (stk_participates_in_round s)\<rparr>))"

section \<open>Elections\<close>

text \<open>What a pass of the elections management loop does after it read the state at \<open>now\<close>: wait and
  then start or end the election, or wait for the new round. The message is sent when the wait ends
  before a notification cancels it.\<close>

datatype pending_elections_state =
    StartElectionAfter u64
  | EndElectionAfter u64
  | WaitNewRound

definition elections_action :: "elections_state \<Rightarrow> u64 \<Rightarrow> pending_elections_state" where
  "elections_action state now =
     (case state of
        NotStarted start_time \<Rightarrow> StartElectionAfter (saturating_sub (ucast start_time) now)
      | Started _ end_time \<Rightarrow> EndElectionAfter (saturating_sub (ucast end_time) now)
      | Finished \<Rightarrow> WaitNewRound)"

text \<open>Which notifications complete a future of a pass that was set up for a state: the other branches of
  the \<open>select!\<close> around the action, and the new round for finished elections. When the wait is really
  cancelled is up to the \<open>select!\<close> (\<open>Elections_Loop\<close>).\<close>

definition elections_loop_wakes :: "elections_state \<Rightarrow> staking_effect list \<Rightarrow> bool" where
  "elections_loop_wakes state effects =
     (case state of
        NotStarted _ \<Rightarrow>
          NotifyElectionsStart \<in> set effects \<or> NotifyRelayConfigUpdated \<in> set effects
      | Started _ _ \<Rightarrow>
          NotifyElectionsEnd \<in> set effects \<or> NotifyRelayConfigUpdated \<in> set effects
      | Finished \<Rightarrow> NotifyRelayRoundStarted \<in> set effects)"

definition start_election_message :: "staking \<Rightarrow> unsigned_message" where
  "start_election_message s =
     unsigned_message_new abi_staking_start_election_on_new_round (stk_staking_account s)"

definition end_election_message :: "staking \<Rightarrow> unsigned_message" where
  "end_election_message s = unsigned_message_new abi_staking_end_election (stk_staking_account s)"

text \<open>The loop of \<open>become_relay_next_round\<close> over the balances and minimal deposits it sees on each
  wake-up: the number of waits before the message is sent.\<close>

fun become_relay_waits :: "(u128 \<times> u128) list \<Rightarrow> nat option" where
  "become_relay_waits [] = None"
| "become_relay_waits ((user_data_balance, min_relay_deposit) # seen) =
     (if user_data_balance \<ge> min_relay_deposit then Some 0
      else map_option Suc (become_relay_waits seen))"

definition become_relay_message :: "staking \<Rightarrow> unsigned_message" where
  "become_relay_message s =
     unsigned_message_new abi_user_data_become_relay_next_round (stk_user_data_account s)"

record staking_metrics_data =
  smt_current_relay_round :: u32
  smt_user_data_tokens_balance :: u128
  smt_elections_state :: elections_state
  smt_ignore_elections :: bool
  smt_participates_in_round :: "bool option"
  smt_elected :: "bool option"

definition staking_metrics :: "staking_context \<Rightarrow> staking \<Rightarrow> staking_metrics_data" where
  "staking_metrics ctx s =
     \<lparr>smt_current_relay_round = rs_number (stk_round s),
      smt_user_data_tokens_balance = stk_user_data_balance s,
      smt_elections_state = rs_elections_state (stk_round s),
      smt_ignore_elections = sc_ignore_elections ctx,
      smt_participates_in_round = tristate_load (stk_participates_in_round s),
      smt_elected = tristate_load (stk_elected s)\<rparr>"

section \<open>Confirmation of the relay's keys\<close>

definition confirm_ton_account_message :: "uint256 \<Rightarrow> unsigned_message" where
  "confirm_ton_account_message user_data_account =
     unsigned_message_new abi_user_data_confirm_ton_account user_data_account"

text \<open>The listener that \<open>ensure_verified\<close> spawns: which of the two notifications an event triggers.\<close>

definition confirmation_notified ::
  "staking_context \<Rightarrow> user_data_event \<Rightarrow> bool \<times> bool" where
  "confirmation_notified ctx event =
     (case event of
        TonPubkeyConfirmed event \<Rightarrow> (tpc_ton_pubkey event = sc_ton_public_key ctx, False)
      | EthAddressConfirmed event \<Rightarrow> (False, eac_eth_addr event = sc_eth_address ctx)
      | _ \<Rightarrow> (False, False))"

text \<open>\<open>ensure_verified\<close>: \<open>None\<close> while it waits. \<open>deliver\<close> is the outcome of delivering a message, \<open>None\<close>
  while it is on its way; \<open>verify_eth\<close> the outcome of \<open>verify_relay_staker_address\<close> on the subscriber
  of a chain, if there is one; \<open>events\<close> are the events of the user data account since the observer
  subscribed. A \<open>Notified\<close> future counts from its creation, so the final \<open>join\<close> returns once each
  notification has been given: at once for a key that is confirmed already, and otherwise by an
  event. The result says which of the two confirmations were sent.\<close>

definition ensure_verified ::
  "staking_context \<Rightarrow> uint256 \<Rightarrow> (unsigned_message \<Rightarrow> unit result option) \<Rightarrow>
   (u32 \<Rightarrow> (h160 \<Rightarrow> unit result) option) \<Rightarrow> 'cell eth_event_configuration_details \<Rightarrow>
   user_data_details result \<Rightarrow> user_data_event list \<Rightarrow> (bool \<times> bool) result option" where
  "ensure_verified ctx user_data_account deliver verify_eth bridge_event_configuration details events =
     (case context_res ''Failed to get UserData details'' details of
        Inl e \<Rightarrow> Some (Inl e)
      | Inr details \<Rightarrow>
     if ud_relay_eth_address details \<noteq> sc_eth_address ctx
     then Some (Inl (StakingErr UserDataEthAddressMismatch))
     else if ud_relay_ton_pubkey details \<noteq> sc_ton_public_key ctx
     then Some (Inl (StakingErr UserDataTonPublicKeyMismatch))
     else
     (case (if ud_ton_pubkey_confirmed details then Some (Inr ())
            else map_option (context_res ''Failed confirming TON public key'')
                   (deliver (confirm_ton_account_message user_data_account))) of
        None \<Rightarrow> None
      | Some (Inl e) \<Rightarrow> Some (Inl e)
      | Some (Inr _) \<Rightarrow>
     (case (if ud_eth_address_confirmed details then Inr ()
            else (case verify_eth (eec_chain_id
                     (ecd_network_configuration bridge_event_configuration)) of
                    None \<Rightarrow> Inl (StakingErr RequiredEthNetworkNotFound)
                  | Some verify \<Rightarrow>
                      context_res ''Failed confirming ETH address''
                        (verify (eec_event_emitter
                           (ecd_network_configuration bridge_event_configuration))))) of
        Inl e \<Rightarrow> Some (Inl e)
      | Inr _ \<Rightarrow>
          (let ton_notified = ud_ton_pubkey_confirmed details \<or>
                 list_ex (\<lambda>event. fst (confirmation_notified ctx event)) events;
               eth_notified = ud_eth_address_confirmed details \<or>
                 list_ex (\<lambda>event. snd (confirmation_notified ctx event)) events
           in if ton_notified \<and> eth_notified
              then Some (Inr (\<not> ud_ton_pubkey_confirmed details, \<not> ud_eth_address_confirmed details))
              else None))))"

definition ensure_user_data_confirmed ::
  "('acc, 'tok, 'cell) ton_lib \<Rightarrow> staking_context \<Rightarrow> (unsigned_message \<Rightarrow> unit result option) \<Rightarrow>
   (u32 \<Rightarrow> (h160 \<Rightarrow> unit result) option) \<Rightarrow> uint256 \<Rightarrow>
   (uint256 \<Rightarrow> 'acc existing_contract option result) result \<Rightarrow> user_data_event list \<Rightarrow>
   (bool \<times> bool) result option" where
  "ensure_user_data_confirmed ton ctx deliver verify_eth staking_account view events =
     (case
        and_then view (\<lambda>find_acc.
        and_then (and_then (find_acc staking_account) (context_opt ''Staking contract not found''))
          (\<lambda>staking_contract.
        and_then (get_eth_bridge_configuration_details ton find_acc staking_contract)
          (\<lambda>bridge_event_configuration.
        and_then (staking_get_user_data_address ton staking_contract (sc_staker_account ctx))
          (\<lambda>user_data_account.
        and_then (and_then (find_acc user_data_account) (context_opt ''User data account not found''))
          (\<lambda>user_data_contract.
        Inr (bridge_event_configuration, user_data_account, user_data_contract)))))) of
        Inl e \<Rightarrow> Some (Inl e)
      | Inr (bridge_event_configuration, user_data_account, user_data_contract) \<Rightarrow>
          ensure_verified ctx user_data_account deliver verify_eth bridge_event_configuration
            (user_data_get_details ton user_data_contract) events)"

section \<open>The whole of \<open>new\<close>\<close>

text \<open>\<open>become_relay_next_round\<close> over the balances and minimal deposits it sees: \<open>None\<close> while it waits for
  a balance or for the delivery.\<close>

definition become_relay_next_round ::
  "(unsigned_message \<Rightarrow> unit result option) \<Rightarrow> (u128 \<times> u128) list \<Rightarrow> staking \<Rightarrow> unit result option" where
  "become_relay_next_round deliver seen s =
     (case become_relay_waits seen of
        None \<Rightarrow> None
      | Some waits \<Rightarrow> deliver (become_relay_message s))"

text \<open>What happens while \<open>new\<close> runs: the events of the user data account during the confirmation, what
  the election task of \<open>new\<close> sees, and whether the elections end before it is done.\<close>

record staking_start =
  sst_events :: "user_data_event list"
  sst_seen :: "(u128 \<times> u128) list"
  sst_elections_end :: bool

text \<open>The keys are confirmed from the first view, the object is built from the first of \<open>views\<close> that
  has the current round, \<open>new\<close> waits in its \<open>select!\<close> until the relay has asked to be elected (whatever
  comes of it) or the elections end, and the rewards are collected from \<open>reward_view\<close>. An error of the
  last part ends \<open>new\<close> with that error. \<open>None\<close> while it still waits.\<close>

definition staking_new ::
  "('acc, 'tok, 'cell) ton_lib \<Rightarrow> staking_context \<Rightarrow> (unsigned_message \<Rightarrow> unit result option) \<Rightarrow>
   (u32 \<Rightarrow> (h160 \<Rightarrow> unit result) option) \<Rightarrow> uint256 \<Rightarrow>
   (uint256 \<Rightarrow> 'acc existing_contract option result) result \<Rightarrow>
   (uint256 \<Rightarrow> 'acc existing_contract option result) result list \<Rightarrow>
   (uint256 \<Rightarrow> 'acc existing_contract option result) result \<Rightarrow> staking_start \<Rightarrow>
   (staking \<times> staking_effect list) result option" where
  "staking_new ton ctx deliver verify_eth staking_account confirm_view views reward_view start =
     (case map_option (context_res ''Failed to ensure that user data is confirmed'')
             (ensure_user_data_confirmed ton ctx deliver verify_eth staking_account confirm_view
                (sst_events start)) of
        None \<Rightarrow> None
      | Some (Inl e) \<Rightarrow> Some (Inl e)
      | Some (Inr _) \<Rightarrow>
          (case staking_new_loop ton ctx staking_account views of
             None \<Rightarrow> None
           | Some (Inl e) \<Rightarrow> Some (Inl e)
           | Some (Inr (s, should_vote)) \<Rightarrow>
               if should_vote \<and> become_relay_next_round deliver (sst_seen start) s = None \<and>
                  \<not> sst_elections_end start
               then None
               else
               (case collect_all_unclaimed_reward ton ctx staking_account reward_view of
                  (Inl e, _) \<Rightarrow> Some (Inl e)
                | (Inr _, rewards) \<Rightarrow>
                    Some (Inr (s,
                      [SubscribeAccount staking_account, SubscribeAccount (stk_user_data_account s)] @
                      (if should_vote then [BecomeRelay] else []) @
                      [StartManagingElections] @ rewards)))))"

end
