(* ===== verification/Staking_Props.thy ===== *)
theory Staking_Props
  imports Staking Example_Contracts
begin

text \<open>
  The staking component: what the relay knows about the elections after any history of events, how
  rewards are collected, and how a relay starts. The two
  flags are used through the contract \<open>flag_cell\<close> (interpretation \<open>tri\<close>).
\<close>

section \<open>Histories of events\<close>

datatype 'acc staking_input =
    StakingInput round_state staking_event
  | UserDataInput user_data_event
  | RefreshInput "(uint256 \<Rightarrow> 'acc existing_contract option result) result"
      \<comment> \<open>a task of \<open>update_participates_in_round_status\<close> ends\<close>

definition staking_handle ::
  "('acc, 'tok, 'cell) ton_lib \<Rightarrow> staking_context \<Rightarrow> 'acc staking_input \<Rightarrow> staking \<Rightarrow> staking"
where
  "staking_handle ton ctx input s =
     (case input of
        StakingInput round_state event \<Rightarrow> snd (process_staking_event ctx (round_state, event) s)
      | UserDataInput event \<Rightarrow> snd (process_user_data_event ctx event s)
      | RefreshInput view \<Rightarrow> snd (update_participates_in_round_status ton view s))"

definition staking_run ::
  "('acc, 'tok, 'cell) ton_lib \<Rightarrow> staking_context \<Rightarrow> 'acc staking_input list \<Rightarrow> staking \<Rightarrow> staking"
where
  "staking_run ton ctx inputs s = fold (staking_handle ton ctx) inputs s"

definition staking_inv :: "staking \<Rightarrow> bool" where
  "staking_inv s \<longleftrightarrow>
     tristate_inv (stk_elected s) \<and> tristate_inv (stk_participates_in_round s)"

fun resets_elected :: "'acc staking_input \<Rightarrow> bool" where
  "resets_elected (StakingInput rs event) = (\<exists>t. rs_elections_state rs = NotStarted t)"
| "resets_elected _ = False"

fun starts_election :: "'acc staking_input \<Rightarrow> bool" where
  "starts_election (StakingInput rs (ElectionStarted _)) = True"
| "starts_election _ = False"

fun requests_membership :: "'acc staking_input \<Rightarrow> bool" where
  "requests_membership (UserDataInput (RelayMembershipRequested _)) = True"
| "requests_membership _ = False"

fun starts_round :: "'acc staking_input \<Rightarrow> bool" where
  "starts_round (StakingInput rs (RelayRoundInitialized _)) = True"
| "starts_round _ = False"

lemmas staking_handle_defs = staking_handle_def process_staking_event_def
  process_user_data_event_def update_participates_in_round_status_def Let_def

lemma staking_handle_inv [simp, intro]:
  "staking_inv s \<Longrightarrow> staking_inv (staking_handle ton ctx input s)"
  by (auto simp: staking_handle_defs staking_inv_def
      split: staking_input.splits staking_event.splits user_data_event.splits sum.splits
        elections_state.splits)

lemma staking_run_inv [simp, intro]: "staking_inv s \<Longrightarrow> staking_inv (staking_run ton ctx inputs s)"
  by (induction inputs arbitrary: s) (simp_all add: staking_run_def)

lemma staking_run_simps [simp]:
  "staking_run ton ctx [] s = s"
  "staking_run ton ctx (input # inputs) s =
     staking_run ton ctx inputs (staking_handle ton ctx input s)"
  "staking_run ton ctx (pre @ post) s = staking_run ton ctx post (staking_run ton ctx pre s)"
  by (simp_all add: staking_run_def)

text \<open>One input on the flag \<open>elected\<close>.\<close>

lemma elected_step:
  assumes "staking_inv s"
  shows "tristate_load (stk_elected (staking_handle ton ctx input s)) =
    (if requests_membership input then Some True
     else let e = (if resets_elected input then None else tristate_load (stk_elected s))
          in if starts_election input \<and> e = None then Some False else e)"
  using assms
  by (cases input)
    (auto simp: staking_handle_defs staking_inv_def
      split: staking_event.splits user_data_event.splits sum.splits elections_state.splits
        option.splits)

lemma elected_run:
  assumes "staking_inv s" "\<forall>input\<in>set post. \<not> resets_elected input"
  shows "tristate_load (stk_elected (staking_run ton ctx post s)) =
    (if \<exists>input\<in>set post. requests_membership input then Some True
     else if (\<exists>input\<in>set post. starts_election input) \<and> tristate_load (stk_elected s) = None
     then Some False else tristate_load (stk_elected s))"
  using assms
proof (induction post arbitrary: s)
  case (Cons input post)
  have inv: "staking_inv (staking_handle ton ctx input s)" using Cons.prems by simp
  show ?case
    using Cons.IH [OF inv] Cons.prems elected_step [OF Cons.prems(1), of ton ctx input]
    by (auto simp: Let_def)
qed simp

text \<open>One input on the flag \<open>participates_in_round\<close>.\<close>

definition refreshed ::
  "('acc, 'tok, 'cell) ton_lib \<Rightarrow> uint256 \<Rightarrow> 'acc staking_input \<Rightarrow> bool option" where
  "refreshed ton staking_account input =
     (case input of
        RefreshInput view \<Rightarrow>
          (case and_then view (\<lambda>find_acc.
             and_then (and_then (find_acc staking_account)
                 (context_opt ''Staking contract not found'')) (\<lambda>staking_contract.
             and_then (context_res ''Failed to get relay_rounds_details''
                 (staking_get_relay_rounds_details ton staking_contract)) (\<lambda>rounds.
             and_then (context_res ''Failed to compute relay round address''
                 (staking_get_relay_round_address ton staking_contract
                    (rrd_current_relay_round rounds))) (\<lambda>relay_round_address.
             and_then (and_then (find_acc relay_round_address)
                 (context_opt ''Current relay round contract not found'')) (\<lambda>relay_round_contract.
             context_res ''Failed to get relay round details''
               (relay_round_get_details ton relay_round_contract)))))) of
             Inl e \<Rightarrow> None
           | Inr details \<Rightarrow> Some (staking_account \<in> set (rd_staker_addrs details)))
      | _ \<Rightarrow> None)"

lemma stk_accounts_handle [simp]:
  "stk_staking_account (staking_handle ton ctx input s) = stk_staking_account s"
  "stk_user_data_account (staking_handle ton ctx input s) = stk_user_data_account s"
  by (auto simp: staking_handle_defs
      split: staking_input.splits staking_event.splits user_data_event.splits sum.splits)

lemma participates_step:
  assumes "staking_inv s"
  shows "tristate_load (stk_participates_in_round (staking_handle ton ctx input s)) =
    (if starts_round input then None
     else case tristate_load (stk_participates_in_round s) of
            Some b \<Rightarrow> Some b
          | None \<Rightarrow> refreshed ton (stk_staking_account s) input)"
  using assms
  by (cases input)
    (auto simp: staking_handle_defs staking_inv_def refreshed_def
      split: staking_event.splits user_data_event.splits sum.splits elections_state.splits
        option.splits)

lemma participates_run:
  assumes "staking_inv s" "\<forall>input\<in>set post. \<not> starts_round input"
    "tristate_load (stk_participates_in_round s) = None"
  shows "tristate_load (stk_participates_in_round (staking_run ton ctx post s)) =
    (case List.map_filter (refreshed ton (stk_staking_account s)) post of
       [] \<Rightarrow> None | b # _ \<Rightarrow> Some b)"
proof -
  have settled: "staking_inv t \<Longrightarrow> \<forall>input\<in>set xs. \<not> starts_round input \<Longrightarrow>
      tristate_load (stk_participates_in_round t) = Some b \<Longrightarrow>
      tristate_load (stk_participates_in_round (staking_run ton ctx xs t)) = Some b" for t xs b
    by (induction xs arbitrary: t) (simp_all add: participates_step)
  show ?thesis
    using assms
  proof (induction post arbitrary: s)
    case (Cons input post)
    let ?s = "staking_handle ton ctx input s"
    have inv: "staking_inv ?s" using Cons.prems by simp
    show ?case
    proof (cases "refreshed ton (stk_staking_account s) input")
      case None
      then show ?thesis
        using Cons.IH [OF inv] Cons.prems participates_step [OF Cons.prems(1), of ton ctx input]
        by (simp add: List.map_filter_def)
    next
      case (Some b)
      then show ?thesis
        using settled [OF inv] Cons.prems participates_step [OF Cons.prems(1), of ton ctx input]
        by (simp add: List.map_filter_def)
    qed
  qed (simp add: List.map_filter_def)
qed

section \<open>An example\<close>

text \<open>For witnesses: round 5 runs since 1000, account 15 is its contract and lists staker 42 only, and
  the next election, at 16, has the candidate 42.\<close>

definition example_round_details :: relay_round_details where
  "example_round_details =
     \<lparr>rd_root = 3, rd_round_num = 5, rd_ton_keys = [], rd_eth_addrs = [], rd_staker_addrs = [42],
      rd_staked_tokens = [], rd_relays_installed = True, rd_code_version = 1\<rparr>"

definition example_user_data :: user_data_details where
  "example_user_data =
     \<lparr>ud_token_balance = 700, ud_relay_lock_until = 0, ud_reward_rounds = [],
      ud_relay_eth_address = 8, ud_eth_address_confirmed = False, ud_relay_ton_pubkey = 9,
      ud_ton_pubkey_confirmed = False, ud_slashed = False, ud_root = 3, ud_user = 42,
      ud_dao_root = 0\<rparr>"

definition example_rounds_details :: relay_rounds_details where
  "example_rounds_details =
     \<lparr>rrd_current_relay_round = 5, rrd_current_relay_round_start_time = 1000,
      rrd_current_relay_round_end_time = 9000, rrd_current_election_start_time = 2000,
      rrd_current_election_ended = False\<rparr>"

definition example_relay_config :: relay_config_details where
  "example_relay_config =
     \<lparr>rcd_relay_lock_time = 0, rcd_relay_round_time = 0, rcd_election_time = 600,
      rcd_time_before_election = 1000, rcd_min_round_gap_time = 0, rcd_relays_count = 0,
      rcd_min_relay_count = 0, rcd_min_relay_deposit = 500, rcd_relay_initial_ton_deposit = 0,
      rcd_relay_reward_per_second = 0, rcd_user_reward_per_second = 0\<rparr>"

definition example_staking_details :: staking_details where
  "example_staking_details =
     \<lparr>sd_dao_root = 0, sd_bridge_event_config_eth_ton = 20, sd_bridge_event_config_ton_eth = 0,
      sd_token_root = 0, sd_token_wallet = 0, sd_admin = 0, sd_rescuer = 0, sd_rewarder = 0,
      sd_token_balance = 0, sd_reward_token_balance = 0, sd_last_reward_time = 0,
      sd_reward_rounds = [], sd_emergency = False\<rparr>"

definition example_staking_lib :: "(nat, nat, uint256) ton_lib" where
  "example_staking_lib = example_ton_lib
     \<lparr>unpack_relay_round_details := \<lambda>_. Inr example_round_details,
      unpack_user_data := \<lambda>_. Inr example_user_data,
      unpack_staking_details := \<lambda>_. Inr example_staking_details,
      unpack_relay_rounds_details := \<lambda>_. Inr example_rounds_details,
      unpack_relay_config := \<lambda>_. Inr example_relay_config\<rparr>"

definition example_find_acc :: "uint256 \<Rightarrow> nat existing_contract option result" where
  "example_find_acc a = Inr (Some (example_contract (unat a)))"

definition example_staking_context :: "bool \<Rightarrow> staking_context" where
  "example_staking_context ignore_elections =
     \<lparr>sc_staker_account = 42, sc_ignore_elections = ignore_elections, sc_ton_public_key = 9,
      sc_eth_address = 8\<rparr>"

definition example_round_state :: round_state where
  "example_round_state =
     \<lparr>rs_number = 5, rs_elections_state = NotStarted 2000, rs_next_elections_account = 16,
      rs_min_relay_deposit = 500\<rparr>"

definition example_staking :: staking where
  "example_staking =
     \<lparr>stk_user_data_balance = 700, stk_round = example_round_state,
      stk_participates_in_round = tristate_new None, stk_elected = tristate_new None,
      stk_staking_account = 3, stk_user_data_account = 10\<rparr>"

lemma example_staking_run [simp]:
  "contract_run example_staking_lib (example_contract n) f inputs =
     Inr (n # example_numbers inputs)"
  by (simp add: contract_run_def run_local_def example_contract_def example_staking_lib_def)

lemma example_staking_lib_simps [simp]:
  "unpack_relay_round_details example_staking_lib toks = Inr example_round_details"
  "unpack_user_data example_staking_lib toks = Inr example_user_data"
  "unpack_staking_details example_staking_lib toks = Inr example_staking_details"
  "unpack_relay_rounds_details example_staking_lib toks = Inr example_rounds_details"
  "unpack_relay_config example_staking_lib toks = Inr example_relay_config"
  "unpack_address example_staking_lib toks = Inr (of_nat (10 + sum_list (tl toks)))"
  "unpack_bool example_staking_lib toks = Inr True"
  "unpack_u32 example_staking_lib toks = Inr 2"
  "unpack_staker_addresses example_staking_lib toks = Inr [42]"
  "unpack_eth_configuration example_staking_lib toks = Inr example_eth_configuration"
  by (simp_all add: example_staking_lib_def)

lemma example_staking_inv [simp]: "staking_inv example_staking"
  by (simp add: staking_inv_def example_staking_def)

section \<open>Properties: what the relay knows\<close>

text \<open>C23: After any history whose last event with elections not yet started is \<open>reset\<close>, the relay is
  known as a candidate exactly when its membership was requested after that event, known not to be
  one exactly when it was not but the election started, and unknown otherwise.\<close>

theorem elected_reflects_history:
  assumes "staking_inv s" "resets_elected reset" "\<forall>input\<in>set post. \<not> resets_elected input"
  shows "tristate_load (stk_elected (staking_run ton ctx (pre @ reset # post) s)) =
    (if \<exists>input\<in>set post. requests_membership input then Some True
     else if \<exists>input\<in>set (reset # post). starts_election input then Some False
     else None)"
proof -
  have inv: "staking_inv (staking_run ton ctx pre s)" using assms(1) by simp
  have "\<not> requests_membership reset" using assms(2) by (cases reset) auto
  then show ?thesis
    using assms(2) elected_step [OF inv, of ton ctx reset]
      elected_run [OF staking_handle_inv [OF inv] assms(3), of ton ctx ton ctx reset]
    by (auto simp: Let_def)
qed

theorem elected_reflects_history_witness:
  "tristate_load (stk_elected (staking_run example_staking_lib (example_staking_context False)
     ([] @ StakingInput example_round_state (RelayConfigUpdated \<lparr>rcu_config = example_relay_config\<rparr>) #
      [UserDataInput (RelayMembershipRequested \<lparr>rmr_round_num = 6, rmr_tokens = 500,
         rmr_ton_pubkey = 9, rmr_eth_address = 8, rmr_lock_until = 0\<rparr>)]) example_staking)) =
   Some True"
  by (subst elected_reflects_history) (simp_all add: example_round_state_def)

text \<open>C24: After a round was initialised the flag \<open>participates_in_round\<close> is unset until the first
  refresh that succeeds, keeps its answer until the next round, and that answer is whether the
  \<^emph>\<open>staking contract's own\<close> address is among the stakers of the round.\<close>

theorem participates_reflects_refresh:
  assumes "staking_inv s" "starts_round round" "\<forall>input\<in>set post. \<not> starts_round input"
  shows "tristate_load (stk_participates_in_round
      (staking_run ton ctx (pre @ round # post) s)) =
    (case List.map_filter (refreshed ton (stk_staking_account s)) post of
       [] \<Rightarrow> None | b # _ \<Rightarrow> Some b)"
proof -
  let ?s = "staking_run ton ctx pre s"
  have inv: "staking_inv ?s" using assms(1) by simp
  have acc: "stk_staking_account (staking_run ton ctx xs t) = stk_staking_account t" for xs t
    by (induction xs arbitrary: t) simp_all
  have "tristate_load (stk_participates_in_round (staking_handle ton ctx round ?s)) = None"
    using participates_step [OF inv, of ton ctx round] assms(2) by simp
  from participates_run [OF staking_handle_inv [OF inv] assms(3) this, of ton ctx]
  show ?thesis by (simp add: acc)
qed

definition example_round_initialized :: relay_round_initialized_event where
  "example_round_initialized =
     \<lparr>rri_round_num = 5, rri_round_start_time = 1000, rri_round_end_time = 9000,
      rri_round_addr = 15, rri_relays_count = 1, rri_duplicate = False\<rparr>"

lemma example_refreshed [simp]:
  "refreshed example_staking_lib a (RefreshInput (Inr example_find_acc)) = Some (a = 42)"
  by (simp add: refreshed_def example_find_acc_def staking_get_relay_rounds_details_def
      staking_get_relay_round_address_def relay_round_get_details_def example_round_details_def)

text \<open>The relay with staker account 42 is the round's only member, and the refresh says \<open>False\<close>.\<close>

theorem participates_reflects_refresh_witness:
  "tristate_load (stk_participates_in_round
     (staking_run example_staking_lib (example_staking_context False)
        ([] @ StakingInput example_round_state (RelayRoundInitialized example_round_initialized) #
         [RefreshInput (Inr example_find_acc)]) example_staking)) = Some False \<and>
   sc_staker_account (example_staking_context False) \<in> set (rd_staker_addrs example_round_details)"
proof -
  have "stk_staking_account example_staking = 3" by (simp add: example_staking_def)
  then show ?thesis
    by (subst participates_reflects_refresh)
      (simp_all add: map_filter_simps example_staking_context_def example_round_details_def)
qed

section \<open>Times\<close>

lemma unat_below_2_32: "unat (x::u32) < 2 ^ 32"
  using unsigned_less [of x, where ?'a = nat] by simp

lemma unat_ucast_32_64 [simp]: "unat (ucast (x::u32) :: u64) = unat x"
proof -
  have "unat x < 2 ^ 32" by (rule unat_below_2_32)
  then have "unat x < 2 ^ 64" by (rule less_trans) simp
  then show ?thesis by (simp add: unsigned_ucast_eq take_bit_nat_eq_self)
qed

lemma saturating_sub_reaches: "unat a \<le> unat b + unat (saturating_sub a b)"
  by (simp add: saturating_sub_def unat_sub word_le_nat_alt)

section \<open>Rewards\<close>

lemma u32_of_nat_inverse: "n \<le> unat (c::u32) \<Longrightarrow> unat (of_nat n :: u32) = n"
  by (drule le_less_trans [OF _ unat_below_2_32]) (simp add: unat_of_nat)

lemma set_reward_rounds:
  "set (reward_rounds c) = of_nat ` {unat c - 2..unat c}"
  by (simp add: reward_rounds_def atLeastLessThanSuc_atLeastAtMost del: upt_Suc)

lemma reward_rounds_set: "r \<in> set (reward_rounds c) \<longleftrightarrow> unat c - 2 \<le> unat r \<and> unat r \<le> unat c"
proof
  assume "r \<in> set (reward_rounds c)"
  then obtain n where "unat c - 2 \<le> n" "n \<le> unat c" "r = of_nat n"
    by (auto simp: set_reward_rounds)
  then show "unat c - 2 \<le> unat r \<and> unat r \<le> unat c" by (simp add: u32_of_nat_inverse)
next
  assume "unat c - 2 \<le> unat r \<and> unat r \<le> unat c"
  then have "unat r \<in> {unat c - 2..unat c}" by simp
  then have "of_nat (unat r) \<in> set (reward_rounds c)" unfolding set_reward_rounds by (rule imageI)
  then show "r \<in> set (reward_rounds c)" by simp
qed

lemma reward_rounds_distinct: "distinct (reward_rounds c)"
proof -
  have "inj_on (of_nat :: nat \<Rightarrow> u32) {unat c - 2..unat c}"
    by (rule inj_on_inverseI [where g = unat]) (auto intro: u32_of_nat_inverse)
  then show ?thesis
    by (simp add: reward_rounds_def distinct_map atLeastLessThanSuc_atLeastAtMost del: upt_Suc)
qed

definition reward_task ::
  "('acc, 'tok, 'cell) ton_lib \<Rightarrow> staking_context \<Rightarrow>
   (uint256 \<Rightarrow> 'acc existing_contract option result) \<Rightarrow> uint256 \<Rightarrow> u32 option" where
  "reward_task ton ctx find_acc address =
     (case find_acc address of
        Inr (Some c) \<Rightarrow>
          (if relay_round_has_unclaimed_reward ton c (sc_staker_account ctx) = Inr False then None
           else case relay_round_end_time ton c of Inr e \<Rightarrow> Some e | Inl _ \<Rightarrow> None)
      | _ \<Rightarrow> None)"

lemma collect_rounds_eq:
  assumes "\<forall>r. staking_get_relay_round_address ton c r = Inr (addr r)"
  shows "collect_rounds (try_collect_reward ton ctx find_acc c) rs =
    (Inr (), List.map_filter
       (\<lambda>r. map_option (SpawnGetReward r) (reward_task ton ctx find_acc (addr r))) rs)"
  using assms
  by (induction rs)
    (auto simp: try_collect_reward_def reward_task_def map_filter_simps
      split: sum.splits option.splits)

lemma map_filter_SpawnGetReward:
  "distinct rs \<Longrightarrow> distinct (List.map_filter (\<lambda>r. map_option (SpawnGetReward r) (f r)) rs)"
  by (induction rs) (auto simp: map_filter_simps List.map_filter_def split: option.splits)

lemma get_reward_delay_exact:
  assumes "unat now < 2 ^ 63"
  shows "unat now + unat (get_reward_delay end_time now) = max (unat end_time) (unat now) + 10"
proof -
  have "unat end_time - unat now + 10 < 2 ^ 32 + 11"
    using le_less_trans [OF diff_le_self unat_below_2_32, of end_time "unat now"] by linarith
  then have e: "unat end_time - unat now + 10 < 2 ^ 64" by (rule less_trans) simp
  have d: "unat (saturating_sub (ucast end_time) now) = unat end_time - unat now"
    by (simp add: saturating_sub_def word_le_nat_alt unat_sub)
  have "unat (saturating_sub (ucast end_time) now + ROUND_OFFSET) = unat end_time - unat now + 10"
    using e by (simp add: unat_word_ariths d ROUND_OFFSET_def)
  then show ?thesis by (simp add: get_reward_delay_def)
qed

text \<open>C25: When the addresses of the rounds can be computed, startup asks for the reward of exactly
  those of the last three rounds that exist and report an end time, unless the round says that
  nothing is unclaimed (an error of that question does \<^emph>\<open>not\<close> stop the request), once per round; a
  request is sent ten seconds after the round's end, or at once plus ten seconds when it is over.\<close>

theorem rewards_collected:
  assumes "find_acc staking_account = Inr (Some c)"
    "staking_get_relay_rounds_details ton c = Inr rounds"
    "\<forall>r. staking_get_relay_round_address ton c r = Inr (addr r)"
    "unat now < 2 ^ 63"
  shows "\<exists>tasks. collect_all_unclaimed_reward ton ctx staking_account (Inr find_acc) = (Inr (), tasks) \<and>
    distinct tasks \<and>
    (\<forall>task. task \<in> set tasks \<longleftrightarrow>
       (\<exists>r end_time relay_round. task = SpawnGetReward r end_time \<and>
          unat (rrd_current_relay_round rounds) - 2 \<le> unat r \<and>
          unat r \<le> unat (rrd_current_relay_round rounds) \<and>
          find_acc (addr r) = Inr (Some relay_round) \<and>
          relay_round_has_unclaimed_reward ton relay_round (sc_staker_account ctx) \<noteq> Inr False \<and>
          relay_round_end_time ton relay_round = Inr end_time)) \<and>
    (\<forall>end_time. unat now + unat (get_reward_delay end_time now) =
       max (unat end_time) (unat now) + 10)"
proof -
  let ?f = "\<lambda>r. map_option (SpawnGetReward r) (reward_task ton ctx find_acc (addr r))"
  let ?rs = "reward_rounds (rrd_current_relay_round rounds)"
  let ?tasks = "List.map_filter ?f ?rs"
  have run: "collect_all_unclaimed_reward ton ctx staking_account (Inr find_acc) = (Inr (), ?tasks)"
    using assms by (simp add: collect_all_unclaimed_reward_def collect_rounds_eq [OF assms(3)])
  have mem: "task \<in> set ?tasks \<longleftrightarrow> (\<exists>r\<in>set ?rs. ?f r = Some task)" for task
    by (force simp: List.map_filter_def)
  have task: "reward_task ton ctx find_acc a = Some e \<longleftrightarrow> (\<exists>relay_round.
      find_acc a = Inr (Some relay_round) \<and>
      relay_round_has_unclaimed_reward ton relay_round (sc_staker_account ctx) \<noteq> Inr False \<and>
      relay_round_end_time ton relay_round = Inr e)" for a e
    by (auto simp: reward_task_def split: sum.splits option.splits)
  show ?thesis
    by (rule exI [of _ ?tasks])
      (use run map_filter_SpawnGetReward [OF reward_rounds_distinct]
        get_reward_delay_exact [OF assms(4)] in
        \<open>auto simp: mem task reward_rounds_set\<close>)
qed

text \<open>Round 5 is the current one: the rewards of the rounds 3, 4 and 5 are asked for.\<close>

theorem rewards_collected_witness:
  "SpawnGetReward 4 2 \<in> set (snd (collect_all_unclaimed_reward example_staking_lib
     (example_staking_context False) 3 (Inr example_find_acc))) \<and>
   SpawnGetReward 2 2 \<notin> set (snd (collect_all_unclaimed_reward example_staking_lib
     (example_staking_context False) 3 (Inr example_find_acc)))"
proof -
  have 1: "example_find_acc 3 = Inr (Some (example_contract 3))"
    by (simp add: example_find_acc_def)
  have 2: "staking_get_relay_rounds_details example_staking_lib (example_contract 3) =
    Inr example_rounds_details" by (simp add: staking_get_relay_rounds_details_def)
  have 3: "\<forall>r. staking_get_relay_round_address example_staking_lib (example_contract 3) r =
    Inr (of_nat (10 + unat r))" by (simp add: staking_get_relay_round_address_def)
  have 4: "unat (0::u64) < 2 ^ 63" by simp
  note rewards_collected [where find_acc = example_find_acc and now = 0
    and addr = "\<lambda>r. of_nat (10 + unat r)", OF 1 2 3 4, of "example_staking_context False"]
  then show ?thesis
    by (auto simp: example_find_acc_def relay_round_has_unclaimed_reward_def
        relay_round_end_time_def example_rounds_details_def)
qed

section \<open>Startup\<close>




lemma check_elected_Inr:
  "check_elected ton ctx find_acc a = Inr b \<longleftrightarrow>
     (\<exists>c addrs. find_acc a = Inr (Some c) \<and> elections_staker_addrs ton c = Inr addrs \<and>
        b = (sc_staker_account ctx \<in> set addrs))"
  by (auto simp: check_elected_def and_then_Inr_iff)




lemma example_get_round_state [simp]:
  "get_round_state example_staking_lib (example_contract n) = Inr
     \<lparr>rs_number = 5, rs_elections_state = Started 2000 2600, rs_next_elections_account = 16,
      rs_min_relay_deposit = 500\<rparr>"
  by (simp add: get_round_state_def staking_get_relay_config_def example_rounds_details_def
      staking_get_relay_rounds_details_def staking_get_election_address_def example_relay_config_def)

section \<open>Confirmation of the keys\<close>

lemma ensure_verified_Inr:
  "ensure_verified ctx address deliver verify_eth conf details events = Some (Inr (ton_sent, eth_sent)) \<longleftrightarrow>
     (\<exists>d. details = Inr d \<and> ud_relay_eth_address d = sc_eth_address ctx \<and>
        ud_relay_ton_pubkey d = sc_ton_public_key ctx \<and>
        ton_sent = (\<not> ud_ton_pubkey_confirmed d) \<and> eth_sent = (\<not> ud_eth_address_confirmed d) \<and>
        (ton_sent \<longrightarrow> deliver (confirm_ton_account_message address) = Some (Inr ()) \<and>
           (\<exists>event \<in> set events. fst (confirmation_notified ctx event))) \<and>
        (eth_sent \<longrightarrow> (\<exists>verify.
           verify_eth (eec_chain_id (ecd_network_configuration conf)) = Some verify \<and>
           verify (eec_event_emitter (ecd_network_configuration conf)) = Inr ()) \<and>
           (\<exists>event \<in> set events. snd (confirmation_notified ctx event))))"
  by (auto simp: ensure_verified_def Let_def list_ex_iff context_res_def
      split: if_splits option.splits sum.splits)

lemma case_found_Inr:
  "(case r of Inl e \<Rightarrow> Some (Inl e) | Inr (a, b, c) \<Rightarrow> f a b c) = Some (Inr flags) \<longleftrightarrow>
     (\<exists>a b c. r = Inr (a, b, c) \<and> f a b c = Some (Inr flags))"
  by (auto split: sum.split)

lemma ensure_user_data_confirmed_Inr:
  "ensure_user_data_confirmed ton ctx deliver verify_eth staking_account view events = Some (Inr flags) \<longleftrightarrow>
     (\<exists>find_acc c conf address user. view = Inr find_acc \<and> find_acc staking_account = Inr (Some c) \<and>
        get_eth_bridge_configuration_details ton find_acc c = Inr conf \<and>
        staking_get_user_data_address ton c (sc_staker_account ctx) = Inr address \<and>
        find_acc address = Inr (Some user) \<and>
        ensure_verified ctx address deliver verify_eth conf (user_data_get_details ton user) events =
          Some (Inr flags))"
  unfolding ensure_user_data_confirmed_def case_found_Inr by (auto simp: and_then_Inr_iff)

text \<open>The confirmation of a key: the contract says so, or the relay was told by an event.\<close>

lemma confirmation_notified_iff:
  "fst (confirmation_notified ctx event) \<longleftrightarrow>
     (\<exists>e. event = TonPubkeyConfirmed e \<and> tpc_ton_pubkey e = sc_ton_public_key ctx)"
  "snd (confirmation_notified ctx event) \<longleftrightarrow>
     (\<exists>e. event = EthAddressConfirmed e \<and> eac_eth_addr e = sc_eth_address ctx)"
  by (cases event; simp add: confirmation_notified_def)+



text \<open>A relay gets past the confirmation of its keys only when the user data contract of its
  staker names the relay's own two keys, and then exactly the unconfirmed ones were confirmed
  successfully, the TON key by \<open>confirmTonAccount\<close> to that contract and the address on the chain and
  bridge of the staking contract's ETH configuration, and an event reported each of these.\<close>

theorem keys_confirmed_before_start:
  assumes "ensure_user_data_confirmed ton ctx deliver verify_eth staking_account view events =
    Some (Inr (ton_sent, eth_sent))"
  shows "\<exists>find_acc c address user conf d. view = Inr find_acc \<and>
    find_acc staking_account = Inr (Some c) \<and>
    staking_get_user_data_address ton c (sc_staker_account ctx) = Inr address \<and>
    find_acc address = Inr (Some user) \<and> user_data_get_details ton user = Inr d \<and>
    get_eth_bridge_configuration_details ton find_acc c = Inr conf \<and>
    ud_relay_eth_address d = sc_eth_address ctx \<and> ud_relay_ton_pubkey d = sc_ton_public_key ctx \<and>
    ton_sent = (\<not> ud_ton_pubkey_confirmed d) \<and> eth_sent = (\<not> ud_eth_address_confirmed d) \<and>
    (ton_sent \<longrightarrow> deliver (confirm_ton_account_message address) = Some (Inr ()) \<and>
       (\<exists>e. TonPubkeyConfirmed e \<in> set events \<and> tpc_ton_pubkey e = sc_ton_public_key ctx)) \<and>
    (eth_sent \<longrightarrow> (\<exists>verify. verify_eth (eec_chain_id (ecd_network_configuration conf)) = Some verify \<and>
       verify (eec_event_emitter (ecd_network_configuration conf)) = Inr ()) \<and>
       (\<exists>e. EthAddressConfirmed e \<in> set events \<and> eac_eth_addr e = sc_eth_address ctx))"
proof -
  have events: "(\<exists>event \<in> set events. fst (confirmation_notified ctx event)) \<longleftrightarrow>
      (\<exists>e. TonPubkeyConfirmed e \<in> set events \<and> tpc_ton_pubkey e = sc_ton_public_key ctx)"
    "(\<exists>event \<in> set events. snd (confirmation_notified ctx event)) \<longleftrightarrow>
      (\<exists>e. EthAddressConfirmed e \<in> set events \<and> eac_eth_addr e = sc_eth_address ctx)"
    by (auto simp: confirmation_notified_iff)
  show ?thesis
    using assms unfolding ensure_user_data_confirmed_Inr ensure_verified_Inr events by blast
qed

definition example_confirmations :: "user_data_event list" where
  "example_confirmations =
     [TonPubkeyConfirmed \<lparr>tpc_ton_pubkey = 9\<rparr>, EthAddressConfirmed \<lparr>eac_eth_addr = 8\<rparr>]"

lemma example_confirm:
  "sc_eth_address ctx = 8 \<Longrightarrow> sc_ton_public_key ctx = 9 \<Longrightarrow>
   ensure_user_data_confirmed example_staking_lib ctx (\<lambda>m. Some (Inr ()))
     (\<lambda>chain. if chain = 1 then Some (\<lambda>bridge. Inr ()) else None) 3 (Inr example_find_acc)
     example_confirmations = Some (Inr (True, True))"
  by (simp add: ensure_user_data_confirmed_def ensure_verified_def example_find_acc_def
      get_eth_bridge_configuration_details_def staking_get_details_def
      eth_configuration_get_details_def staking_get_user_data_address_def
      user_data_get_details_def example_user_data_def example_eth_configuration_def
      example_staking_details_def example_confirmations_def confirmation_notified_def)

theorem keys_confirmed_before_start_witness:
  "ensure_user_data_confirmed example_staking_lib (example_staking_context False) (\<lambda>m. Some (Inr ()))
     (\<lambda>chain. if chain = 1 then Some (\<lambda>bridge. Inr ()) else None) 3 (Inr example_find_acc)
     example_confirmations = Some (Inr (True, True))" (is ?ok)
proof -
  have ok: ?ok by (rule example_confirm) (simp_all add: example_staking_context_def)
  from keys_confirmed_before_start [OF ok] show ?thesis using ok by blast
qed

section \<open>The start\<close>




end
