(* ===== verification/Elections_Loop.thy ===== *)
theory Elections_Loop
  imports Staking_Props
begin

text \<open>
  The loop of \<open>start_managing_elections\<close> beside the event handler of the staking contract. The loop
  takes the lock, reads the state of the elections and creates the futures of the notifications that
  concern it; it reads the clock, waits, sends one message and waits on. An event is handled under
  the same lock: it replaces the state and completes the futures that exist and wait for it. The
  \<open>select!\<close> around the wait polls its branches in any order, so a wait whose time is over may still
  send its message after a notification has come; only when the branch of the notification is polled
  is the wait cancelled and the state read again. Events come in any order, also ones that the known
  state does not expect. A message in the trace is the start of its delivery, which repeats it when it
  expires (\<open>Delivery\<close>).
\<close>

section \<open>The loop and the handler\<close>

text \<open>The flag says whether one of the futures has been completed.\<close>

datatype elections_loop =
    LoopReading
  | LoopPrepared elections_state bool \<comment> \<open>the state read\<close>
  | LoopWaiting elections_state u64 bool \<comment> \<open>and the time read after it\<close>
  | LoopSent elections_state bool

text \<open>What happens, in its order: an event is handled, the loop reads a state, it sends a message at
  some time.\<close>

datatype elections_entry =
    Handled round_state staking_event
  | ReadState elections_state
  | SentStartElection u64
  | SentEndElection u64

record elections_world =
  ew_staking :: staking
  ew_loop :: elections_loop
  ew_clock :: u64
  ew_trace :: "elections_entry list"

text \<open>The futures that the loop holds see the notifications of an event.\<close>

definition notify_loop :: "staking_effect list \<Rightarrow> elections_loop \<Rightarrow> elections_loop" where
  "notify_loop effects l =
     (case l of
        LoopReading \<Rightarrow> LoopReading
      | LoopPrepared state notified \<Rightarrow>
          LoopPrepared state (notified \<or> elections_loop_wakes state effects)
      | LoopWaiting state since notified \<Rightarrow>
          LoopWaiting state since (notified \<or> elections_loop_wakes state effects)
      | LoopSent state notified \<Rightarrow> LoopSent state (notified \<or> elections_loop_wakes state effects))"

inductive elections_step :: "staking_context \<Rightarrow> elections_world \<Rightarrow> elections_world \<Rightarrow> bool"
  for ctx where
  Tick: "ew_clock w \<le> t \<Longrightarrow> elections_step ctx w (w\<lparr>ew_clock := t\<rparr>)"
| Event: "process_staking_event ctx (rs, event) (ew_staking w) = (effects, s') \<Longrightarrow>
    elections_step ctx w (w\<lparr>ew_staking := s', ew_loop := notify_loop effects (ew_loop w),
      ew_trace := ew_trace w @ [Handled rs event]\<rparr>)"
| User_data: "process_user_data_event ctx event (ew_staking w) = (effects, s') \<Longrightarrow>
    elections_step ctx w (w\<lparr>ew_staking := s', ew_loop := notify_loop effects (ew_loop w)\<rparr>)"
| Read: "ew_loop w = LoopReading \<Longrightarrow> state = rs_elections_state (stk_round (ew_staking w)) \<Longrightarrow>
    elections_step ctx w (w\<lparr>ew_loop := LoopPrepared state False,
      ew_trace := ew_trace w @ [ReadState state]\<rparr>)"
| Now: "ew_loop w = LoopPrepared state notified \<Longrightarrow>
    elections_step ctx w (w\<lparr>ew_loop := LoopWaiting state (ew_clock w) notified\<rparr>)"
| Start: "ew_loop w = LoopWaiting state since notified \<Longrightarrow>
    elections_action state since = StartElectionAfter delay \<Longrightarrow>
    unat since + unat delay \<le> unat (ew_clock w) \<Longrightarrow>
    elections_step ctx w (w\<lparr>ew_loop := LoopSent state notified,
      ew_trace := ew_trace w @ [SentStartElection (ew_clock w)]\<rparr>)"
| End: "ew_loop w = LoopWaiting state since notified \<Longrightarrow>
    elections_action state since = EndElectionAfter delay \<Longrightarrow>
    unat since + unat delay \<le> unat (ew_clock w) \<Longrightarrow>
    elections_step ctx w (w\<lparr>ew_loop := LoopSent state notified,
      ew_trace := ew_trace w @ [SentEndElection (ew_clock w)]\<rparr>)"
| Cancel: "ew_loop w = LoopWaiting state since True \<Longrightarrow>
    elections_step ctx w (w\<lparr>ew_loop := LoopReading\<rparr>)"
| Again: "ew_loop w = LoopSent state True \<Longrightarrow>
    elections_step ctx w (w\<lparr>ew_loop := LoopReading\<rparr>)"

inductive elections_reachable :: "staking_context \<Rightarrow> staking \<Rightarrow> elections_world \<Rightarrow> bool"
  for ctx s where
  Init: "elections_reachable ctx s
    \<lparr>ew_staking = s, ew_loop = LoopReading, ew_clock = t, ew_trace = []\<rparr>"
| Step: "elections_reachable ctx s w \<Longrightarrow> elections_step ctx w w' \<Longrightarrow> elections_reachable ctx s w'"

section \<open>Reading a trace\<close>

text \<open>What the relay knows after some entries: the state that came with the last event.\<close>

fun known_after :: "elections_state \<Rightarrow> elections_entry list \<Rightarrow> elections_state" where
  "known_after state [] = state"
| "known_after state (Handled rs event # entries) = known_after (rs_elections_state rs) entries"
| "known_after state (entry # entries) = known_after state entries"

text \<open>The events that concern a loop which has read a state.\<close>

fun concerns :: "elections_state \<Rightarrow> elections_entry \<Rightarrow> bool" where
  "concerns (NotStarted t) (Handled rs (ElectionStarted event)) = True"
| "concerns (NotStarted t) (Handled rs (RelayConfigUpdated event)) = True"
| "concerns (Started t1 t2) (Handled rs (ElectionEnded event)) = True"
| "concerns (Started t1 t2) (Handled rs (RelayConfigUpdated event)) = True"
| "concerns Finished (Handled rs (RelayRoundInitialized event)) = True"
| "concerns state entry = False"

fun is_event :: "elections_entry \<Rightarrow> bool" where
  "is_event (Handled rs event) = True"
| "is_event entry = False"

fun is_read :: "elections_entry \<Rightarrow> bool" where
  "is_read (ReadState state) = True"
| "is_read entry = False"

text \<open>A message that is due: the state asks for it and its time has come.\<close>

fun due :: "elections_state \<Rightarrow> elections_entry \<Rightarrow> bool" where
  "due (NotStarted start_time) (SentStartElection t) = (unat start_time \<le> unat t)"
| "due (Started start_time end_time) (SentEndElection t) = (unat end_time \<le> unat t)"
| "due state entry = False"

fun is_message :: "elections_entry \<Rightarrow> bool" where
  "is_message (SentStartElection t) = True"
| "is_message (SentEndElection t) = True"
| "is_message entry = False"

text \<open>The entries end with a reading of a state that the relay knew, and events after it.\<close>

definition read_last :: "elections_state \<Rightarrow> elections_state \<Rightarrow> elections_entry list \<Rightarrow> elections_entry list \<Rightarrow> bool"
where
  "read_last initial state events entries \<longleftrightarrow>
     (\<exists>before. entries = before @ ReadState state # events \<and> state = known_after initial before \<and>
        list_all is_event events)"

text \<open>The loop has reason to read: it has not read yet, or an event concerned the state it read last.\<close>

definition may_read :: "elections_entry list \<Rightarrow> bool" where
  "may_read entries \<longleftrightarrow>
     list_all (\<lambda>e. \<not> is_read e) entries \<or>
     (\<exists>before state after'. entries = before @ ReadState state # after' \<and>
        list_all (\<lambda>e. \<not> is_read e) after' \<and> list_ex (concerns state) after')"

definition entry_justified :: "elections_state \<Rightarrow> elections_entry list \<Rightarrow> elections_entry \<Rightarrow> bool" where
  "entry_justified initial before entry \<longleftrightarrow>
     (is_message entry \<longrightarrow> (\<exists>state events. read_last initial state events before \<and> due state entry)) \<and>
     (is_read entry \<longrightarrow> may_read before)"

lemma known_after_append:
  "known_after state (xs @ ys) = known_after (known_after state xs) ys"
  by (induction state xs rule: known_after.induct) simp_all

lemma append_snoc_split:
  "xs @ [x] = pre @ y # post \<longleftrightarrow>
     (post = [] \<and> pre = xs \<and> y = x) \<or> (\<exists>post'. post = post' @ [x] \<and> xs = pre @ y # post')"
  by (cases post rule: rev_cases) auto

lemma last_read_unique:
  assumes eq: "xs @ ReadState state # ys = xs' @ ReadState state' # ys'"
    and ys: "\<forall>e \<in> set ys. \<not> is_read e" "\<forall>e \<in> set ys'. \<not> is_read e"
  shows "state = state' \<and> ys = ys'"
proof -
  have tail: "takeWhile (\<lambda>e. \<not> is_read e) (rev zs @ ReadState st # us) = rev zs"
    if "\<forall>e \<in> set zs. \<not> is_read e" for zs st us
    using that by (subst takeWhile_append2) simp_all
  have rev: "rev ys @ ReadState state # rev xs = rev ys' @ ReadState state' # rev xs'"
    using arg_cong [OF eq, of rev] by simp
  then have "ys = ys'" using tail [OF ys(1)] tail [OF ys(2)] by (metis rev_rev_ident)
  with rev show ?thesis by simp
qed

section \<open>The invariant\<close>

lemma staking_event_round [simp]:
  "stk_round (snd (process_staking_event ctx (rs, event) s)) = rs"
  by (simp add: process_staking_event_def Let_def split: staking_event.splits)

lemma user_data_event_round [simp]:
  "stk_round (snd (process_user_data_event ctx event s)) = stk_round s"
  by (simp add: process_user_data_event_def split: user_data_event.splits)

lemma user_data_event_wakes_no_loop:
  "\<not> elections_loop_wakes state (fst (process_user_data_event ctx event s))"
  by (simp add: process_user_data_event_def elections_loop_wakes_def
      split: user_data_event.splits elections_state.splits)

lemma staking_event_wakes:
  "elections_loop_wakes state (fst (process_staking_event ctx (rs, event) s)) \<longleftrightarrow>
     concerns state (Handled rs event)"
  by (cases state; cases event) (simp_all add: process_staking_event_def elections_loop_wakes_def Let_def)

text \<open>What holds of the loop: the entries since it read are events until it sends, and its flag tells
  whether one of them concerned it.\<close>

definition loop_inv :: "elections_state \<Rightarrow> elections_world \<Rightarrow> bool" where
  "loop_inv initial w \<longleftrightarrow>
     (case ew_loop w of
        LoopReading \<Rightarrow> may_read (ew_trace w)
      | LoopPrepared state notified \<Rightarrow> \<exists>events. read_last initial state events (ew_trace w) \<and>
          (notified \<longrightarrow> list_ex (concerns state) events)
      | LoopWaiting state since notified \<Rightarrow> \<exists>events. read_last initial state events (ew_trace w) \<and>
          (notified \<longrightarrow> list_ex (concerns state) events) \<and> since \<le> ew_clock w
      | LoopSent state notified \<Rightarrow> \<exists>before after'. ew_trace w = before @ ReadState state # after' \<and>
          list_all (\<lambda>e. \<not> is_read e) after' \<and> (notified \<longrightarrow> list_ex (concerns state) after'))"

definition elections_inv :: "elections_state \<Rightarrow> elections_world \<Rightarrow> bool" where
  "elections_inv initial w \<longleftrightarrow>
     rs_elections_state (stk_round (ew_staking w)) = known_after initial (ew_trace w) \<and>
     loop_inv initial w \<and>
     (\<forall>before entry rest. ew_trace w = before @ entry # rest \<longrightarrow> entry_justified initial before entry)"

lemma read_last_event:
  "read_last initial state events entries \<Longrightarrow>
   read_last initial state (events @ [Handled rs event]) (entries @ [Handled rs event])"
  by (auto simp: read_last_def)

lemma read_last_may_read:
  assumes "read_last initial state events entries" "list_ex (concerns state) events"
  shows "may_read entries"
proof -
  have "\<not> is_read e" if "is_event e" for e using that by (cases e) simp_all
  then have "list_all (\<lambda>e. \<not> is_read e) events"
    using assms(1) by (auto simp: read_last_def list_all_iff)
  then show ?thesis
    using assms unfolding may_read_def read_last_def by blast
qed

lemma may_read_event: "may_read entries \<Longrightarrow> may_read (entries @ [Handled rs event])"
  unfolding may_read_def
proof (elim disjE exE conjE)
  fix before state after'
  assume "entries = before @ ReadState state # after'" "list_all (\<lambda>e. \<not> is_read e) after'"
    "list_ex (concerns state) after'"
  then show "list_all (\<lambda>e. \<not> is_read e) (entries @ [Handled rs event]) \<or>
    (\<exists>before state after'. entries @ [Handled rs event] = before @ ReadState state # after' \<and>
        list_all (\<lambda>e. \<not> is_read e) after' \<and> list_ex (concerns state) after')"
    by (intro disjI2 exI [of _ before] exI [of _ state] exI [of _ "after' @ [Handled rs event]"]) simp
qed simp

lemma justified_snoc:
  assumes "\<forall>before entry rest. entries = before @ entry # rest \<longrightarrow> entry_justified initial before entry"
    and "entry_justified initial entries new"
  shows "\<forall>before entry rest. entries @ [new] = before @ entry # rest \<longrightarrow> entry_justified initial before entry"
  using assms by (auto simp: append_snoc_split)

lemma loop_inv_event:
  assumes "loop_inv initial w"
  shows "loop_inv initial (w\<lparr>ew_staking := s',
    ew_loop := notify_loop (fst (process_staking_event ctx (rs, event) s)) (ew_loop w),
    ew_trace := ew_trace w @ [Handled rs event]\<rparr>)"
proof (cases "ew_loop w")
  case LoopReading
  then show ?thesis using assms by (simp add: loop_inv_def notify_loop_def may_read_event)
next
  case (LoopPrepared state notified)
  then obtain events where "read_last initial state events (ew_trace w)"
    "notified \<longrightarrow> list_ex (concerns state) events"
    using assms by (auto simp: loop_inv_def)
  then show ?thesis
    using read_last_event [of initial state events "ew_trace w" rs event] LoopPrepared
    by (simp add: loop_inv_def notify_loop_def staking_event_wakes)
      (intro exI [of _ "events @ [Handled rs event]"], auto)
next
  case (LoopWaiting state since notified)
  then obtain events where "read_last initial state events (ew_trace w)"
    "notified \<longrightarrow> list_ex (concerns state) events" "since \<le> ew_clock w"
    using assms by (auto simp: loop_inv_def)
  then show ?thesis
    using read_last_event [of initial state events "ew_trace w" rs event] LoopWaiting
    by (simp add: loop_inv_def notify_loop_def staking_event_wakes)
      (intro exI [of _ "events @ [Handled rs event]"], auto)
next
  case (LoopSent state notified)
  then obtain before after' where "ew_trace w = before @ ReadState state # after'"
    "list_all (\<lambda>e. \<not> is_read e) after'" "notified \<longrightarrow> list_ex (concerns state) after'"
    using assms by (auto simp: loop_inv_def)
  then show ?thesis
    using LoopSent
    by (simp add: loop_inv_def notify_loop_def staking_event_wakes)
      (intro exI [of _ before] exI [of _ "after' @ [Handled rs event]"], auto)
qed

lemma loop_inv_user_data:
  assumes "loop_inv initial w"
  shows "loop_inv initial (w\<lparr>ew_staking := s',
    ew_loop := notify_loop (fst (process_user_data_event ctx event s)) (ew_loop w)\<rparr>)"
proof -
  have "notify_loop (fst (process_user_data_event ctx event s)) l = l" for l
    by (simp add: notify_loop_def user_data_event_wakes_no_loop split: elections_loop.split)
  then show ?thesis using assms by (cases "ew_loop w") (simp_all add: loop_inv_def)
qed

lemma loop_inv_sent:
  assumes "loop_inv initial w" "ew_loop w = LoopWaiting state since notified" "\<not> is_read message"
  shows "loop_inv initial (w\<lparr>ew_loop := LoopSent state notified, ew_trace := ew_trace w @ [message]\<rparr>)"
proof -
  obtain events where events: "read_last initial state events (ew_trace w)"
    "notified \<longrightarrow> list_ex (concerns state) events"
    using assms(1,2) by (auto simp: loop_inv_def)
  then obtain before where before: "ew_trace w = before @ ReadState state # events"
    "list_all is_event events"
    by (auto simp: read_last_def)
  have "\<not> is_read e" if "is_event e" for e using that by (cases e) simp_all
  then have "list_all (\<lambda>e. \<not> is_read e) events" using before(2) by (auto simp: list_all_iff)
  then show ?thesis
    using before(1) events(2) assms(3)
    by (simp add: loop_inv_def) (intro exI [of _ before] exI [of _ "events @ [message]"], auto)
qed

lemma known_after_message: "\<not> is_event entry \<Longrightarrow> known_after state [entry] = state"
  by (cases entry) simp_all

lemma elections_inv_step:
  assumes "elections_step ctx w w'" "elections_inv initial w"
  shows "elections_inv initial w'"
proof -
  have known: "rs_elections_state (stk_round (ew_staking w)) = known_after initial (ew_trace w)"
    and loop: "loop_inv initial w"
    and justified: "\<forall>before entry rest. ew_trace w = before @ entry # rest \<longrightarrow>
      entry_justified initial before entry"
    using assms(2) unfolding elections_inv_def by blast+
  from assms(1) show ?thesis
  proof cases
    case (Tick t)
    have "loop_inv initial (w\<lparr>ew_clock := t\<rparr>)"
      using loop Tick(2)
      by (auto simp: loop_inv_def split: elections_loop.splits intro: order_trans)
    then show ?thesis using known justified Tick(1) by (simp add: elections_inv_def)
  next
    case (Event rs event effects s')
    have parts: "effects = fst (process_staking_event ctx (rs, event) (ew_staking w))"
      "s' = snd (process_staking_event ctx (rs, event) (ew_staking w))"
      using Event(2) by simp_all
    have "entry_justified initial (ew_trace w) (Handled rs event)" by (simp add: entry_justified_def)
    then show ?thesis
      using loop_inv_event [OF loop, where s' = s' and ctx = ctx and rs = rs and event = event and s = "ew_staking w"]
        justified_snoc [OF justified]
      by (simp add: elections_inv_def Event(1) parts known_after_append)
  next
    case (User_data event effects s')
    have parts: "effects = fst (process_user_data_event ctx event (ew_staking w))"
      "s' = snd (process_user_data_event ctx event (ew_staking w))"
      using User_data(2) by simp_all
    show ?thesis
      using known justified loop_inv_user_data [OF loop, where s' = s' and ctx = ctx and event = event and s = "ew_staking w"]
      by (simp add: elections_inv_def User_data(1) parts)
  next
    case (Read state)
    have may: "may_read (ew_trace w)" using loop Read(2) by (simp add: loop_inv_def)
    have "read_last initial state [] (ew_trace w @ [ReadState state])"
      using known Read(3) by (simp add: read_last_def)
    then have "loop_inv initial (w\<lparr>ew_loop := LoopPrepared state False,
        ew_trace := ew_trace w @ [ReadState state]\<rparr>)"
      by (auto simp: loop_inv_def)
    moreover have "entry_justified initial (ew_trace w) (ReadState state)"
      using may by (simp add: entry_justified_def)
    ultimately show ?thesis
      using known justified_snoc [OF justified]
      by (simp add: elections_inv_def Read(1) known_after_append)
  next
    case (Now state notified)
    have "loop_inv initial (w\<lparr>ew_loop := LoopWaiting state (ew_clock w) notified\<rparr>)"
      using loop Now(2) by (simp add: loop_inv_def)
    then show ?thesis using known justified by (simp add: elections_inv_def Now(1))
  next
    case (Start state since notified delay)
    obtain st where st: "state = NotStarted st" "delay = saturating_sub (ucast st) since"
      using Start(3) by (auto simp: elections_action_def split: elections_state.splits)
    have "due state (SentStartElection (ew_clock w))"
      using st Start(4) saturating_sub_reaches [of "ucast st" since] by simp
    then have "entry_justified initial (ew_trace w) (SentStartElection (ew_clock w))"
      using loop Start(2) by (auto simp: loop_inv_def entry_justified_def)
    then show ?thesis
      using known justified_snoc [OF justified] loop_inv_sent [OF loop Start(2)]
      by (simp add: elections_inv_def Start(1) known_after_append)
  next
    case (End state since notified delay)
    obtain st en where st: "state = Started st en" "delay = saturating_sub (ucast en) since"
      using End(3) by (auto simp: elections_action_def split: elections_state.splits)
    have "due state (SentEndElection (ew_clock w))"
      using st End(4) saturating_sub_reaches [of "ucast en" since] by simp
    then have "entry_justified initial (ew_trace w) (SentEndElection (ew_clock w))"
      using loop End(2) by (auto simp: loop_inv_def entry_justified_def)
    then show ?thesis
      using known justified_snoc [OF justified] loop_inv_sent [OF loop End(2)]
      by (simp add: elections_inv_def End(1) known_after_append)
  next
    case (Cancel state since)
    have "may_read (ew_trace w)"
      using loop Cancel(2) read_last_may_read by (auto simp: loop_inv_def)
    then show ?thesis using known justified Cancel(1) by (simp add: elections_inv_def loop_inv_def)
  next
    case (Again state)
    have "may_read (ew_trace w)"
      using loop Again(2) unfolding may_read_def by (auto simp: loop_inv_def)
    then show ?thesis using known justified Again(1) by (simp add: elections_inv_def loop_inv_def)
  qed
qed

lemma elections_inv_reachable:
  "elections_reachable ctx s w \<Longrightarrow> elections_inv (rs_elections_state (stk_round s)) w"
proof (induction rule: elections_reachable.induct)
  case (Init t)
  then show ?case by (simp add: elections_inv_def loop_inv_def may_read_def)
next
  case (Step w w')
  then show ?case using elections_inv_step by blast
qed

section \<open>Property\<close>

text \<open>C21: In every interleaving of the elections loop with the events, in whatever order these come and
  however a wait races with a notification: every message is decided from a state that the relay
  really knew when the loop last read it, elections that have not started for
  \<open>startElectionOnNewRound\<close> and running ones for \<open>endElection\<close>, and its delivery does not begin before the time that
  this state gives; between that reading and the message there are only events, so that each reading
  leads to one message at most; and the loop reads again only after an event that concerns the state
  it read before, so without such an event there is no second message.\<close>

theorem elections_messages_timely:
  assumes "elections_reachable ctx s w" "ew_trace w = before @ entry # rest"
  shows "(is_message entry \<longrightarrow> (\<exists>earlier state events.
      before = earlier @ ReadState state # events \<and>
      state = known_after (rs_elections_state (stk_round s)) earlier \<and>
      (\<forall>e \<in> set events. \<exists>rs event. e = Handled rs event) \<and>
      (case entry of
         SentStartElection t \<Rightarrow> \<exists>start_time. state = NotStarted start_time \<and> unat start_time \<le> unat t
       | SentEndElection t \<Rightarrow>
           \<exists>start_time end_time. state = Started start_time end_time \<and> unat end_time \<le> unat t
       | _ \<Rightarrow> False))) \<and>
    (\<forall>state earlier state' between. entry = ReadState state \<and> before = earlier @ ReadState state' # between \<and>
       (\<forall>e \<in> set between. \<not> is_read e) \<longrightarrow> (\<exists>e \<in> set between. concerns state' e))"
proof
  have justified: "entry_justified (rs_elections_state (stk_round s)) before entry"
    using elections_inv_reachable [OF assms(1)] assms(2) unfolding elections_inv_def by blast
  show "is_message entry \<longrightarrow> (\<exists>earlier state events.
      before = earlier @ ReadState state # events \<and>
      state = known_after (rs_elections_state (stk_round s)) earlier \<and>
      (\<forall>e \<in> set events. \<exists>rs event. e = Handled rs event) \<and>
      (case entry of
         SentStartElection t \<Rightarrow> \<exists>start_time. state = NotStarted start_time \<and> unat start_time \<le> unat t
       | SentEndElection t \<Rightarrow>
           \<exists>start_time end_time. state = Started start_time end_time \<and> unat end_time \<le> unat t
       | _ \<Rightarrow> False))"
  proof
    assume "is_message entry"
    then obtain state events where last: "read_last (rs_elections_state (stk_round s)) state events before"
      and due: "due state entry"
      using justified by (auto simp: entry_justified_def)
    have "\<exists>rs event. e = Handled rs event" if "is_event e" for e using that by (cases e) simp_all
    then have events: "\<forall>e \<in> set events. \<exists>rs event. e = Handled rs event"
      using last by (auto simp: read_last_def list_all_iff)
    obtain earlier where "before = earlier @ ReadState state # events"
      "state = known_after (rs_elections_state (stk_round s)) earlier"
      using last by (auto simp: read_last_def)
    moreover have "case entry of
         SentStartElection t \<Rightarrow> \<exists>start_time. state = NotStarted start_time \<and> unat start_time \<le> unat t
       | SentEndElection t \<Rightarrow>
           \<exists>start_time end_time. state = Started start_time end_time \<and> unat end_time \<le> unat t
       | _ \<Rightarrow> False"
      using due by (cases state; cases entry) simp_all
    ultimately show "\<exists>earlier state events.
      before = earlier @ ReadState state # events \<and>
      state = known_after (rs_elections_state (stk_round s)) earlier \<and>
      (\<forall>e \<in> set events. \<exists>rs event. e = Handled rs event) \<and>
      (case entry of
         SentStartElection t \<Rightarrow> \<exists>start_time. state = NotStarted start_time \<and> unat start_time \<le> unat t
       | SentEndElection t \<Rightarrow>
           \<exists>start_time end_time. state = Started start_time end_time \<and> unat end_time \<le> unat t
       | _ \<Rightarrow> False)"
      using events by blast
  qed
  show "\<forall>state earlier state' between. entry = ReadState state \<and>
      before = earlier @ ReadState state' # between \<and> (\<forall>e \<in> set between. \<not> is_read e) \<longrightarrow>
      (\<exists>e \<in> set between. concerns state' e)"
  proof (intro allI impI)
    fix state earlier state' between
    assume a: "entry = ReadState state \<and> before = earlier @ ReadState state' # between \<and>
      (\<forall>e \<in> set between. \<not> is_read e)"
    then have "may_read before" using justified by (simp add: entry_justified_def)
    then show "\<exists>e \<in> set between. concerns state' e"
      using a unfolding may_read_def list_all_iff list_ex_iff
      by (elim disjE exE conjE) (force, metis last_read_unique)
  qed
qed

section \<open>Witness\<close>

text \<open>The loop reads at 1500 and waits 500 seconds for a start time of 2000; an election starts just
  then, and the message goes out all the same, once.\<close>

definition example_started :: round_state where
  "example_started = example_round_state\<lparr>rs_elections_state := Started 2000 2600\<rparr>"

definition example_election :: staking_event where
  "example_election = ElectionStarted \<lparr>ese_round_num = 6, ese_election_start_time = 2000,
     ese_election_end_time = 2600, ese_election_addr = 16\<rparr>"

definition example_elections_trace :: "elections_entry list" where
  "example_elections_trace =
     [ReadState (NotStarted 2000), Handled example_started example_election, SentStartElection 2000]"

lemma example_elections_run:
  "\<exists>w. elections_reachable (example_staking_context True) example_staking w \<and>
     ew_trace w = example_elections_trace"
proof -
  let ?ctx = "example_staking_context True"
  let ?reach = "elections_reachable ?ctx example_staking"
  let ?w = "\<lambda>s l t trace. \<lparr>ew_staking = s, ew_loop = l, ew_clock = t, ew_trace = trace\<rparr>"
  let ?read = "[ReadState (NotStarted 2000)]"
  let ?s' = "snd (process_staking_event ?ctx (example_started, example_election) example_staking)"
  have st: "rs_elections_state (stk_round example_staking) = NotStarted 2000"
    by (simp add: example_staking_def example_round_state_def)
  have event: "process_staking_event ?ctx (example_started, example_election) example_staking =
      ([NotifyElectionsStart], ?s')"
    by (simp add: process_staking_event_def Let_def example_election_def example_staking_context_def)
  have "?reach (?w example_staking LoopReading 1500 [])" by (rule Init)
  from Step [OF this Read [OF _ refl]]
  have "?reach (?w example_staking (LoopPrepared (NotStarted 2000) False) 1500 ?read)"
    by (simp add: st)
  from Step [OF this Now [of _ "NotStarted 2000" False]]
  have "?reach (?w example_staking (LoopWaiting (NotStarted 2000) 1500 False) 1500 ?read)" by simp
  from Step [OF this Tick [of _ 2000]]
  have "?reach (?w example_staking (LoopWaiting (NotStarted 2000) 1500 False) 2000 ?read)" by simp
  from Step [OF this Event [of ?ctx example_started example_election _ "[NotifyElectionsStart]" ?s']] event
  have "?reach (?w ?s' (LoopWaiting (NotStarted 2000) 1500 True) 2000
      (?read @ [Handled example_started example_election]))"
    by (simp add: notify_loop_def elections_loop_wakes_def)
  from Step [OF this Start [of _ "NotStarted 2000" 1500 True 500]]
  have "?reach (?w ?s' (LoopSent (NotStarted 2000) True) 2000
      (?read @ [Handled example_started example_election, SentStartElection 2000]))"
    by (simp add: elections_action_def saturating_sub_def)
  then show ?thesis by (auto simp: example_elections_trace_def)
qed

theorem elections_messages_timely_witness:
  "\<exists>earlier state events. [ReadState (NotStarted 2000), Handled example_started example_election] =
      earlier @ ReadState state # events \<and>
     (\<exists>start_time. state = NotStarted start_time \<and> unat start_time \<le> 2000)"
proof -
  obtain w where w: "elections_reachable (example_staking_context True) example_staking w"
    "ew_trace w = [ReadState (NotStarted 2000), Handled example_started example_election] @
       SentStartElection 2000 # []"
    using example_elections_run by (auto simp: example_elections_trace_def)
  from elections_messages_timely [OF w] show ?thesis by auto
qed

end
