(* ===== verification/Relay_Messages.thy ===== *)
theory Relay_Messages
  imports Staking Bridge_Events Delivery
begin












end
