(* ===== verification/Stored_Keys.thy ===== *)
theory Stored_Keys
  imports Prelude
begin

text \<open>
  \<open>config/stored_keys.rs\<close>: the two seed phrases on disk, encrypted under a key derived from the
  password. The cipher, the key derivations and the random generator belong to other crates:
  \<open>cipher\<close> holds the functions the code calls, with byte strings as lists, and the generator is a
  stream of draws (\<open>rng\<close>), threaded through as a list.
\<close>

type_synonym bytes = "u8 list"

record ('key, 'address, 'public) cipher =
  cp_key_from_password :: "string \<Rightarrow> bytes \<Rightarrow> 'key"
  cp_encrypt :: "'key \<Rightarrow> bytes \<Rightarrow> string \<Rightarrow> bytes result" \<comment> \<open>key, nonce, data\<close>
  cp_decrypt_secure_str :: "'key \<Rightarrow> bytes \<Rightarrow> bytes \<Rightarrow> string result"
  cp_derive_secret :: "string \<Rightarrow> string \<Rightarrow> bytes result" \<comment> \<open>phrase, path\<close>
  cp_eth_address :: "bytes \<Rightarrow> 'address result"
  cp_ton_public_key :: "bytes \<Rightarrow> 'public result"

record stored_keys_data_part =
  skp_encrypted_seed_phrase :: bytes
  skp_encrypted_derivation_path :: bytes
  skp_nonce :: bytes

record stored_keys_data =
  skd_salt :: bytes
  skd_eth :: stored_keys_data_part
  skd_ton :: stored_keys_data_part

record 'address unencrypted_eth_data =
  ued_phrase :: string
  ued_path :: string
  ued_address :: 'address

record 'public unencrypted_ton_data =
  utd_phrase :: string
  utd_path :: string
  utd_public_key :: 'public

definition eth_default_path :: string where
  "eth_default_path = ''m/44'/60'/0'/0/0''"

definition ton_default_path :: string where
  "ton_default_path = ''m/44'/396'/0'/0/0''"

definition eth_from_phrase ::
  "('key, 'address, 'public) cipher \<Rightarrow> string \<Rightarrow> string \<Rightarrow> 'address unencrypted_eth_data result" where
  "eth_from_phrase cp phrase path =
     and_then (cp_derive_secret cp phrase path) (\<lambda>secret.
     and_then (cp_eth_address cp secret) (\<lambda>address.
     Inr \<lparr>ued_phrase = phrase, ued_path = path, ued_address = address\<rparr>))"

definition ton_from_phrase ::
  "('key, 'address, 'public) cipher \<Rightarrow> string \<Rightarrow> string \<Rightarrow> 'public unencrypted_ton_data result" where
  "ton_from_phrase cp phrase path =
     and_then (cp_derive_secret cp phrase path) (\<lambda>secret.
     and_then (cp_ton_public_key cp secret) (\<lambda>public_key.
     Inr \<lparr>utd_phrase = phrase, utd_path = path, utd_public_key = public_key\<rparr>))"

text \<open>\<open>FromPhraseAndPath::encrypt\<close>: one nonce is drawn, for both fields.\<close>

definition encrypt_part ::
  "('key, 'address, 'public) cipher \<Rightarrow> 'key \<Rightarrow> string \<Rightarrow> string \<Rightarrow> bytes list \<Rightarrow>
   stored_keys_data_part result \<times> bytes list" where
  "encrypt_part cp key phrase path rng =
     (let nonce = hd rng
      in (and_then (cp_encrypt cp key nonce phrase) (\<lambda>encrypted_seed_phrase.
          and_then (cp_encrypt cp key nonce path) (\<lambda>encrypted_derivation_path.
          Inr \<lparr>skp_encrypted_seed_phrase = encrypted_seed_phrase,
               skp_encrypted_derivation_path = encrypted_derivation_path,
               skp_nonce = nonce\<rparr>)), tl rng))"

definition decrypt_part ::
  "('key, 'address, 'public) cipher \<Rightarrow> 'key \<Rightarrow> stored_keys_data_part \<Rightarrow> (string \<times> string) result" where
  "decrypt_part cp key part =
     and_then (cp_decrypt_secure_str cp key (skp_nonce part) (skp_encrypted_seed_phrase part))
       (\<lambda>phrase.
     and_then (cp_decrypt_secure_str cp key (skp_nonce part) (skp_encrypted_derivation_path part))
       (\<lambda>path. Inr (phrase, path)))"

definition decrypt_secret_key ::
  "('key, 'address, 'public) cipher \<Rightarrow> 'key \<Rightarrow> stored_keys_data_part \<Rightarrow> bytes result" where
  "decrypt_secret_key cp key part =
     and_then (decrypt_part cp key part) (\<lambda>(seed_phrase, path). cp_derive_secret cp seed_phrase path)"

text \<open>\<open>StoredKeysData::new\<close>: the salt, then the ETH part's nonce, then the TON part's.\<close>

definition stored_keys_new ::
  "('key, 'address, 'public) cipher \<Rightarrow> bytes list \<Rightarrow> string \<Rightarrow> 'address unencrypted_eth_data \<Rightarrow>
   'public unencrypted_ton_data \<Rightarrow> stored_keys_data result" where
  "stored_keys_new cp rng password eth ton =
     (let salt = hd rng;
          key = cp_key_from_password cp password salt;
          (eth_part, rng1) = encrypt_part cp key (ued_phrase eth) (ued_path eth) (tl rng)
      in and_then eth_part (\<lambda>eth_part.
         and_then (fst (encrypt_part cp key (utd_phrase ton) (utd_path ton) rng1)) (\<lambda>ton_part.
         Inr \<lparr>skd_salt = salt, skd_eth = eth_part, skd_ton = ton_part\<rparr>)))"

definition stored_keys_decrypt ::
  "('key, 'address, 'public) cipher \<Rightarrow> stored_keys_data \<Rightarrow> string \<Rightarrow>
   ('address unencrypted_eth_data \<times> 'public unencrypted_ton_data) result" where
  "stored_keys_decrypt cp data password =
     (let key = cp_key_from_password cp password (skd_salt data)
      in and_then (and_then (decrypt_part cp key (skd_eth data))
            (\<lambda>(phrase, path). eth_from_phrase cp phrase path)) (\<lambda>eth.
         and_then (and_then (decrypt_part cp key (skd_ton data))
            (\<lambda>(phrase, path). ton_from_phrase cp phrase path)) (\<lambda>ton.
         Inr (eth, ton))))"

definition decrypt_only_keys ::
  "('key, 'address, 'public) cipher \<Rightarrow> stored_keys_data \<Rightarrow> string \<Rightarrow> (bytes \<times> bytes) result" where
  "decrypt_only_keys cp data password =
     (let key = cp_key_from_password cp password (skd_salt data)
      in and_then (decrypt_secret_key cp key (skd_eth data)) (\<lambda>eth.
         and_then (decrypt_secret_key cp key (skd_ton data)) (\<lambda>ton.
         Inr (eth, ton))))"

section \<open>Facts\<close>

text \<open>What the cipher promises: under the same key and nonce, decryption undoes encryption.\<close>

definition cipher_ok :: "('key, 'address, 'public) cipher \<Rightarrow> bool" where
  "cipher_ok cp \<longleftrightarrow> (\<forall>key nonce data enc. cp_encrypt cp key nonce data = Inr enc \<longrightarrow>
     cp_decrypt_secure_str cp key nonce enc = Inr data)"

lemma encrypt_part_decrypt:
  assumes "cipher_ok cp" "encrypt_part cp key phrase path rng = (Inr part, rng')"
  shows "decrypt_part cp key part = Inr (phrase, path)" "skp_nonce part = hd rng" "rng' = tl rng"
  using assms
  by (auto simp: encrypt_part_def decrypt_part_def cipher_ok_def Let_def and_then_Inr_iff)

lemma stored_keys_newD:
  assumes "stored_keys_new cp rng password eth ton = Inr data"
  shows "\<exists>rng'. skd_salt data = hd rng \<and>
    encrypt_part cp (cp_key_from_password cp password (hd rng)) (ued_phrase eth) (ued_path eth) (tl rng) =
      (Inr (skd_eth data), tl (tl rng)) \<and>
    encrypt_part cp (cp_key_from_password cp password (hd rng)) (utd_phrase ton) (utd_path ton)
      (tl (tl rng)) = (Inr (skd_ton data), rng')"
  using assms
  by (auto simp: stored_keys_new_def Let_def and_then_Inr_iff encrypt_part_def)

lemma stored_keys_new_decrypt:
  assumes "cipher_ok cp" "stored_keys_new cp rng password eth ton = Inr data"
    "eth_from_phrase cp (ued_phrase eth) (ued_path eth) = Inr eth"
    "ton_from_phrase cp (utd_phrase ton) (utd_path ton) = Inr ton"
  shows "stored_keys_decrypt cp data password = Inr (eth, ton) \<and>
    (\<exists>eth_secret ton_secret. decrypt_only_keys cp data password = Inr (eth_secret, ton_secret) \<and>
       cp_derive_secret cp (ued_phrase eth) (ued_path eth) = Inr eth_secret \<and>
       cp_derive_secret cp (utd_phrase ton) (utd_path ton) = Inr ton_secret)"
proof -
  from stored_keys_newD [OF assms(2)] obtain rng' where
    salt: "skd_salt data = hd rng"
    and eth: "encrypt_part cp (cp_key_from_password cp password (hd rng)) (ued_phrase eth)
      (ued_path eth) (tl rng) = (Inr (skd_eth data), tl (tl rng))"
    and ton: "encrypt_part cp (cp_key_from_password cp password (hd rng)) (utd_phrase ton)
      (utd_path ton) (tl (tl rng)) = (Inr (skd_ton data), rng')"
    by blast
  obtain eth_secret where "cp_derive_secret cp (ued_phrase eth) (ued_path eth) = Inr eth_secret"
    using assms(3) by (auto simp: eth_from_phrase_def and_then_Inr_iff)
  moreover obtain ton_secret where "cp_derive_secret cp (utd_phrase ton) (utd_path ton) = Inr ton_secret"
    using assms(4) by (auto simp: ton_from_phrase_def and_then_Inr_iff)
  ultimately show ?thesis
    using encrypt_part_decrypt(1) [OF assms(1) eth] encrypt_part_decrypt(1) [OF assms(1) ton] assms(3,4)
    by (simp add: stored_keys_decrypt_def decrypt_only_keys_def decrypt_secret_key_def salt)
qed

section \<open>Properties\<close>

text \<open>What is stored is read back: decrypting stored keys with the password they were created with
  gives the two phrases and paths and the public data derived from them, and the private keys alone
  are those that the phrases and paths derive.\<close>

theorem stored_keys_roundtrip:
  assumes "cipher_ok cp" "stored_keys_new cp rng password eth ton = Inr data"
    "eth_from_phrase cp (ued_phrase eth) (ued_path eth) = Inr eth"
    "ton_from_phrase cp (utd_phrase ton) (utd_path ton) = Inr ton"
  shows "stored_keys_decrypt cp data password = Inr (eth, ton) \<and>
    (\<exists>eth_secret ton_secret. decrypt_only_keys cp data password = Inr (eth_secret, ton_secret) \<and>
       cp_derive_secret cp (ued_phrase eth) (ued_path eth) = Inr eth_secret \<and>
       cp_derive_secret cp (utd_phrase ton) (utd_path ton) = Inr ton_secret)"
  by (rule stored_keys_new_decrypt [OF assms])

text \<open>A toy cipher: the key is the password, encryption appends the nonce's length.\<close>

definition example_cipher :: "(string, nat, nat) cipher" where
  "example_cipher = \<lparr>cp_key_from_password = \<lambda>password salt. password,
     cp_encrypt = \<lambda>key nonce data. Inr (map (\<lambda>c. of_nat (of_char c)) data @ [of_nat (length nonce)]),
     cp_decrypt_secure_str = \<lambda>key nonce enc. Inr (map (\<lambda>b. char_of (unat b)) (butlast enc)),
     cp_derive_secret = \<lambda>phrase path. Inr [of_nat (length phrase), of_nat (length path)],
     cp_eth_address = \<lambda>secret. Inr (unat (hd secret)),
     cp_ton_public_key = \<lambda>secret. Inr (unat (hd secret))\<rparr>"

lemma example_cipher_ok: "cipher_ok example_cipher"
proof -
  have "char_of (unat (of_nat (of_char c) :: u8)) = c" for c :: char
    by (simp add: unat_of_nat)
  then show ?thesis by (auto simp: cipher_ok_def example_cipher_def comp_def)
qed

theorem stored_keys_roundtrip_witness:
  "\<exists>data. stored_keys_new example_cipher [[1], [2, 2], [3]] ''pw''
     \<lparr>ued_phrase = ''abc'', ued_path = ''m'', ued_address = 3\<rparr>
     \<lparr>utd_phrase = ''de'', utd_path = ''m'', utd_public_key = 2\<rparr> = Inr data \<and>
   decrypt_only_keys example_cipher data ''pw'' = Inr ([3, 1], [2, 1])"
proof -
  let ?eth = "\<lparr>ued_phrase = ''abc'', ued_path = ''m'', ued_address = 3::nat\<rparr>"
  let ?ton = "\<lparr>utd_phrase = ''de'', utd_path = ''m'', utd_public_key = 2::nat\<rparr>"
  obtain data where data: "stored_keys_new example_cipher [[1], [2, 2], [3]] ''pw'' ?eth ?ton = Inr data"
    by (simp add: stored_keys_new_def encrypt_part_def example_cipher_def Let_def)
  have "eth_from_phrase example_cipher ''abc'' ''m'' = Inr ?eth"
    "ton_from_phrase example_cipher ''de'' ''m'' = Inr ?ton"
    by (simp_all add: eth_from_phrase_def ton_from_phrase_def example_cipher_def)
  then have "\<exists>eth_secret ton_secret.
      decrypt_only_keys example_cipher data ''pw'' = Inr (eth_secret, ton_secret) \<and>
      cp_derive_secret example_cipher ''abc'' ''m'' = Inr eth_secret \<and>
      cp_derive_secret example_cipher ''de'' ''m'' = Inr ton_secret"
    using stored_keys_roundtrip [OF example_cipher_ok data] by simp
  then show ?thesis using data by (auto simp: example_cipher_def)
qed

text \<open>Both ciphertexts of a part are made under one key and one nonce, so a stream cipher leaks the
  difference of phrase and path; the two parts use different draws of the generator.\<close>

theorem nonce_shared_by_phrase_and_path:
  fixes cp :: "('key, 'address, 'public) cipher" and password :: string
  defines "key \<equiv> \<lambda>rng. cp_key_from_password cp password (hd rng)"
  assumes new: "stored_keys_new cp rng password eth ton = Inr data"
  shows "skp_nonce (skd_eth data) = hd (tl rng) \<and> skp_nonce (skd_ton data) = hd (tl (tl rng)) \<and>
    cp_encrypt cp (key rng) (skp_nonce (skd_eth data)) (ued_phrase eth) =
      Inr (skp_encrypted_seed_phrase (skd_eth data)) \<and>
    cp_encrypt cp (key rng) (skp_nonce (skd_eth data)) (ued_path eth) =
      Inr (skp_encrypted_derivation_path (skd_eth data)) \<and>
    cp_encrypt cp (key rng) (skp_nonce (skd_ton data)) (utd_phrase ton) =
      Inr (skp_encrypted_seed_phrase (skd_ton data)) \<and>
    cp_encrypt cp (key rng) (skp_nonce (skd_ton data)) (utd_path ton) =
      Inr (skp_encrypted_derivation_path (skd_ton data))"
  using stored_keys_newD [OF new] unfolding key_def
  by (cases "skd_eth data"; cases "skd_ton data") (auto simp: encrypt_part_def Let_def and_then_Inr_iff)

theorem nonce_shared_by_phrase_and_path_witness:
  "\<exists>data. stored_keys_new example_cipher [[1], [2, 2], [3]] ''pw''
     \<lparr>ued_phrase = ''abc'', ued_path = ''m'', ued_address = 3\<rparr>
     \<lparr>utd_phrase = ''de'', utd_path = ''m'', utd_public_key = 2\<rparr> = Inr data \<and>
   skp_nonce (skd_eth data) = [2, 2] \<and> skp_nonce (skd_ton data) = [3]"
proof -
  let ?eth = "\<lparr>ued_phrase = ''abc'', ued_path = ''m'', ued_address = 3::nat\<rparr>"
  let ?ton = "\<lparr>utd_phrase = ''de'', utd_path = ''m'', utd_public_key = 2::nat\<rparr>"
  obtain data where data: "stored_keys_new example_cipher [[1], [2, 2], [3]] ''pw'' ?eth ?ton = Inr data"
    by (simp add: stored_keys_new_def encrypt_part_def example_cipher_def Let_def)
  then show ?thesis using nonce_shared_by_phrase_and_path [OF data] by auto
qed

end
