(* ===== verification/Metrics_Exporter.thy ===== *)
theory Metrics_Exporter
  imports Prelude
begin

text \<open>
  \<open>engine/metrics_exporter/mod.rs\<close>: the double buffer between the collector and the HTTP service,
  the pause between two collections, and the reload of the service. The text the collector writes is
  in \<open>Metrics_Format\<close>. Sockets, HTTP and the two triggers belong to other crates: binding an
  address is a parameter, a running endpoint is the configuration it serves.
\<close>

section \<open>The double buffer\<close>

definition BUFFER_COUNT :: nat where
  "BUFFER_COUNT = 2"

text \<open>The collector holds at most one buffer. Waiting for the write lock, holding it with \<open>turn\<close> the
  texts of this collection and \<open>rest\<close> those not written yet, and holding it after the store that ends
  the turn. A request has loaded the current index, holds the read lock, or has its response.
  \<open>since\<close> is a proof variable: how many collections were published before the load.\<close>

datatype collector =
    CollectorIdle
  | CollectorWaits nat "string list"
  | CollectorWrites nat "string list" "string list" \<comment> \<open>buffer, turn, rest\<close>
  | CollectorStored nat

datatype metrics_request =
    RequestLoaded nat nat \<comment> \<open>buffer, since\<close>
  | RequestReads nat nat
  | RequestDone string nat

text \<open>\<open>published\<close> is a proof variable: the full texts of the collections so far, with the empty text of
  the start first.\<close>

record buffers =
  bf_data :: "string list"
  bf_current_buffer :: nat
  bf_collector :: collector
  bf_requests :: "metrics_request list"
  bf_published :: "string list"

definition buffers_new :: buffers where
  "buffers_new = \<lparr>bf_data = replicate BUFFER_COUNT [], bf_current_buffer = 0,
     bf_collector = CollectorIdle, bf_requests = [], bf_published = [[]]\<rparr>"

text \<open>\<open>acquire_buffer\<close>: the index, then, once the write lock is granted, the cleared buffer.\<close>

definition acquire_buffer_index :: "string list \<Rightarrow> buffers \<Rightarrow> buffers" where
  "acquire_buffer_index turn b =
     b\<lparr>bf_collector := CollectorWaits ((bf_current_buffer b + 1) mod BUFFER_COUNT) turn\<rparr>"

definition write_locked :: "buffers \<Rightarrow> nat \<Rightarrow> bool" where
  "write_locked b i = (case bf_collector b of
     CollectorWrites j _ _ \<Rightarrow> i = j | CollectorStored j \<Rightarrow> i = j | _ \<Rightarrow> False)"

definition read_locked :: "buffers \<Rightarrow> nat \<Rightarrow> bool" where
  "read_locked b i = list_ex (\<lambda>r. case r of RequestReads j _ \<Rightarrow> i = j | _ \<Rightarrow> False) (bf_requests b)"

definition acquire_buffer_locked :: "nat \<Rightarrow> string list \<Rightarrow> buffers \<Rightarrow> buffers" where
  "acquire_buffer_locked next_buffer turn b =
     b\<lparr>bf_data := (bf_data b)[next_buffer := []], bf_collector := CollectorWrites next_buffer turn turn\<rparr>"

text \<open>\<open>MetricsBuffer::write\<close> and \<open>drop\<close>: the store, after which the guard releases the lock.\<close>

definition buffer_write :: "nat \<Rightarrow> string list \<Rightarrow> string \<Rightarrow> string list \<Rightarrow> buffers \<Rightarrow> buffers" where
  "buffer_write next_buffer turn metrics rest b =
     b\<lparr>bf_data := (bf_data b)[next_buffer := bf_data b ! next_buffer @ metrics],
       bf_collector := CollectorWrites next_buffer turn rest\<rparr>"

definition buffer_drop :: "nat \<Rightarrow> string list \<Rightarrow> buffers \<Rightarrow> buffers" where
  "buffer_drop next_buffer turn b =
     b\<lparr>bf_current_buffer := next_buffer, bf_collector := CollectorStored next_buffer,
       bf_published := bf_published b @ [concat turn]\<rparr>"

definition buffer_release :: "buffers \<Rightarrow> buffers" where
  "buffer_release b = b\<lparr>bf_collector := CollectorIdle\<rparr>"

text \<open>\<open>get_metrics\<close>: the index, the read lock, the clone.\<close>

definition get_metrics_index :: "buffers \<Rightarrow> buffers" where
  "get_metrics_index b = b\<lparr>bf_requests := bf_requests b @
     [RequestLoaded (bf_current_buffer b) (length (bf_published b) - 1)]\<rparr>"

definition get_metrics_locked :: "nat \<Rightarrow> nat \<Rightarrow> nat \<Rightarrow> buffers \<Rightarrow> buffers" where
  "get_metrics_locked r i since b = b\<lparr>bf_requests := (bf_requests b)[r := RequestReads i since]\<rparr>"

definition get_metrics_clone :: "nat \<Rightarrow> nat \<Rightarrow> nat \<Rightarrow> buffers \<Rightarrow> buffers" where
  "get_metrics_clone r i since b =
     b\<lparr>bf_requests := (bf_requests b)[r := RequestDone (bf_data b ! i) since]\<rparr>"

text \<open>Any interleaving of one collector (\<open>start_metrics_exporter\<close> is spawned once) with any number of
  requests. A lock is granted whenever no holder excludes it, in any order.\<close>

inductive buffers_step :: "buffers \<Rightarrow> buffers \<Rightarrow> bool" where
  collector_starts: "bf_collector b = CollectorIdle \<Longrightarrow> buffers_step b (acquire_buffer_index turn b)"
| collector_locks: "bf_collector b = CollectorWaits i turn \<Longrightarrow> \<not> read_locked b i \<Longrightarrow>
    buffers_step b (acquire_buffer_locked i turn b)"
| collector_writes: "bf_collector b = CollectorWrites i turn (metrics # rest) \<Longrightarrow>
    buffers_step b (buffer_write i turn metrics rest b)"
| collector_drops: "bf_collector b = CollectorWrites i turn [] \<Longrightarrow> buffers_step b (buffer_drop i turn b)"
| collector_releases: "bf_collector b = CollectorStored i \<Longrightarrow> buffers_step b (buffer_release b)"
| request_starts: "buffers_step b (get_metrics_index b)"
| request_locks: "r < length (bf_requests b) \<Longrightarrow> bf_requests b ! r = RequestLoaded i since \<Longrightarrow>
    \<not> write_locked b i \<Longrightarrow> buffers_step b (get_metrics_locked r i since b)"
| request_clones: "r < length (bf_requests b) \<Longrightarrow> bf_requests b ! r = RequestReads i since \<Longrightarrow>
    buffers_step b (get_metrics_clone r i since b)"

inductive buffers_reachable :: "buffers \<Rightarrow> bool" where
  buffers_start: "buffers_reachable buffers_new"
| buffers_next: "buffers_reachable b \<Longrightarrow> buffers_step b b' \<Longrightarrow> buffers_reachable b'"

section \<open>The pause between collections\<close>

text \<open>\<open>MetricsExporterHandle::wait\<close> against the events that wake it: a store of the interval, the
  notification that follows it, and the end of the sleep. \<open>interval\<close> is the atomic, \<open>current\<close>
  the value loaded at the top of the loop; the result counts the events up to the return,
  \<open>None\<close> while it waits.\<close>

datatype wake_event = StoreInterval u64 | NotifyWaiters | SleepElapsed

fun wait_loop :: "u64 \<Rightarrow> u64 \<Rightarrow> wake_event list \<Rightarrow> nat option" where
  "wait_loop interval current [] = None"
| "wait_loop interval current (StoreInterval i # es) = map_option Suc (wait_loop i current es)"
| "wait_loop interval current (NotifyWaiters # es) =
     (if current = 0 then map_option Suc (wait_loop interval interval es)
      else if interval > 0 then Some 1
      else map_option Suc (wait_loop interval interval es))"
| "wait_loop interval current (SleepElapsed # es) =
     (if current = 0 then map_option Suc (wait_loop interval current es) else Some 1)"

definition exporter_wait :: "u64 \<Rightarrow> wake_event list \<Rightarrow> nat option" where
  "exporter_wait interval es = wait_loop interval interval es"

section \<open>Reload\<close>

record 'address metrics_config =
  mc_listen_address :: 'address
  mc_metrics_path :: string
  mc_collection_interval_sec :: u64

record 'address metrics_exporter =
  mx_running_endpoint :: "'address metrics_config option"
  mx_interval_sec :: u64
  mx_events :: "wake_event list" \<comment> \<open>what the handle's waiters saw\<close>

definition set_interval :: "u64 \<Rightarrow> 'address metrics_exporter \<Rightarrow> 'address metrics_exporter" where
  "set_interval i ex = ex\<lparr>mx_interval_sec := i, mx_events := mx_events ex @ [StoreInterval i, NotifyWaiters]\<rparr>"

text \<open>\<open>MetricsExporter::reload\<close>: the running service is stopped first, then the new one is bound.\<close>

definition exporter_reload ::
  "('address metrics_config \<Rightarrow> unit result) \<Rightarrow> 'address metrics_config option \<Rightarrow>
   'address metrics_exporter \<Rightarrow> unit result \<times> 'address metrics_exporter" where
  "exporter_reload try_bind config ex =
     (let ex = ex\<lparr>mx_running_endpoint := None\<rparr>
      in case config of
           None \<Rightarrow> (Inr (), set_interval 0 ex)
         | Some config \<Rightarrow>
             (case context_res ''Failed to bind metrics exporter server port'' (try_bind config) of
                Inl e \<Rightarrow> (Inl e, ex)
              | Inr _ \<Rightarrow> (Inr (), set_interval (mc_collection_interval_sec config)
                          (ex\<lparr>mx_running_endpoint := Some config\<rparr>))))"

definition exporter_with_config ::
  "('address metrics_config \<Rightarrow> unit result) \<Rightarrow> 'address metrics_config option \<Rightarrow>
   'address metrics_exporter result" where
  "exporter_with_config try_bind config =
     (let exporter = \<lparr>mx_running_endpoint = None, mx_interval_sec = 0, mx_events = []\<rparr>;
          (result, exporter) = exporter_reload try_bind config exporter
      in and_then (context_res ''Failed to create metrics exporter'' result) (\<lambda>_. Inr exporter))"

definition update_metrics_config ::
  "('address metrics_config \<Rightarrow> unit result) \<Rightarrow> 'address metrics_config option \<Rightarrow>
   'address metrics_exporter \<Rightarrow> unit result \<times> 'address metrics_exporter" where
  "update_metrics_config try_bind config ex =
     (case exporter_reload try_bind config ex of
        (result, ex) \<Rightarrow> (context_res ''Failed to update metrics exporter config'' result, ex))"

text \<open>The service: only \<open>GET\<close> of the configured path is answered, with the text of \<open>get_metrics\<close>.\<close>

datatype http_response = NotFoundResponse | MetricsResponse string

definition serve :: "'address metrics_config \<Rightarrow> string \<Rightarrow> string \<Rightarrow> string \<Rightarrow> http_response" where
  "serve config req_method req_uri metrics =
     (if req_method \<noteq> ''GET'' \<or> req_uri \<noteq> mc_metrics_path config then NotFoundResponse
      else MetricsResponse metrics)"

section \<open>Facts about the buffers\<close>

text \<open>Every buffer holds the text of a collection that was published, unless the collector writes it;
  the current buffer holds the newest. A request only waits for a buffer that is at least as new as
  its load. No lock is held for writing and for reading.\<close>

definition collector_inv :: "buffers \<Rightarrow> bool" where
  "collector_inv b = (case bf_collector b of
     CollectorIdle \<Rightarrow> True
   | CollectorWaits i turn \<Rightarrow> i < BUFFER_COUNT \<and> i \<noteq> bf_current_buffer b
   | CollectorWrites i turn rest \<Rightarrow> i < BUFFER_COUNT \<and> i \<noteq> bf_current_buffer b \<and>
       bf_data b ! i @ concat rest = concat turn
   | CollectorStored i \<Rightarrow> i = bf_current_buffer b)"

definition locks_exclude :: "buffers \<Rightarrow> bool" where
  "locks_exclude b \<longleftrightarrow> (\<forall>i. \<not> (read_locked b i \<and> write_locked b i))"

definition writing :: "buffers \<Rightarrow> nat \<Rightarrow> bool" where
  "writing b i = (case bf_collector b of CollectorWrites j _ _ \<Rightarrow> i = j | _ \<Rightarrow> False)"

definition version_ok :: "buffers \<Rightarrow> (nat \<Rightarrow> nat) \<Rightarrow> bool" where
  "version_ok b ver \<longleftrightarrow>
     ver (bf_current_buffer b) = length (bf_published b) - 1 \<and>
     (\<forall>i < BUFFER_COUNT. ver i < length (bf_published b) \<and>
        (\<not> writing b i \<longrightarrow> bf_data b ! i = bf_published b ! ver i))"

definition request_ok :: "string list \<Rightarrow> (nat \<Rightarrow> nat) \<Rightarrow> metrics_request \<Rightarrow> bool" where
  "request_ok published ver r = (case r of
     RequestLoaded i since \<Rightarrow> i < BUFFER_COUNT \<and> since \<le> ver i
   | RequestReads i since \<Rightarrow> i < BUFFER_COUNT \<and> since \<le> ver i
   | RequestDone reply since \<Rightarrow> \<exists>k \<ge> since. k < length published \<and> reply = published ! k)"

definition buffers_inv :: "buffers \<Rightarrow> bool" where
  "buffers_inv b \<longleftrightarrow> length (bf_data b) = BUFFER_COUNT \<and> bf_current_buffer b < BUFFER_COUNT \<and>
     collector_inv b \<and>
     (\<exists>ver. version_ok b ver \<and> (\<forall>r \<in> set (bf_requests b). request_ok (bf_published b) ver r))"

lemma buffers_invI:
  assumes "length (bf_data b) = BUFFER_COUNT" "bf_current_buffer b < BUFFER_COUNT" "collector_inv b"
    "version_ok b ver" "\<And>r. r \<in> set (bf_requests b) \<Longrightarrow> request_ok (bf_published b) ver r"
  shows "buffers_inv b"
  using assms unfolding buffers_inv_def by blast

lemma next_buffer:
  "c < BUFFER_COUNT \<Longrightarrow> (c + 1) mod BUFFER_COUNT < BUFFER_COUNT \<and> (c + 1) mod BUFFER_COUNT \<noteq> c"
  by (auto simp: BUFFER_COUNT_def less_2_cases_iff)

lemmas buffer_ops = acquire_buffer_index_def acquire_buffer_locked_def buffer_write_def
  buffer_drop_def buffer_release_def get_metrics_index_def get_metrics_locked_def get_metrics_clone_def

lemma buffers_inv_new: "buffers_inv buffers_new"
  by (rule buffers_invI [of _ "\<lambda>_. 0"])
    (auto simp: buffers_new_def BUFFER_COUNT_def collector_inv_def version_ok_def less_2_cases_iff)

lemma set_list_update: "x \<in> set (xs[i := y]) \<Longrightarrow> x = y \<or> x \<in> set xs"
  using set_update_subset_insert by fastforce

lemma read_locked_iff: "read_locked b i \<longleftrightarrow> (\<exists>since. RequestReads i since \<in> set (bf_requests b))"
proof -
  have "(case r of RequestReads j _ \<Rightarrow> i = j | _ \<Rightarrow> False) \<longleftrightarrow> (\<exists>since. r = RequestReads i since)" for r
    by (cases r) auto
  then show ?thesis by (auto simp: read_locked_def list_ex_iff)
qed

lemma write_locked_iff:
  "write_locked b i \<longleftrightarrow> bf_collector b = CollectorStored i \<or>
     (\<exists>turn rest. bf_collector b = CollectorWrites i turn rest)"
  by (auto simp: write_locked_def split: collector.splits)

lemma locks_exclude_mono:
  assumes "locks_exclude b" "\<And>i. read_locked b' i \<Longrightarrow> read_locked b i"
    "\<And>i. write_locked b' i \<Longrightarrow> write_locked b i"
  shows "locks_exclude b'"
  using assms unfolding locks_exclude_def by blast

lemma locks_exclude_step:
  assumes excl: "locks_exclude b" and "buffers_step b b'"
  shows "locks_exclude b'"
  using assms(2)
proof cases
  case (collector_starts turn)
  then show ?thesis
    by (intro locks_exclude_mono [OF excl])
      (simp_all add: acquire_buffer_index_def read_locked_def write_locked_def)
next
  case (collector_locks i turn)
  then show ?thesis
    using excl by (auto simp: locks_exclude_def read_locked_def write_locked_def acquire_buffer_locked_def)
next
  case (collector_writes i turn metrics rest)
  then show ?thesis
    by (intro locks_exclude_mono [OF excl]) (simp_all add: buffer_write_def read_locked_def write_locked_def)
next
  case (collector_drops i turn)
  then show ?thesis
    by (intro locks_exclude_mono [OF excl]) (simp_all add: buffer_drop_def read_locked_def write_locked_def)
next
  case (collector_releases i)
  then show ?thesis
    by (intro locks_exclude_mono [OF excl]) (simp_all add: buffer_release_def read_locked_def write_locked_def)
next
  case request_starts
  then show ?thesis
    by (intro locks_exclude_mono [OF excl]) (simp_all add: get_metrics_index_def read_locked_def write_locked_def)
next
  case (request_locks r i since)
  have "j = i \<or> read_locked b j" if "read_locked b' j" for j
    using that request_locks by (auto simp: read_locked_iff get_metrics_locked_def dest!: set_list_update)
  moreover have "write_locked b' j = write_locked b j" for j
    using request_locks by (simp add: write_locked_def get_metrics_locked_def)
  ultimately show ?thesis using excl request_locks by (auto simp: locks_exclude_def)
next
  case (request_clones r i since)
  have "read_locked b j" if "read_locked b' j" for j
    using that request_clones by (auto simp: read_locked_iff get_metrics_clone_def dest!: set_list_update)
  moreover have "write_locked b' j = write_locked b j" for j
    using request_clones by (simp add: write_locked_def get_metrics_clone_def)
  ultimately show ?thesis by (intro locks_exclude_mono [OF excl]) simp_all
qed

lemma request_ok_mono:
  assumes "request_ok published ver r" "\<And>i. i < BUFFER_COUNT \<Longrightarrow> ver i \<le> ver' i"
  shows "request_ok (published @ newer) ver' r"
  using assms by (auto simp: request_ok_def nth_append intro: order_trans split: metrics_request.splits)


text \<open>One case of the step relation changes the buffer under the write lock, the published texts or one
  request.\<close>

lemma buffers_inv_collector:
  assumes inv: "buffers_inv b"
    and same: "bf_requests b' = bf_requests b" "bf_published b' = bf_published b"
      "bf_current_buffer b' = bf_current_buffer b" "length (bf_data b') = length (bf_data b)"
    and col: "collector_inv b'"
    and data: "\<And>i. \<not> writing b' i \<Longrightarrow> \<not> writing b i \<and> bf_data b' ! i = bf_data b ! i"
  shows "buffers_inv b'"
proof -
  obtain ver where "version_ok b ver" "\<forall>r \<in> set (bf_requests b). request_ok (bf_published b) ver r"
    using inv unfolding buffers_inv_def by blast
  then show ?thesis
    using inv col data by (intro buffers_invI [of _ ver]) (auto simp: same buffers_inv_def version_ok_def)
qed

lemma buffers_inv_request:
  assumes inv: "buffers_inv b"
    and same: "bf_collector b' = bf_collector b" "bf_published b' = bf_published b"
      "bf_current_buffer b' = bf_current_buffer b" "bf_data b' = bf_data b"
    and req: "\<And>r ver. r \<in> set (bf_requests b') \<Longrightarrow> version_ok b ver \<Longrightarrow>
      (\<And>r. r \<in> set (bf_requests b) \<Longrightarrow> request_ok (bf_published b) ver r) \<Longrightarrow>
      request_ok (bf_published b) ver r"
  shows "buffers_inv b'"
proof -
  obtain ver where ver: "version_ok b ver" "\<And>r. r \<in> set (bf_requests b) \<Longrightarrow> request_ok (bf_published b) ver r"
    using inv unfolding buffers_inv_def by blast
  have "version_ok b' ver" using ver(1) by (simp add: version_ok_def writing_def same)
  moreover have "collector_inv b'" using inv unfolding buffers_inv_def collector_inv_def same by blast
  ultimately show ?thesis
    using inv req [OF _ ver] by (intro buffers_invI [of _ ver]) (simp_all add: same buffers_inv_def)
qed

lemma buffers_inv_drop:
  assumes inv: "buffers_inv b" and col: "bf_collector b = CollectorWrites i turn []"
  shows "buffers_inv (buffer_drop i turn b)"
proof -
  obtain ver where ver: "version_ok b ver"
    and req: "\<And>r. r \<in> set (bf_requests b) \<Longrightarrow> request_ok (bf_published b) ver r"
    using inv unfolding buffers_inv_def by blast
  have i: "i < BUFFER_COUNT" "i \<noteq> bf_current_buffer b" "bf_data b ! i = concat turn"
    using inv by (simp_all add: buffers_inv_def collector_inv_def col)
  let ?ver = "ver(i := length (bf_published b))"
  have newer: "ver j \<le> ?ver j" if "j < BUFFER_COUNT" for j
    using ver that by (auto simp: version_ok_def less_imp_le)
  show ?thesis
  proof (rule buffers_invI [of _ ?ver])
    show "version_ok (buffer_drop i turn b) ?ver"
      using ver i by (auto simp: version_ok_def buffer_drop_def writing_def col nth_append less_SucI)
    fix r assume "r \<in> set (bf_requests (buffer_drop i turn b))"
    then show "request_ok (bf_published (buffer_drop i turn b)) ?ver r"
      using request_ok_mono [OF req newer, of r "[concat turn]"]
      by (simp add: buffer_drop_def fun_upd_def)
  qed (use inv i in \<open>simp_all add: buffers_inv_def collector_inv_def buffer_drop_def\<close>)
qed

lemma buffers_inv_step:
  assumes inv: "buffers_inv b" and excl: "locks_exclude b" and "buffers_step b b'"
  shows "buffers_inv b'"
  using assms(3)
proof cases
  case (collector_starts turn)
  then show ?thesis
    using inv next_buffer [of "bf_current_buffer b"]
    by (intro buffers_inv_collector [OF inv])
      (simp_all add: acquire_buffer_index_def collector_inv_def writing_def buffers_inv_def)
next
  case (collector_locks i turn)
  then show ?thesis
    using inv
    by (intro buffers_inv_collector [OF inv])
      (auto simp: acquire_buffer_locked_def collector_inv_def writing_def buffers_inv_def)
next
  case (collector_writes i turn metrics rest)
  then show ?thesis
    using inv
    by (intro buffers_inv_collector [OF inv])
      (auto simp: buffer_write_def collector_inv_def writing_def buffers_inv_def)
next
  case (collector_drops i turn)
  then show ?thesis using buffers_inv_drop [OF inv] by simp
next
  case (collector_releases i)
  then show ?thesis
    using inv
    by (intro buffers_inv_collector [OF inv])
      (auto simp: buffer_release_def collector_inv_def writing_def buffers_inv_def)
next
  case request_starts
  then show ?thesis
    using inv
    by (intro buffers_inv_request [OF inv])
      (auto simp: get_metrics_index_def request_ok_def version_ok_def buffers_inv_def)
next
  case (request_locks r i since)
  then have "RequestLoaded i since \<in> set (bf_requests b)" using nth_mem by metis
  with request_locks show ?thesis
    by (intro buffers_inv_request [OF inv])
      (fastforce simp: get_metrics_locked_def request_ok_def dest!: set_list_update)+
next
  case (request_clones r i since)
  then have r: "RequestReads i since \<in> set (bf_requests b)" using nth_mem by metis
  then have "\<not> writing b i"
    using excl by (auto simp: locks_exclude_def read_locked_iff writing_def write_locked_def split: collector.splits)
  with r have "request_ok (bf_published b) ver (RequestDone (bf_data b ! i) since)"
    if "version_ok b ver" "\<And>r. r \<in> set (bf_requests b) \<Longrightarrow> request_ok (bf_published b) ver r" for ver
    using that(1) that(2) [OF r] by (auto simp: request_ok_def version_ok_def)
  with request_clones show ?thesis
    by (intro buffers_inv_request [OF inv]) (auto simp: get_metrics_clone_def dest!: set_list_update)
qed

lemma buffers_reachable_inv: "buffers_reachable b \<Longrightarrow> buffers_inv b \<and> locks_exclude b"
proof (induction rule: buffers_reachable.induct)
  case buffers_start
  show ?case
    using buffers_inv_new by (simp add: locks_exclude_def read_locked_iff buffers_new_def)
next
  case (buffers_next b b')
  then show ?case using buffers_inv_step locks_exclude_step by blast
qed

section \<open>Properties\<close>

text \<open>C32: A scrape never sees a half-written buffer: whatever the interleaving, a response is the whole
  text of one collection, at least as new as the newest when the request read the index, and in the
  meantime the buffer that requests are sent to holds exactly the newest text.\<close>

theorem responses_are_complete:
  assumes "buffers_reachable b" "RequestDone reply since \<in> set (bf_requests b)"
  shows "\<exists>k \<ge> since. k < length (bf_published b) \<and> reply = bf_published b ! k \<and>
    bf_data b ! bf_current_buffer b = last (bf_published b)"
proof -
  from buffers_reachable_inv [OF assms(1)] obtain ver where
    ver: "version_ok b ver" and "request_ok (bf_published b) ver (RequestDone reply since)"
    and current: "bf_current_buffer b < BUFFER_COUNT" and col: "collector_inv b"
    using assms(2) unfolding buffers_inv_def by blast
  then obtain k where k: "since \<le> k" "k < length (bf_published b)" "reply = bf_published b ! k"
    by (auto simp: request_ok_def)
  have "\<not> writing b (bf_current_buffer b)"
    using col by (auto simp: collector_inv_def writing_def split: collector.splits)
  then have "bf_data b ! bf_current_buffer b = bf_published b ! (length (bf_published b) - 1)"
    using ver current by (auto simp: version_ok_def)
  moreover have "bf_published b \<noteq> []" using k(2) by auto
  ultimately show ?thesis using k by (auto simp: last_conv_nth)
qed

theorem responses_are_complete_witness:
  "\<exists>b. buffers_reachable b \<and> RequestDone ''ab'' 1 \<in> set (bf_requests b) \<and>
     last (bf_published b) = bf_data b ! bf_current_buffer b"
proof -
  let ?b0 = buffers_new
  let ?b1 = "acquire_buffer_index [''a'', ''b''] ?b0"
  let ?b2 = "acquire_buffer_locked 1 [''a'', ''b''] ?b1"
  let ?b3 = "buffer_write 1 [''a'', ''b''] ''a'' [''b''] ?b2"
  let ?b4 = "buffer_write 1 [''a'', ''b''] ''b'' [] ?b3"
  let ?b5 = "buffer_drop 1 [''a'', ''b''] ?b4"
  let ?b6 = "buffer_release ?b5"
  let ?b7 = "get_metrics_index ?b6"
  let ?b8 = "get_metrics_locked 0 1 1 ?b7"
  let ?b9 = "get_metrics_clone 0 1 1 ?b8"
  note ops = buffer_ops buffers_new_def BUFFER_COUNT_def
  have "buffers_step ?b0 ?b1" by (rule collector_starts) (simp add: ops)
  moreover have "buffers_step ?b1 ?b2" by (rule collector_locks) (simp_all add: ops read_locked_def)
  moreover have "buffers_step ?b2 ?b3" by (rule collector_writes) (simp add: ops)
  moreover have "buffers_step ?b3 ?b4" by (rule collector_writes) (simp add: ops)
  moreover have "buffers_step ?b4 ?b5" by (rule collector_drops) (simp add: ops)
  moreover have "buffers_step ?b5 ?b6" by (rule collector_releases [of _ 1]) (simp add: ops)
  moreover have "buffers_step ?b6 ?b7" by (rule request_starts)
  moreover have "buffers_step ?b7 ?b8" by (rule request_locks) (simp_all add: ops write_locked_def)
  moreover have "buffers_step ?b8 ?b9" by (rule request_clones) (simp_all add: ops)
  ultimately have reach: "buffers_reachable ?b9"
    by (meson buffers_reachable.intros)
  have "RequestDone ''ab'' 1 \<in> set (bf_requests ?b9)" by (simp add: ops)
  with responses_are_complete [OF reach this] reach show ?thesis by metis
qed

section \<open>The pause and the reload\<close>

text \<open>What happens to the exporter as a whole: a reload that stores an interval, or the end of a sleep.\<close>

datatype exporter_event = ReloadTo u64 | SleepEnds

definition wakes :: "exporter_event \<Rightarrow> wake_event list" where
  "wakes e = (case e of ReloadTo i \<Rightarrow> [StoreInterval i, NotifyWaiters] | SleepEnds \<Rightarrow> [SleepElapsed])"

fun in_force :: "u64 \<Rightarrow> exporter_event list \<Rightarrow> u64" where
  "in_force i [] = i"
| "in_force i (ReloadTo j # es) = in_force j es"
| "in_force i (SleepEnds # es) = in_force i es"

text \<open>The collector pauses exactly as long as it should: it returns from \<open>wait\<close> at the end of a sleep
  or at a reload to a non-zero interval, in both cases only if an interval was in force before; while
  the exporter is disabled it waits whatever happens.\<close>

theorem wait_returns_iff:
  "exporter_wait interval (concat (map wakes es)) \<noteq> None \<longleftrightarrow>
     (\<exists>before e after. es = before @ e # after \<and> in_force interval before > 0 \<and>
        (e = SleepEnds \<or> (\<exists>i. i > 0 \<and> e = ReloadTo i)))"
proof (induction es arbitrary: interval)
  case (Cons e es)
  have split: "(\<exists>before e' after. e # es = before @ e' # after \<and> P before e') \<longleftrightarrow>
      P [] e \<or> (\<exists>before e' after. es = before @ e' # after \<and> P (e # before) e')" for P
    by (metis append_Cons append_Nil list.inject neq_Nil_conv)
  show ?case
    unfolding split using Cons [of interval] Cons [of "in_force interval [e]"]
    by (cases e) (auto simp: exporter_wait_def wakes_def word_gt_0)
qed (simp add: exporter_wait_def)

text \<open>C37: A reload leaves the exporter as its configuration says, whatever ran before: the service runs on
  the new configuration with its interval, or is off with interval zero; if the address cannot be
  bound the error is returned, the old service is gone and the old interval stays in force. Only
  \<open>GET\<close> of the configured path is answered.\<close>

theorem reload_exact:
  "(case exporter_reload try_bind config ex of
      (Inr _, ex') \<Rightarrow> mx_running_endpoint ex' = config \<and>
        mx_interval_sec ex' = (case config of None \<Rightarrow> 0 | Some c \<Rightarrow> mc_collection_interval_sec c) \<and>
        mx_events ex' = mx_events ex @ wakes (ReloadTo (mx_interval_sec ex'))
    | (Inl e, ex') \<Rightarrow> mx_running_endpoint ex' = None \<and> mx_interval_sec ex' = mx_interval_sec ex \<and>
        mx_events ex' = mx_events ex \<and>
        (\<exists>c cause. config = Some c \<and> try_bind c = Inl cause \<and>
           e = Context ''Failed to bind metrics exporter server port'' cause)) \<and>
   (serve c m u metrics = MetricsResponse r \<longleftrightarrow> m = ''GET'' \<and> u = mc_metrics_path c \<and> r = metrics)"
  by (auto simp: exporter_reload_def set_interval_def wakes_def serve_def Let_def context_res_def
      split: option.splits sum.splits)

end
