(* ===== verification/Evm_Contracts.thy ===== *)
theory Evm_Contracts
  imports Prelude
begin

text \<open>
  \<open>engine/eth_subscriber/contracts.rs\<close>: the contract that verifies relay addresses on the EVM chain, as
  its interface file \<open>StakingRelayVerifier.abi\<close> declares it, and the call that
  \<open>verify_relay_staker_address\<close> prepares. The encoding of a call is a parameter.
\<close>

datatype eth_type = EInt nat | EUint nat
datatype eth_token = TokInt uint256 | TokUint uint256

record eth_function =
  ef_name :: string
  ef_inputs :: "(string \<times> eth_type) list"

record evm_contract =
  evc_address :: h160
  evc_functions :: "(string, eth_function) hmap"
  evc_events :: "(string, eth_function) hmap"

definition verify_relay_staker_address_function :: eth_function where
  "verify_relay_staker_address_function =
     \<lparr>ef_name = ''verify_relay_staker_address'',
      ef_inputs = [(''workchain_id'', EInt 8), (''address_body'', EUint 256)]\<rparr>"

definition relay_address_verified_event :: eth_function where
  "relay_address_verified_event =
     \<lparr>ef_name = ''RelayAddressVerified'',
      ef_inputs = [(''eth_addr'', EUint 160), (''workchain_id'', EInt 8), (''addr_body'', EUint 256)]\<rparr>"

definition staking_contract :: "h160 \<Rightarrow> evm_contract" where
  "staking_contract address =
     \<lparr>evc_address = address,
      evc_functions = [(''verify_relay_staker_address'', verify_relay_staker_address_function)],
      evc_events = [(''RelayAddressVerified'', relay_address_verified_event)]\<rparr>"

definition contract_function :: "evm_contract \<Rightarrow> string \<Rightarrow> eth_function result" where
  "contract_function contract name = context_opt ''Invalid name'' (hm_get (evc_functions contract) name)"

definition verification_call ::
  "(eth_function \<Rightarrow> eth_token list \<Rightarrow> u8 list result) \<Rightarrow> evm_contract \<Rightarrow> uint256 \<Rightarrow> u8 list result" where
  "verification_call encode_input verifier_contract staker_address =
     (let workchain_id = TokInt 0; address_body = TokUint staker_address
      in and_then (contract_function verifier_contract ''verify_relay_staker_address'')
           (\<lambda>function. encode_input function [workchain_id, address_body]))"

section \<open>The call matches the interface\<close>

fun token_has_type :: "eth_token \<Rightarrow> eth_type \<Rightarrow> bool" where
  "token_has_type (TokInt v) (EInt bits) \<longleftrightarrow> - (2 ^ (bits - 1)) \<le> sint v \<and> sint v < 2 ^ (bits - 1)"
| "token_has_type (TokUint v) (EUint bits) \<longleftrightarrow> unat v < 2 ^ bits"
| "token_has_type t ty \<longleftrightarrow> False"

text \<open>An encoder that refuses every call but those of the declared types.\<close>

definition strict_encoder ::
  "(eth_function \<Rightarrow> eth_token list \<Rightarrow> u8 list result) \<Rightarrow> eth_function \<Rightarrow> eth_token list \<Rightarrow> u8 list result" where
  "strict_encoder encode_input f tokens =
     (if list_all2 token_has_type tokens (map snd (ef_inputs f)) then encode_input f tokens
      else Inl (Foreign ''Invalid data''))"

lemma unat_uint256_bound: "unat (v :: uint256) < 2 ^ 256"
  using unsigned_less [of v, where ?'a = nat] by simp

lemma verification_call_found:
  "verification_call encode_input (staking_contract address) staker =
   encode_input verify_relay_staker_address_function [TokInt 0, TokUint staker]"
  by (simp add: verification_call_def contract_function_def staking_contract_def)

lemma verification_call_declared:
  "verification_call (strict_encoder encode_input) (staking_contract address) staker =
   verification_call encode_input (staking_contract address) staker"
  using unat_uint256_bound [of staker]
  by (simp add: verification_call_found strict_encoder_def verify_relay_staker_address_function_def)

end
