(* ===== verification/Address_Verification.thy ===== *)
theory Address_Verification
  imports Contract_Models Evm_Contracts
begin

text \<open>
  \<open>EthSubscriber::verify_relay_staker_address\<close> of \<open>engine/eth_subscriber/mod.rs\<close>, with the settings of
  \<open>config/mod.rs\<close> and the state file of \<open>config/verification_state.rs\<close>. The answers of the chain come
  as lists, one element for each request of a polling loop; \<open>None\<close> says that a loop still polls. The
  function returns the effects it had, in order. The encoder of a call and the signing are fields of
  \<open>verify_lib\<close>; amounts in wei are \<open>U256\<close>.
\<close>

section \<open>Settings and state\<close>

record address_verification_config =
  avc_min_balance_gwei :: u64
  avc_gas_price_gwei :: u64
  avc_state_path :: string

definition address_verification_config_default :: address_verification_config where
  "address_verification_config_default =
     \<lparr>avc_min_balance_gwei = 50000000, avc_gas_price_gwei = 300,
      avc_state_path = ''verification-state.json''\<rparr>"

record address_verification_state =
  avs_transaction_hash :: h256
  avs_address :: h160

text \<open>\<open>try_load\<close>: whether the file exists, and what it parses to.\<close>

definition try_load ::
  "bool \<Rightarrow> address_verification_state result \<Rightarrow> address_verification_state option result" where
  "try_load path_exists from_reader =
     (if path_exists then and_then from_reader (\<lambda>state. Inr (Some state)) else Inr None)"

text \<open>\<open>save\<close> opens the file without truncating it, so it keeps what stood behind the new text; a write
  can fail after some characters.\<close>

definition overwrite :: "string \<Rightarrow> string \<Rightarrow> string" where
  "overwrite new old = new @ drop (length new) old"

definition state_save ::
  "(address_verification_state \<Rightarrow> string) \<Rightarrow> unit result \<Rightarrow> (error \<times> nat) option \<Rightarrow>
   address_verification_state \<Rightarrow> string option \<Rightarrow> unit result \<times> string option" where
  "state_save to_string_pretty open_file write_failure state file =
     (case open_file of
        Inl e \<Rightarrow> (Inl e, file)
      | Inr _ \<Rightarrow>
          (let old = (case file of None \<Rightarrow> [] | Some contents \<Rightarrow> contents);
               new = to_string_pretty state
           in case write_failure of
                Some (e, n) \<Rightarrow> (Inl e, Some (overwrite (take n new) old))
              | None \<Rightarrow> (Inr (), Some (overwrite new old))))"

definition GWEI :: u64 where
  "GWEI = 1000000000"

text \<open>The product is computed in \<open>u64\<close> before it becomes a \<open>U256\<close>.\<close>

definition min_balance :: "address_verification_config \<Rightarrow> uint256" where
  "min_balance settings = ucast (avc_min_balance_gwei settings * GWEI)"

definition gas_price :: "address_verification_config \<Rightarrow> uint256" where
  "gas_price settings = ucast (avc_gas_price_gwei settings * GWEI)"

section \<open>The verification\<close>

datatype 'raw verification_effect =
    ClearState
  | SaveState address_verification_state
  | SendRawTransaction 'raw

record 'raw verify_lib =
  vl_encode :: "eth_function \<Rightarrow> eth_token list \<Rightarrow> u8 list result"
  vl_sign :: "h160 \<Rightarrow> uint256 \<Rightarrow> u8 list \<Rightarrow> ('raw \<times> h256) result" \<comment> \<open>to, gas price, data\<close>
  vl_save :: "address_verification_state \<Rightarrow> unit result"
  vl_send :: "'raw \<Rightarrow> unit result"

datatype restored = AlreadyConfirmed | ContinueVerification

text \<open>The polling loop: a lookup finds no transaction (\<open>Inr None\<close>), one that is not in a block yet
  (\<open>Inr (Some None)\<close>), or one with its block.\<close>

fun poll_transaction :: "h256 option option result list \<Rightarrow> restored result option" where
  "poll_transaction [] = None"
| "poll_transaction (Inl e # answers) =
     Some (Inl (Context ''Failed to find ETH address verification transaction'' e))"
| "poll_transaction (Inr (Some (Some block)) # answers) = Some (Inr AlreadyConfirmed)"
| "poll_transaction (Inr (Some None) # answers) = poll_transaction answers"
| "poll_transaction (Inr None # answers) = Some (Inr ContinueVerification)"

definition restore_state ::
  "address_verification_state option result \<Rightarrow> h160 \<Rightarrow> h256 option option result list \<Rightarrow>
   restored result option \<times> 'raw verification_effect list" where
  "restore_state loaded relay_address answers =
     (case loaded of
        Inl e \<Rightarrow> (Some (Inl e), [])
      | Inr None \<Rightarrow> (Some (Inr ContinueVerification), [])
      | Inr (Some state) \<Rightarrow>
          if avs_address state \<noteq> relay_address then (Some (Inr ContinueVerification), [ClearState])
          else (case poll_transaction answers of
                  Some (Inr r) \<Rightarrow> (Some (Inr r), [ClearState])
                | r \<Rightarrow> (r, [])))"

fun wait_min_balance :: "uint256 \<Rightarrow> uint256 result list \<Rightarrow> unit result option" where
  "wait_min_balance required [] = None"
| "wait_min_balance required (Inl e # balances) = Some (Inl e)"
| "wait_min_balance required (Inr balance # balances) =
     (if balance < required then wait_min_balance required balances else Some (Inr ()))"

text \<open>The part after the balance is sufficient.\<close>

definition send_verification ::
  "'raw verify_lib \<Rightarrow> address_verification_config \<Rightarrow> h160 \<Rightarrow> uint256 \<Rightarrow> h160 \<Rightarrow>
   unit result \<times> 'raw verification_effect list" where
  "send_verification lib settings relay_address staker_address verifier_address =
     (case context_res ''Failed to prepare address verification transaction''
             (verification_call (vl_encode lib) (staking_contract verifier_address) staker_address) of
        Inl e \<Rightarrow> (Inl e, [])
      | Inr fn_data \<Rightarrow>
          (case context_res ''Failed to sign address verification transaction''
                  (vl_sign lib verifier_address (gas_price settings) fn_data) of
             Inl e \<Rightarrow> (Inl e, [])
           | Inr (raw_transaction, transaction_hash) \<Rightarrow>
               (let state = \<lparr>avs_transaction_hash = transaction_hash, avs_address = relay_address\<rparr>
                in case context_res ''Failed to save address verification state''
                          (vl_save lib state) of
                     Inl e \<Rightarrow> (Inl e, [])
                   | Inr _ \<Rightarrow>
                       (context_res ''Failed to send raw ETH transaction''
                          (vl_send lib raw_transaction),
                        [SaveState state, SendRawTransaction raw_transaction]))))"

definition verify_relay_staker_address ::
  "'raw verify_lib \<Rightarrow> address_verification_config \<Rightarrow> h160 \<Rightarrow> uint256 \<Rightarrow> h160 \<Rightarrow>
   address_verification_state option result \<Rightarrow> h256 option option result list \<Rightarrow>
   uint256 result list \<Rightarrow> unit result option \<times> 'raw verification_effect list" where
  "verify_relay_staker_address lib settings relay_address staker_address verifier_address
     loaded answers balances =
     (let (restored, effects) = restore_state loaded relay_address answers
      in case restored of
           None \<Rightarrow> (None, effects)
         | Some (Inl e) \<Rightarrow> (Some (Inl e), effects)
         | Some (Inr AlreadyConfirmed) \<Rightarrow> (Some (Inr ()), effects)
         | Some (Inr ContinueVerification) \<Rightarrow>
             (case wait_min_balance (min_balance settings) balances of
                None \<Rightarrow> (None, effects)
              | Some (Inl e) \<Rightarrow> (Some (Inl e), effects)
              | Some (Inr _) \<Rightarrow>
                  (let (r, sent) = send_verification lib settings relay_address staker_address
                         verifier_address
                   in (Some r, effects @ sent))))"

section \<open>Facts\<close>

text \<open>Not truncating does no harm because the text of every state has the same length, the two fields
  being arrays of fixed size.\<close>

lemma state_save_try_load:
  assumes "state_save to_string_pretty open_file write_failure state file = (Inr (), file')"
    and "\<And>x y. length (to_string_pretty x) = length (to_string_pretty y)"
    and "\<And>x. from_text (to_string_pretty x) = Inr x"
    and "file = None \<or> (\<exists>old. file = Some (to_string_pretty old))"
  shows "try_load (file' \<noteq> None) (from_text (the file')) = Inr (Some state)"
proof -
  have "overwrite (to_string_pretty state) (to_string_pretty old) = to_string_pretty state" for old
    using assms(2) [of state old] by (simp add: overwrite_def)
  then show ?thesis
    using assms(1,4) by (auto simp: state_save_def try_load_def overwrite_def Let_def assms(3) split: sum.splits option.splits)
qed

lemma poll_transaction_confirmed:
  "poll_transaction answers = Some (Inr AlreadyConfirmed) \<Longrightarrow>
   \<exists>block. Inr (Some (Some block)) \<in> set answers"
  by (induction answers rule: poll_transaction.induct) auto

lemma poll_transaction_continue:
  "poll_transaction answers = Some (Inr ContinueVerification) \<Longrightarrow> Inr None \<in> set answers"
  by (induction answers rule: poll_transaction.induct) auto

lemma restore_state_continue:
  assumes "restore_state loaded relay answers = (Some (Inr ContinueVerification), effects)"
  shows "loaded = Inr None \<and> effects = [] \<or> (\<exists>st. loaded = Inr (Some st) \<and> effects = [ClearState] \<and>
    (avs_address st \<noteq> relay \<or> Inr None \<in> set answers))"
  using assms
  by (auto simp: restore_state_def dest: poll_transaction_continue
      split: sum.splits option.splits if_splits)

lemma restore_state_confirmed:
  assumes "restore_state loaded relay answers = (Some (Inr AlreadyConfirmed), effects)"
  shows "\<exists>st block. loaded = Inr (Some st) \<and> avs_address st = relay \<and> effects = [ClearState] \<and>
    Inr (Some (Some block)) \<in> set answers"
  using assms
  by (auto simp: restore_state_def dest: poll_transaction_confirmed
      split: sum.splits option.splits if_splits)

lemma restore_state_effects: "set (snd (restore_state loaded relay answers)) \<subseteq> {ClearState}"
  by (auto simp: restore_state_def split: sum.splits option.splits)

lemma wait_min_balance_Inr:
  "wait_min_balance required balances = Some (Inr u) \<Longrightarrow>
   \<exists>balance. Inr balance \<in> set balances \<and> required \<le> balance"
  by (induction required balances rule: wait_min_balance.induct) (auto split: if_splits)

definition sends ::
  "'raw verify_lib \<Rightarrow> address_verification_config \<Rightarrow> h160 \<Rightarrow> uint256 \<Rightarrow> h160 \<Rightarrow> 'raw \<Rightarrow>
   address_verification_state \<Rightarrow> bool" where
  "sends lib settings relay staker verifier raw state \<longleftrightarrow>
     (\<exists>data. vl_encode lib verify_relay_staker_address_function [TokInt 0, TokUint staker] = Inr data \<and>
        vl_sign lib verifier (gas_price settings) data = Inr (raw, avs_transaction_hash state) \<and>
        avs_address state = relay \<and> vl_save lib state = Inr ())"

lemma send_verification_cases:
  assumes "send_verification lib settings relay staker verifier = (r, effects)"
  shows "effects = [] \<and> r \<noteq> Inr () \<or> (\<exists>raw state. effects = [SaveState state, SendRawTransaction raw] \<and>
    sends lib settings relay staker verifier raw state \<and> (r = Inr () \<longleftrightarrow> vl_send lib raw = Inr ()))"
  using assms
  by (fastforce simp: send_verification_def sends_def Let_def context_res_def verification_call_found
      split: sum.splits prod.splits)

text \<open>The three ways the function ends or goes on.\<close>

lemma verify_relay_staker_address_cases:
  fixes lib :: "'raw verify_lib"
  assumes run: "verify_relay_staker_address lib settings relay staker verifier loaded answers balances =
      (r, effects)"
    and restore: "restore_state loaded relay answers = (restored, effects0)"
  shows "effects = effects0 \<and> (r = Some (Inr ()) \<longrightarrow> restored = Some (Inr AlreadyConfirmed)) \<or>
    (\<exists>sent r'. restored = Some (Inr ContinueVerification) \<and>
       wait_min_balance (min_balance settings) balances = Some (Inr ()) \<and> r = Some r' \<and>
       send_verification lib settings relay staker verifier = (r', sent) \<and> effects = effects0 @ sent)"
proof -
  define w where "w = wait_min_balance (min_balance settings) balances"
  have run': "(case restored of
        None \<Rightarrow> (None, effects0)
      | Some (Inl e) \<Rightarrow> (Some (Inl e), effects0)
      | Some (Inr AlreadyConfirmed) \<Rightarrow> (Some (Inr ()), effects0)
      | Some (Inr ContinueVerification) \<Rightarrow>
          (case w of
             None \<Rightarrow> (None, effects0)
           | Some (Inl e) \<Rightarrow> (Some (Inl e), effects0)
           | Some (Inr _) \<Rightarrow>
               (let (r, sent) = send_verification lib settings relay staker verifier
                in (Some r, effects0 @ sent)))) = (r, effects)"
    using run unfolding verify_relay_staker_address_def restore w_def by simp
  show ?thesis
    unfolding w_def [symmetric]
    using run'
    by (auto split: option.splits sum.splits restored.splits prod.splits)
qed

section \<open>Properties\<close>

text \<open>C35: A transaction is sent only when no earlier one of this relay can be confirmed (there is no
  state, it is another relay's, or the chain does not know its transaction), with the balance the
  settings ask for, and only after the state that names it was saved; and the function succeeds
  only when such a transaction was sent or the stored one is in a block.\<close>

theorem verification_sends_only_fresh:
  fixes lib :: "'raw verify_lib"
  assumes "verify_relay_staker_address lib settings relay staker verifier loaded answers balances =
    (r, effects)"
  shows "(\<forall>raw. SendRawTransaction raw \<in> set effects \<longrightarrow>
      (loaded = Inr None \<or> (\<exists>st. loaded = Inr (Some st) \<and>
         (avs_address st \<noteq> relay \<or> Inr None \<in> set answers))) \<and>
      (\<exists>balance. Inr balance \<in> set balances \<and> min_balance settings \<le> balance) \<and>
      (\<exists>pre state. effects = pre @ [SaveState state, SendRawTransaction raw] \<and>
         set pre \<subseteq> {ClearState} \<and> sends lib settings relay staker verifier raw state)) \<and>
    (r = Some (Inr ()) \<longrightarrow>
      (\<exists>raw. SendRawTransaction raw \<in> set effects \<and> vl_send lib raw = Inr ()) \<or>
      (\<exists>st block. loaded = Inr (Some st) \<and> avs_address st = relay \<and>
         Inr (Some (Some block)) \<in> set answers \<and> effects = [ClearState]))"
proof -
  obtain restored and effects0 :: "'raw verification_effect list" where
    restore: "restore_state loaded relay answers = (restored, effects0)" by fastforce
  have clear: "set effects0 \<subseteq> {ClearState}"
    using restore_state_effects [of loaded relay answers, where 'a = 'raw] by (simp add: restore)
  from verify_relay_staker_address_cases [OF assms restore] show ?thesis
  proof (elim disjE exE conjE)
    assume "effects = effects0" "r = Some (Inr ()) \<longrightarrow> restored = Some (Inr AlreadyConfirmed)"
    moreover have "SendRawTransaction raw \<notin> set effects0" for raw using clear by auto
    ultimately show ?thesis using restore_state_confirmed [of loaded relay answers effects0] restore by auto
  next
    fix sent r'
    assume 3: "restored = Some (Inr ContinueVerification)"
      "wait_min_balance (min_balance settings) balances = Some (Inr ())" "r = Some r'"
      "send_verification lib settings relay staker verifier = (r', sent)" "effects = effects0 @ sent"
    note balance = wait_min_balance_Inr [OF 3(2)]
    note fresh = restore_state_continue [OF restore [unfolded 3(1)]]
    from send_verification_cases [OF 3(4)] show ?thesis
    proof (elim disjE exE conjE)
      assume "sent = []" "r' \<noteq> Inr ()"
      then show ?thesis using clear 3(3,5) by auto
    next
      fix raw state
      assume sent: "sent = [SaveState state, SendRawTransaction raw]"
        and ok: "sends lib settings relay staker verifier raw state"
        and r': "(r' = Inr ()) = (vl_send lib raw = Inr ())"
      have only: "raw' = raw" if "SendRawTransaction raw' \<in> set effects" for raw'
        using that clear by (auto simp: 3(5) sent)
      have last: "effects = effects0 @ [SaveState state, SendRawTransaction raw]"
        by (simp add: 3(5) sent)
      have fresh': "loaded = Inr None \<or> (\<exists>st. loaded = Inr (Some st) \<and>
          (avs_address st \<noteq> relay \<or> Inr None \<in> set answers))"
        using fresh by blast
      have sends: "\<exists>pre state. effects = pre @ [SaveState state, SendRawTransaction raw] \<and>
          set pre \<subseteq> {ClearState} \<and> sends lib settings relay staker verifier raw state"
        using last clear ok by blast
      have "SendRawTransaction raw \<in> set effects" by (simp add: last)
      then have ok': "r = Some (Inr ()) \<longrightarrow>
          (\<exists>raw. SendRawTransaction raw \<in> set effects \<and> vl_send lib raw = Inr ())"
        using r' 3(3) by blast
      show ?thesis
      proof (intro conjI allI impI)
        fix raw' assume "SendRawTransaction raw' \<in> set effects"
        then have "raw' = raw" by (rule only)
        then show "\<exists>pre state. effects = pre @ [SaveState state, SendRawTransaction raw'] \<and>
            set pre \<subseteq> {ClearState} \<and> sends lib settings relay staker verifier raw' state"
          using sends by simp
      qed (use fresh' balance ok' in simp_all)
    qed
  qed
qed

text \<open>The relay 8 has no state, a balance below the minimum and then one above it.\<close>

definition example_verify_lib :: "nat verify_lib" where
  "example_verify_lib = \<lparr>vl_encode = \<lambda>_ _. Inr [1], vl_sign = \<lambda>_ _ _. Inr (77, 5),
     vl_save = \<lambda>_. Inr (), vl_send = \<lambda>_. Inr ()\<rparr>"

theorem verification_sends_only_fresh_witness:
  "\<exists>effects. verify_relay_staker_address example_verify_lib address_verification_config_default 8 42 6
     (Inr None) [] [Inr 0, Inr 60000000000000000] = (Some (Inr ()), effects) \<and>
   (\<exists>pre state. effects = pre @ [SaveState state, SendRawTransaction 77] \<and> avs_address state = 8)"
proof -
  have min: "min_balance address_verification_config_default = 50000000000000000"
    by (simp add: min_balance_def address_verification_config_default_def GWEI_def)
  have run: "verify_relay_staker_address example_verify_lib address_verification_config_default 8 42 6
     (Inr None) [] [Inr 0, Inr 60000000000000000] = (Some (Inr ()),
       [SaveState \<lparr>avs_transaction_hash = 5, avs_address = 8\<rparr>, SendRawTransaction 77])"
    by (simp add: verify_relay_staker_address_def restore_state_def min send_verification_def
        verification_call_found example_verify_lib_def Let_def)
  from verification_sends_only_fresh [OF run] show ?thesis
    using run by (auto simp: sends_def)
qed

lemma gwei_to_wei:
  fixes x :: u64
  shows "unat (x * GWEI) = unat x * 1000000000 mod 2 ^ 64" "unat (ucast (x * GWEI) :: uint256) = unat (x * GWEI)"
proof -
  show "unat (x * GWEI) = unat x * 1000000000 mod 2 ^ 64"
    by (simp add: GWEI_def unat_word_ariths)
  have "unat (x * GWEI) < 2 ^ 64" using unsigned_less [of "x * GWEI", where ?'a = nat] by simp
  then have "unat (x * GWEI) < 2 ^ 256" by (rule less_trans) simp
  then show "unat (ucast (x * GWEI) :: uint256) = unat (x * GWEI)"
    by (simp add: unsigned_ucast_eq take_bit_nat_eq_self)
qed

lemma wei_exact_iff: "n * 1000000000 mod 2 ^ 64 = n * (1000000000 :: nat) \<longleftrightarrow> n \<le> 18446744073"
  by (auto simp: mod_eq_self_iff_div_eq_0 div_eq_0_iff)

text \<open>C40: The required balance and the gas price of the transaction are the configured numbers of gwei in
  wei, computed in 64 bits: for all settings they are the exact amounts modulo 2^64, so each is exact
  just when its setting is at most 18446744073 gwei (18.4 ETH); one gwei more demands, and offers, less
  than a single gwei.\<close>

theorem wei_amounts_exact:
  "unat (min_balance settings) = unat (avc_min_balance_gwei settings) * 1000000000 mod 2 ^ 64 \<and>
   unat (gas_price settings) = unat (avc_gas_price_gwei settings) * 1000000000 mod 2 ^ 64 \<and>
   (unat (min_balance settings) = unat (avc_min_balance_gwei settings) * 1000000000 \<longleftrightarrow>
     unat (avc_min_balance_gwei settings) \<le> 18446744073) \<and>
   (unat (gas_price settings) = unat (avc_gas_price_gwei settings) * 1000000000 \<longleftrightarrow>
     unat (avc_gas_price_gwei settings) \<le> 18446744073) \<and>
   unat (min_balance (settings\<lparr>avc_min_balance_gwei := 18446744074\<rparr>)) = 290448384 \<and>
   unat (gas_price (settings\<lparr>avc_gas_price_gwei := 18446744074\<rparr>)) = 290448384"
  by (simp only: min_balance_def gas_price_def gwei_to_wei wei_exact_iff) simp

end
