(* ===== verification/Config.thy ===== *)
theory Config
  imports Eth_Subscriber Metrics_Exporter Address_Verification
begin

text \<open>
  \<open>config/mod.rs\<close>, \<open>config/eth_config.rs\<close> and \<open>utils/serde_helpers.rs\<close>: the settings, the
  values serde fills in for absent fields, the path normalisation of \<open>serde_url\<close> and the
  configuration handed to the node. A structure whose fields may be absent from the file is read from
  a record of options; foreign types (URLs, socket addresses, logger settings) are type parameters.
\<close>

section \<open>EVM networks\<close>

definition default_get_timeout_sec :: u64 where "default_get_timeout_sec = 10"
definition default_blocks_processing_timeout_sec :: u64 where "default_blocks_processing_timeout_sec = 120"
definition default_pool_size :: usize where "default_pool_size = 10"
definition default_poll_interval_sec :: u64 where "default_poll_interval_sec = 60"
definition default_maximum_failed_responses_time_sec :: u64 where
  "default_maximum_failed_responses_time_sec = 604800"

record eth_config_fields =
  ecf_chain_id :: "u32 option"
  ecf_endpoint :: "string option"
  ecf_get_timeout_sec :: "u64 option"
  ecf_blocks_processing_timeout_sec :: "u64 option"
  ecf_pool_size :: "usize option"
  ecf_poll_interval_sec :: "u64 option"
  ecf_max_block_range :: "u64 option"
  ecf_maximum_failed_responses_time_sec :: "u64 option"
  ecf_unknown_fields :: bool

text \<open>\<open>Option::unwrap_or\<close>.\<close>

definition or_default :: "'a \<Rightarrow> 'a option \<Rightarrow> 'a" where
  "or_default d x = (case x of None \<Rightarrow> d | Some y \<Rightarrow> y)"

text \<open>The derived deserialiser: a missing field without a default, and with \<open>deny_unknown_fields\<close> an
  unknown field, is an error. \<open>max_block_range\<close> is itself an option, absent by default.\<close>

definition read_eth_config :: "eth_config_fields \<Rightarrow> eth_config result" where
  "read_eth_config f =
     (if ecf_unknown_fields f then Inl (Foreign ''unknown field'')
      else
        and_then (context_opt ''missing field `chain_id`'' (ecf_chain_id f)) (\<lambda>chain_id.
        and_then (context_opt ''missing field `endpoint`'' (ecf_endpoint f)) (\<lambda>endpoint.
        Inr \<lparr>ec_chain_id = chain_id, ec_endpoint = endpoint,
          ec_get_timeout_sec = or_default default_get_timeout_sec (ecf_get_timeout_sec f),
          ec_blocks_processing_timeout_sec =
            or_default default_blocks_processing_timeout_sec (ecf_blocks_processing_timeout_sec f),
          ec_pool_size = or_default default_pool_size (ecf_pool_size f),
          ec_poll_interval_sec = or_default default_poll_interval_sec (ecf_poll_interval_sec f),
          ec_max_block_range = ecf_max_block_range f,
          ec_maximum_failed_responses_time_sec =
            or_default default_maximum_failed_responses_time_sec
              (ecf_maximum_failed_responses_time_sec f)\<rparr>)))"

section \<open>Metrics path\<close>

text \<open>\<open>serde_url\<close>: \<open>from_str\<close> and \<open>as_str\<close> are those of \<open>PathAndQuery\<close>.\<close>

definition serde_url_serialize :: "('path \<Rightarrow> string) \<Rightarrow> 'path \<Rightarrow> string" where
  "serde_url_serialize as_str data = as_str data"

definition serde_url_deserialize :: "(string \<Rightarrow> 'path result) \<Rightarrow> string \<Rightarrow> 'path result" where
  "serde_url_deserialize from_str data =
     from_str (case data of
         [] \<Rightarrow> ''/''
       | b # _ \<Rightarrow> if b = CHR ''/'' then data else CHR ''/'' # data)"

section \<open>The node\<close>

record ('ip, 'path) node_config =
  nc_adnl_public_ip :: "'ip option"
  nc_adnl_port :: u16
  nc_db_path :: 'path
  nc_temp_keys_path :: 'path
  nc_max_db_memory_usage :: usize
  nc_parallel_archive_downloads :: u32
  nc_states_gc_enabled :: bool
  nc_blocks_gc_enabled :: bool

text \<open>\<open>path\<close> turns a literal into a path, \<open>default_max_db_memory_usage\<close> is the node library's.\<close>

definition node_config_default :: "(string \<Rightarrow> 'path) \<Rightarrow> usize \<Rightarrow> ('ip, 'path) node_config" where
  "node_config_default path default_max_db_memory_usage =
     \<lparr>nc_adnl_public_ip = None, nc_adnl_port = 30303, nc_db_path = path ''db'',
      nc_temp_keys_path = path ''adnl-keys.json'',
      nc_max_db_memory_usage = default_max_db_memory_usage, nc_parallel_archive_downloads = 16,
      nc_states_gc_enabled = True, nc_blocks_gc_enabled = True\<rparr>"

record state_gc_options =
  sgo_offset_sec :: u64
  sgo_interval_sec :: u64

record ('ip, 'path, 'adnl) indexer_config =
  ic_ip_address :: "'ip \<times> u16"
  ic_adnl_keys :: 'adnl
  ic_rocks_db_path :: 'path
  ic_file_db_path :: 'path
  ic_state_gc_options :: "state_gc_options option"
  ic_blocks_gc_before_previous_key_block :: bool
  ic_archives_enabled :: bool
  ic_max_db_memory_usage :: usize
  ic_parallel_archive_downloads :: u32

text \<open>\<open>build_indexer_config\<close>: \<open>addr_v4\<close> is the answer of the address service, \<open>load\<close> reads or
  creates the keys, \<open>join\<close> is the path operation and \<open>offset\<close> the random draw.\<close>

definition build_indexer_config ::
  "'ip option \<Rightarrow> ('path \<Rightarrow> 'adnl result) \<Rightarrow> ('path \<Rightarrow> unit result) \<Rightarrow>
   ('path \<Rightarrow> string \<Rightarrow> 'path) \<Rightarrow> u64 \<Rightarrow> ('ip, 'path) node_config \<Rightarrow>
   ('ip, 'path, 'adnl) indexer_config result" where
  "build_indexer_config addr_v4 load create_dir_all join offset config =
     and_then (case nc_adnl_public_ip config of
                 Some address \<Rightarrow> Inr address
               | None \<Rightarrow> context_opt ''Failed to find public ip'' addr_v4) (\<lambda>ip_address.
     and_then (context_res ''Failed to load temp keys'' (load (nc_temp_keys_path config))) (\<lambda>adnl_keys.
     and_then (create_dir_all (nc_db_path config)) (\<lambda>_.
     Inr \<lparr>ic_ip_address = (ip_address, nc_adnl_port config), ic_adnl_keys = adnl_keys,
          ic_rocks_db_path = join (nc_db_path config) ''rocksdb'',
          ic_file_db_path = join (nc_db_path config) ''files'',
          ic_state_gc_options =
            (if nc_states_gc_enabled config
             then Some \<lparr>sgo_offset_sec = offset, sgo_interval_sec = 3600\<rparr> else None),
          ic_blocks_gc_before_previous_key_block = nc_blocks_gc_enabled config,
          ic_archives_enabled = False,
          ic_max_db_memory_usage = nc_max_db_memory_usage config,
          ic_parallel_archive_downloads = nc_parallel_archive_downloads config\<rparr>)))"

section \<open>Metrics and application\<close>

record 'address metrics_config_fields =
  mcf_listen_address :: "'address option"
  mcf_metrics_path :: "string option"
  mcf_collection_interval_sec :: "u64 option"

text \<open>\<open>MetricsConfig\<close> with its container default: \<open>localhost\<close> stands for 127.0.0.1:10000.\<close>

definition metrics_config_default :: "'address \<Rightarrow> 'address metrics_config" where
  "metrics_config_default localhost =
     \<lparr>mc_listen_address = localhost, mc_metrics_path = ''/'', mc_collection_interval_sec = 10\<rparr>"

definition read_metrics_config ::
  "(string \<Rightarrow> string result) \<Rightarrow> 'address \<Rightarrow> 'address metrics_config_fields \<Rightarrow>
   'address metrics_config result" where
  "read_metrics_config from_str localhost f =
     (let d = metrics_config_default localhost
      in and_then (case mcf_metrics_path f of None \<Rightarrow> Inr (mc_metrics_path d)
                   | Some data \<Rightarrow> serde_url_deserialize from_str data) (\<lambda>path.
         Inr \<lparr>mc_listen_address = or_default (mc_listen_address d) (mcf_listen_address f),
              mc_metrics_path = path,
              mc_collection_interval_sec =
                or_default (mc_collection_interval_sec d) (mcf_collection_interval_sec f)\<rparr>))"

record 'path bridge_config =
  bc_keys_path :: 'path
  bc_bridge_address :: uint256
  bc_ignore_elections :: bool
  bc_networks :: "eth_config list"
  bc_address_verification :: address_verification_config

record ('path, 'ip, 'address, 'logger) app_config =
  ac_master_password :: string
  ac_require_protected_keystore :: bool
  ac_staker_address :: uint256
  ac_bridge_settings :: "'path bridge_config"
  ac_node_settings :: "('ip, 'path) node_config"
  ac_metrics_settings :: "'address metrics_config option"
  ac_logger_settings :: 'logger

record brief_app_config =
  bac_master_password :: "string option"

section \<open>Properties\<close>

text \<open>What \<open>PathAndQuery\<close> documents: the text of a parsed path parses to the same path, and a text that
  starts with a slash parses to a path whose text starts with a slash.\<close>

definition path_and_query_ok :: "(string \<Rightarrow> 'path result) \<Rightarrow> ('path \<Rightarrow> string) \<Rightarrow> bool" where
  "path_and_query_ok from_str as_str \<longleftrightarrow>
     (\<forall>s p. from_str s = Inr p \<longrightarrow> from_str (as_str p) = Inr p \<and>
        (take 1 s = ''/'' \<longrightarrow> take 1 (as_str p) = ''/''))"

lemma deserialize_slash:
  "take 1 s = ''/'' \<Longrightarrow> serde_url_deserialize from_str s = from_str s"
  by (cases s) (auto simp: serde_url_deserialize_def)

text \<open>A metrics path read from the configuration always starts with a slash, with or without one in the
  file, and survives being written and read again.\<close>

theorem serde_url_roundtrip:
  assumes "path_and_query_ok from_str as_str" "serde_url_deserialize from_str s = Inr p"
  shows "take 1 (as_str p) = ''/'' \<and>
    serde_url_deserialize from_str (serde_url_serialize as_str p) = Inr p \<and>
    serde_url_deserialize from_str (CHR ''/'' # s) = from_str (CHR ''/'' # s) \<and>
    (take 1 s \<noteq> ''/'' \<longrightarrow> from_str (CHR ''/'' # s) = Inr p)"
proof -
  obtain t where t: "from_str t = Inr p" "take 1 t = ''/''"
    using assms(2) by (cases s) (auto simp: serde_url_deserialize_def split: if_splits)
  then have "take 1 (as_str p) = ''/''" "from_str (as_str p) = Inr p"
    using assms(1) unfolding path_and_query_ok_def by blast+
  moreover have "from_str (CHR ''/'' # s) = Inr p" if "take 1 s \<noteq> ''/''"
    using assms(2) that by (cases s) (auto simp: serde_url_deserialize_def split: if_splits)
  ultimately show ?thesis
    by (simp add: serde_url_serialize_def deserialize_slash)
qed

theorem serde_url_roundtrip_witness:
  "serde_url_deserialize Inr ''metrics'' = Inr ''/metrics'' \<and>
   serde_url_deserialize Inr (serde_url_serialize id ''/metrics'') = Inr ''/metrics''"
proof -
  have ok: "path_and_query_ok Inr id" by (simp add: path_and_query_ok_def)
  have "serde_url_deserialize Inr ''metrics'' = Inr ''/metrics''"
    by (simp add: serde_url_deserialize_def)
  with serde_url_roundtrip [OF ok this] show ?thesis by simp
qed

end
