(* ===== verification/Command_Line.thy ===== *)
theory Command_Line
  imports Stored_Keys Config
begin

text \<open>
  \<open>main.rs\<close>: the configuration text with its environment variables, the password, the commands
  \<open>generate\<close> and \<open>export\<close>, and the life of the relay: initialisation, reload on SIGHUP and the race
  with the other signals. Prompts, files, the YAML parser and the logger are parameters.
\<close>

section \<open>Environment variables in the configuration\<close>

text \<open>The regular expression of \<open>read_config\<close>: dollar, brace, an identifier, brace.\<close>

definition ident_start :: "char \<Rightarrow> bool" where
  "ident_start c \<longleftrightarrow> c \<in> set ''abcdefghijklmnopqrstuvwxyzABCDEFGHIJKLMNOPQRSTUVWXYZ_''"

definition ident_char :: "char \<Rightarrow> bool" where
  "ident_char c \<longleftrightarrow> c \<in> set ''0123456789'' \<or> ident_start c"

definition match_variable :: "string \<Rightarrow> (string \<times> string) option" where
  "match_variable s =
     (if take 2 s \<noteq> ''${'' then None
      else let name = takeWhile ident_char (drop 2 s); rest = dropWhile ident_char (drop 2 s)
           in if name \<noteq> [] \<and> ident_start (hd name) \<and> take 1 rest = ''}''
              then Some (name, tl rest) else None)"

lemma match_variable_shorter:
  "match_variable s = Some (name, rest) \<Longrightarrow> length rest < length s"
  using length_dropWhile_le [of ident_char "drop 2 s"]
  by (cases s) (auto simp: match_variable_def Let_def split: if_splits)

text \<open>\<open>replace_all\<close>: the leftmost matches, from left to right. A variable that is not set is replaced
  by nothing.\<close>

function replace_variables :: "(string \<Rightarrow> string option) \<Rightarrow> string \<Rightarrow> string" where
  "replace_variables var [] = []"
| "replace_variables var (c # cs) =
     (case match_variable (c # cs) of
        Some (name, rest) \<Rightarrow> or_default [] (var name) @ replace_variables var rest
      | None \<Rightarrow> c # replace_variables var cs)"
  by pat_completeness auto
termination
  by (relation "measure (\<lambda>(_, s). length s)") (auto dest: match_variable_shorter)

definition read_config ::
  "string result \<Rightarrow> (string \<Rightarrow> string option) \<Rightarrow> (string \<Rightarrow> 'yaml result) \<Rightarrow> ('yaml \<Rightarrow> 'config result) \<Rightarrow>
   'config result" where
  "read_config read_to_string var merge try_into =
     and_then (context_res ''Failed to read config'' read_to_string) (\<lambda>data.
     and_then (merge (replace_variables var data)) (\<lambda>config.
     context_res ''Failed to parse config'' (try_into config)))"

section \<open>The password\<close>

text \<open>\<open>interact\<close> is the prompt, asked twice when a confirmation is wanted.\<close>

definition ask_password :: "(bool \<Rightarrow> string result) \<Rightarrow> brief_app_config \<Rightarrow> bool \<Rightarrow> string result" where
  "ask_password interact config with_confirmation =
     (case bac_master_password config of
        Some password \<Rightarrow> if password \<noteq> [] then Inr password else interact with_confirmation
      | None \<Rightarrow> interact with_confirmation)"

definition command_password ::
  "(bool \<Rightarrow> string result) \<Rightarrow> bool \<Rightarrow> brief_app_config \<Rightarrow> bool \<Rightarrow> string result" where
  "command_password interact empty_password config with_confirmation =
     (if empty_password then Inr [] else ask_password interact config with_confirmation)"

section \<open>Keys on disk\<close>

text \<open>The file: absent, or its contents; contents that do not parse are an error.\<close>

type_synonym key_file = "stored_keys_data result option"

definition stored_keys_load :: "key_file \<Rightarrow> stored_keys_data result" where
  "stored_keys_load file = (case file of None \<Rightarrow> Inl (Foreign ''No such file'') | Some contents \<Rightarrow> contents)"

text \<open>\<open>save\<close> creates the file, which empties it, and writes.\<close>

definition stored_keys_save ::
  "unit result \<Rightarrow> unit result \<Rightarrow> stored_keys_data \<Rightarrow> key_file \<Rightarrow> unit result \<times> key_file" where
  "stored_keys_save create to_writer data file =
     (case create of
        Inl e \<Rightarrow> (Inl e, file)
      | Inr _ \<Rightarrow> (case to_writer of
                  Inl e \<Rightarrow> (Inl e, Some (Inl e))
                | Inr _ \<Rightarrow> (Inr (), Some (Inr data))))"

text \<open>\<open>FromPhraseAndPath::generate\<close>, with the fresh mnemonic as an argument.\<close>

definition eth_generate :: "('key, 'address, 'public) cipher \<Rightarrow> string \<Rightarrow> 'address unencrypted_eth_data result" where
  "eth_generate cp mnemonic = eth_from_phrase cp mnemonic eth_default_path"

definition ton_generate :: "('key, 'address, 'public) cipher \<Rightarrow> string \<Rightarrow> 'public unencrypted_ton_data result" where
  "ton_generate cp mnemonic = ton_from_phrase cp mnemonic ton_default_path"

section \<open>The command generate\<close>

record generate_io =
  gio_confirm :: "bool result" \<comment> \<open>overwrite?\<close>
  gio_input :: "string \<Rightarrow> string option \<Rightarrow> string result" \<comment> \<open>prompt and initial text\<close>
  gio_password :: "bool \<Rightarrow> string result"
  gio_eth_mnemonic :: string
  gio_ton_mnemonic :: string
  gio_rng :: "bytes list"
  gio_create :: "unit result"
  gio_to_writer :: "unit result"

definition import_keys ::
  "('key, 'address, 'public) cipher \<Rightarrow> (string \<Rightarrow> string option \<Rightarrow> string result) \<Rightarrow>
   ('address unencrypted_eth_data \<times> 'public unencrypted_ton_data) result" where
  "import_keys cp input =
     and_then (input ''TON seed phrase'' None) (\<lambda>ton_phrase.
     and_then (input ''TON derivation path'' (Some ton_default_path)) (\<lambda>ton_path.
     and_then (ton_from_phrase cp ton_phrase ton_path) (\<lambda>ton.
     and_then (input ''ETH seed phrase'' None) (\<lambda>eth_phrase.
     and_then (input ''ETH derivation path'' (Some eth_default_path)) (\<lambda>eth_path.
     and_then (eth_from_phrase cp eth_phrase eth_path) (\<lambda>eth.
     Inr (eth, ton)))))))"

definition generate_keys ::
  "('key, 'address, 'public) cipher \<Rightarrow> string \<Rightarrow> string \<Rightarrow>
   ('address unencrypted_eth_data \<times> 'public unencrypted_ton_data) result" where
  "generate_keys cp eth_mnemonic ton_mnemonic =
     and_then (eth_generate cp eth_mnemonic) (\<lambda>eth.
     and_then (ton_generate cp ton_mnemonic) (\<lambda>ton. Inr (eth, ton)))"

text \<open>\<open>CmdGenerate::execute\<close>: the printed data (\<open>None\<close> when overwriting was declined) and the file
  afterwards.\<close>

definition cmd_generate ::
  "('key, 'address, 'public) cipher \<Rightarrow> brief_app_config result \<Rightarrow> bool \<Rightarrow> bool \<Rightarrow> generate_io \<Rightarrow> key_file \<Rightarrow>
   ('address unencrypted_eth_data \<times> 'public unencrypted_ton_data) option result \<times> key_file" where
  "cmd_generate cp config import' empty_password io file =
     (case and_then config (\<lambda>config.
            and_then (if file \<noteq> None then gio_confirm io else Inr True) (\<lambda>proceed.
            if \<not> proceed then Inr None
            else
              and_then (if import' then import_keys cp (gio_input io)
                        else generate_keys cp (gio_eth_mnemonic io) (gio_ton_mnemonic io)) (\<lambda>(eth, ton).
              and_then (command_password (gio_password io) empty_password config True) (\<lambda>password.
              and_then (context_res ''Failed to generate encrypted keys data''
                         (stored_keys_new cp (gio_rng io) password eth ton)) (\<lambda>data.
              Inr (Some ((eth, ton), data))))))) of
        Inl e \<Rightarrow> (Inl e, file)
      | Inr None \<Rightarrow> (Inr None, file)
      | Inr (Some (keys, data)) \<Rightarrow>
          (case stored_keys_save (gio_create io) (gio_to_writer io) data file of
             (result, file) \<Rightarrow>
               (and_then (context_res ''Failed to save encrypted keys data'' result) (\<lambda>_. Inr (Some keys)),
                file)))"

section \<open>The command export\<close>

definition cmd_export ::
  "('key, 'address, 'public) cipher \<Rightarrow> brief_app_config result \<Rightarrow> bool \<Rightarrow> (bool \<Rightarrow> string result) \<Rightarrow> key_file \<Rightarrow>
   ('address unencrypted_eth_data \<times> 'public unencrypted_ton_data) result" where
  "cmd_export cp config empty_password interact file =
     and_then config (\<lambda>config.
     and_then (context_res ''Failed to load encrypted keys data'' (stored_keys_load file)) (\<lambda>data.
     and_then (command_password interact empty_password config False) (\<lambda>password.
     context_res ''Failed to decrypt keys data'' (stored_keys_decrypt cp data password))))"

section \<open>The relay\<close>

text \<open>\<open>Relay\<close>: the settings of its logger and the engine, once installed. \<open>relay_init\<close> installs the
  engine before it is started, so a reload during the start already reaches it.\<close>

record ('logger, 'engine) relay =
  rl_logger :: 'logger
  rl_engine :: "'engine option"

definition create_relay ::
  "('path, 'ip, 'address, 'logger) app_config result \<Rightarrow> ('logger \<Rightarrow> 'handle result) \<Rightarrow>
   (('handle, 'engine) relay \<times> ('path, 'ip, 'address, 'logger) app_config) result" where
  "create_relay read init_logger =
     and_then read (\<lambda>config.
     and_then (context_res ''Failed to init logger'' (init_logger (ac_logger_settings config))) (\<lambda>logger.
     Inr (\<lparr>rl_logger = logger, rl_engine = None\<rparr>, config)))"

definition relay_init ::
  "'engine result \<Rightarrow> ('engine \<Rightarrow> unit result) \<Rightarrow> ('logger, 'engine) relay \<Rightarrow>
   unit result \<times> ('logger, 'engine) relay" where
  "relay_init engine_new start r =
     (case context_res ''Failed to create engine'' engine_new of
        Inl e \<Rightarrow> (Inl e, r)
      | Inr engine \<Rightarrow> (context_res ''Failed to start engine'' (start engine), r\<lparr>rl_engine := Some engine\<rparr>))"

text \<open>\<open>parse_logger_config\<close>: appenders that do not deserialise are errors.\<close>

definition parse_logger_config ::
  "('logger \<Rightarrow> 'raw result) \<Rightarrow> ('raw \<Rightarrow> string list) \<Rightarrow> ('raw \<Rightarrow> 'handle result) \<Rightarrow> 'logger \<Rightarrow> 'handle result" where
  "parse_logger_config from_value appender_errors build logger_settings =
     and_then (from_value logger_settings) (\<lambda>config.
     if appender_errors config \<noteq> []
     then Inl (Context (concat (appender_errors config))
                 (Foreign ''Errors found when deserializing the logger config''))
     else build config)"

definition relay_reload ::
  "('path, 'ip, 'address, 'logger) app_config result \<Rightarrow> ('logger \<Rightarrow> 'handle result) \<Rightarrow>
   ('address metrics_config \<Rightarrow> unit result) \<Rightarrow> ('handle, 'address metrics_exporter) relay \<Rightarrow>
   unit result \<times> ('handle, 'address metrics_exporter) relay" where
  "relay_reload read parse try_bind r =
     (case read of
        Inl e \<Rightarrow> (Inl e, r)
      | Inr config \<Rightarrow>
          (case context_res ''Failed to parse logger config'' (parse (ac_logger_settings config)) of
             Inl e \<Rightarrow> (Inl e, r)
           | Inr logger \<Rightarrow>
               (let r = r\<lparr>rl_logger := logger\<rparr>
                in case rl_engine r of
                     None \<Rightarrow> (Inr (), r)
                   | Some engine \<Rightarrow>
                       (case update_metrics_config try_bind (ac_metrics_settings config) engine of
                          (result, engine) \<Rightarrow> (result, r\<lparr>rl_engine := Some engine\<rparr>)))))"

text \<open>\<open>CmdRun::execute\<close> after the relay is created: the engine's future races with the signals. The
  engine's future ends with an error of the start, or when a shutdown is requested.\<close>

datatype run_event = EngineEnds "unit result" | SignalReceived

definition cmd_run ::
  "'relay result \<Rightarrow> 'global result \<Rightarrow> 'keys result \<Rightarrow> unit result \<Rightarrow> run_event \<Rightarrow> unit result" where
  "cmd_run relay global_config protection_keys start_listening_reloads first =
     and_then relay (\<lambda>_.
     and_then (context_res ''Failed to open global config'' global_config) (\<lambda>_.
     and_then (context_res ''Failed to create protection keys'' protection_keys) (\<lambda>_.
     case first of
       SignalReceived \<Rightarrow> Inr ()
     | EngineEnds res \<Rightarrow> and_then start_listening_reloads (\<lambda>_. res))))"


section \<open>Facts\<close>

text \<open>A configuration text in pieces: text without dollars, and variables.\<close>

datatype piece = Literal string | Variable string

fun piece_text :: "piece \<Rightarrow> string" where
  "piece_text (Literal s) = s"
| "piece_text (Variable name) = ''${'' @ name @ ''}''"

fun piece_value :: "(string \<Rightarrow> string option) \<Rightarrow> piece \<Rightarrow> string" where
  "piece_value var (Literal s) = s"
| "piece_value var (Variable name) = (case var name of Some v \<Rightarrow> v | None \<Rightarrow> [])"

fun piece_ok :: "piece \<Rightarrow> bool" where
  "piece_ok (Literal s) = list_all (\<lambda>c. c \<noteq> CHR ''$'') s"
| "piece_ok (Variable name) = (name \<noteq> [] \<and> ident_start (hd name) \<and> list_all ident_char name)"

lemma replace_literal:
  "list_all (\<lambda>c. c \<noteq> CHR ''$'') s \<Longrightarrow> replace_variables var (s @ t) = s @ replace_variables var t"
proof (induction s)
  case (Cons c s)
  have "match_variable (c # s @ t) = None"
    using Cons.prems by (simp add: match_variable_def)
  with Cons show ?case by simp
qed simp

lemma match_variable_name:
  assumes "name \<noteq> []" "ident_start (hd name)" "list_all ident_char name"
  shows "match_variable (''${'' @ name @ ''}'' @ t) = Some (name, t)"
proof -
  have "\<not> ident_char CHR ''}''" by (simp add: ident_char_def ident_start_def)
  then have "takeWhile ident_char (name @ CHR ''}'' # t) = name"
    "dropWhile ident_char (name @ CHR ''}'' # t) = CHR ''}'' # t"
    using assms(3) by (simp_all add: list_all_iff takeWhile_append dropWhile_append)
  with assms show ?thesis by (simp add: match_variable_def)
qed

lemma replace_variable:
  assumes "name \<noteq> []" "ident_start (hd name)" "list_all ident_char name"
  shows "replace_variables var (''${'' @ name @ ''}'' @ t) = or_default [] (var name) @ replace_variables var t"
proof -
  have "\<exists>c cs. ''${'' @ name @ ''}'' @ t = c # cs" by simp
  then obtain c cs where "''${'' @ name @ ''}'' @ t = c # cs" by blast
  then show ?thesis
    using match_variable_name [OF assms, of t] by (simp del: append.simps)
qed

lemma eth_from_phraseD:
  "eth_from_phrase cp phrase path = Inr eth \<Longrightarrow>
   eth_from_phrase cp (ued_phrase eth) (ued_path eth) = Inr eth"
  by (auto simp: eth_from_phrase_def and_then_Inr_iff)

lemma ton_from_phraseD:
  "ton_from_phrase cp phrase path = Inr ton \<Longrightarrow>
   ton_from_phrase cp (utd_phrase ton) (utd_path ton) = Inr ton"
  by (auto simp: ton_from_phrase_def and_then_Inr_iff)

text \<open>Imported and generated keys are derived from their own phrase and path.\<close>

definition keys_derived ::
  "('key, 'address, 'public) cipher \<Rightarrow> 'address unencrypted_eth_data \<times> 'public unencrypted_ton_data \<Rightarrow> bool" where
  "keys_derived cp keys \<longleftrightarrow>
     eth_from_phrase cp (ued_phrase (fst keys)) (ued_path (fst keys)) = Inr (fst keys) \<and>
     ton_from_phrase cp (utd_phrase (snd keys)) (utd_path (snd keys)) = Inr (snd keys)"

lemma import_keys_derived: "import_keys cp input = Inr keys \<Longrightarrow> keys_derived cp keys"
  by (auto simp: import_keys_def keys_derived_def and_then_Inr_iff dest: eth_from_phraseD ton_from_phraseD)

lemma generate_keys_derived: "generate_keys cp m m' = Inr keys \<Longrightarrow> keys_derived cp keys"
  by (auto simp: generate_keys_def eth_generate_def ton_generate_def keys_derived_def and_then_Inr_iff
      dest: eth_from_phraseD ton_from_phraseD)

lemma cmd_generateD:
  assumes "cmd_generate cp config import' empty_password io file = (Inr (Some keys), file')"
  shows "\<exists>cfg password data. config = Inr cfg \<and> keys_derived cp keys \<and>
    command_password (gio_password io) empty_password cfg True = Inr password \<and>
    stored_keys_new cp (gio_rng io) password (fst keys) (snd keys) = Inr data \<and>
    file' = Some (Inr data)"
  using assms
  by (auto simp: cmd_generate_def stored_keys_save_def and_then_Inr_iff
      split: sum.splits option.splits if_splits
      dest!: generate_keys_derived import_keys_derived)


section \<open>Properties\<close>

text \<open>Every variable of a configuration text is replaced by its value, or by nothing when it is not
  set, in one pass: values are not expanded again and the text around them is kept.\<close>

theorem read_config_replaces:
  assumes "list_all piece_ok ps"
  shows "replace_variables var (concat (map piece_text ps)) = concat (map (piece_value var) ps)"
  using assms
proof (induction ps)
  case (Cons p ps)
  show ?case
  proof (cases p)
    case (Literal s)
    with Cons show ?thesis by (simp add: replace_literal)
  next
    case (Variable name)
    with Cons replace_variable [of name var "concat (map piece_text ps)"] show ?thesis
      by (simp add: or_default_def)
  qed
qed simp

theorem read_config_replaces_witness:
  "replace_variables [''HOME'' \<mapsto> ''/h$'', ''X_1'' \<mapsto> ''${HOME}''] ''p: ${HOME}/${X_1}${Y}.'' =
     ''p: /h$/${HOME}.''"
  using read_config_replaces [of "[Literal ''p: '', Variable ''HOME'', Literal ''/'', Variable ''X_1'',
      Variable ''Y'', Literal ''.'']" "[''HOME'' \<mapsto> ''/h$'', ''X_1'' \<mapsto> ''${HOME}'']"]
  by (simp add: ident_char_def ident_start_def
      del: replace_variables.simps)

text \<open>What \<open>generate\<close> printed is what \<open>export\<close> prints, for imported and for fresh keys, when both
  commands end up with the same password, from the configuration, the prompt or the empty one.\<close>

theorem generate_export_roundtrip:
  assumes "cipher_ok cp"
    and "cmd_generate cp (Inr config) import' empty_password io file = (Inr (Some keys), file')"
    and "command_password (gio_password io) empty_password config True = Inr password"
    and "command_password interact empty_password' config' False = Inr password"
  shows "cmd_export cp (Inr config') empty_password' interact file' = Inr keys"
proof -
  from cmd_generateD [OF assms(2)] assms(3) obtain data where
    derived: "keys_derived cp keys" and saved: "file' = Some (Inr data)"
    and new: "stored_keys_new cp (gio_rng io) password (fst keys) (snd keys) = Inr data"
    by auto
  have "stored_keys_decrypt cp data password = Inr keys"
    using stored_keys_new_decrypt [OF assms(1) new] derived by (simp add: keys_derived_def)
  then show ?thesis
    using assms(4) by (simp add: cmd_export_def stored_keys_load_def saved)
qed

theorem generate_export_roundtrip_witness:
  "\<exists>file. cmd_generate example_cipher (Inr \<lparr>bac_master_password = None\<rparr>) False False
       \<lparr>gio_confirm = Inr False, gio_input = \<lambda>_ _. Inr [], gio_password = \<lambda>_. Inr ''pw'',
        gio_eth_mnemonic = ''ab'', gio_ton_mnemonic = ''cde'', gio_rng = [[1], [2], [3]],
        gio_create = Inr (), gio_to_writer = Inr ()\<rparr> None =
     (Inr (Some (\<lparr>ued_phrase = ''ab'', ued_path = eth_default_path, ued_address = 2\<rparr>,
                 \<lparr>utd_phrase = ''cde'', utd_path = ton_default_path, utd_public_key = 3\<rparr>)), file) \<and>
   cmd_export example_cipher (Inr \<lparr>bac_master_password = Some ''pw''\<rparr>) False (\<lambda>_. Inl (Foreign [])) file =
     Inr (\<lparr>ued_phrase = ''ab'', ued_path = eth_default_path, ued_address = 2\<rparr>,
          \<lparr>utd_phrase = ''cde'', utd_path = ton_default_path, utd_public_key = 3\<rparr>)"
proof -
  let ?io = "\<lparr>gio_confirm = Inr False, gio_input = \<lambda>_ _. Inr [], gio_password = \<lambda>_. Inr ''pw'',
        gio_eth_mnemonic = ''ab'', gio_ton_mnemonic = ''cde'', gio_rng = [[1], [2], [3]],
        gio_create = Inr (), gio_to_writer = Inr ()\<rparr>"
  let ?keys = "(\<lparr>ued_phrase = ''ab'', ued_path = eth_default_path, ued_address = 2::nat\<rparr>,
                 \<lparr>utd_phrase = ''cde'', utd_path = ton_default_path, utd_public_key = 3::nat\<rparr>)"
  have "generate_keys example_cipher ''ab'' ''cde'' = Inr ?keys"
    by (simp add: generate_keys_def eth_generate_def ton_generate_def eth_from_phrase_def
        ton_from_phrase_def example_cipher_def)
  moreover obtain data where "stored_keys_new example_cipher [[1], [2], [3]] ''pw'' (fst ?keys) (snd ?keys) = Inr data"
    by (simp add: stored_keys_new_def encrypt_part_def example_cipher_def Let_def)
  ultimately have gen: "cmd_generate example_cipher (Inr \<lparr>bac_master_password = None\<rparr>) False False ?io None =
      (Inr (Some ?keys), Some (Inr data))"
    by (simp add: cmd_generate_def stored_keys_save_def command_password_def ask_password_def)
  show ?thesis
    using gen generate_export_roundtrip [OF example_cipher_ok gen, of "''pw''" "\<lambda>_. Inl (Foreign [])" False
        "\<lparr>bac_master_password = Some ''pw''\<rparr>"]
    by (auto simp: command_password_def ask_password_def)
qed

text \<open>\<open>generate\<close> touches the key file only at the end: the file is changed only after an existing one
  was confirmed to be overwritten and everything before the save succeeded; a declined or failed run
  leaves it as it was, except that a failed write leaves an unreadable file in place of the old keys.\<close>

theorem generate_file_changes:
  "(case cmd_generate cp config import' empty_password io file of
      (result, file') \<Rightarrow>
        (file' = file \<or>
         (\<exists>keys data. result = Inr (Some keys) \<and> file' = Some (Inr data)) \<or>
         (\<exists>e. gio_create io = Inr () \<and> gio_to_writer io = Inl e \<and> file' = Some (Inl e) \<and>
            result = Inl (Context ''Failed to save encrypted keys data'' e))) \<and>
        (file = None \<or> gio_confirm io = Inr True \<or> file' = file) \<and>
        (result = Inr None \<longleftrightarrow> (\<exists>cfg. config = Inr cfg) \<and> file \<noteq> None \<and> gio_confirm io = Inr False))"
  by (cases "gio_to_writer io"; cases "gio_create io")
    (auto simp: cmd_generate_def stored_keys_save_def and_then_def context_res_def
      split: sum.splits option.splits if_splits prod.splits)

end
