(* ===== verification/Keystore_Start.thy ===== *)
theory Keystore_Start
  imports Command_Line
begin

text \<open>
  \<open>KeyStore::new\<close> of \<open>engine/keystore/mod.rs\<close>: the relay opens its key file, or makes one with fresh
  phrases when there is none, and keeps only the two private keys. The random phrases and draws, the
  file operations, the check of a key and the protected memory are parameters.
\<close>

record keystore_io =
  kio_eth_mnemonic :: string
  kio_ton_mnemonic :: string
  kio_rng :: "bytes list"
  kio_create :: "unit result"
  kio_to_writer :: "unit result"

definition keystore_generate ::
  "('key, 'address, 'public) cipher \<Rightarrow> string \<Rightarrow> keystore_io \<Rightarrow> stored_keys_data result" where
  "keystore_generate cp password io =
     and_then (eth_generate cp (kio_eth_mnemonic io)) (\<lambda>eth.
     and_then (ton_generate cp (kio_ton_mnemonic io)) (\<lambda>ton.
     stored_keys_new cp (kio_rng io) password eth ton))"

text \<open>The stored data, and the file afterwards.\<close>

definition keystore_data ::
  "('key, 'address, 'public) cipher \<Rightarrow> string \<Rightarrow> keystore_io \<Rightarrow> key_file \<Rightarrow>
   stored_keys_data result \<times> key_file" where
  "keystore_data cp password io keys_path =
     (if keys_path \<noteq> None then (stored_keys_load keys_path, keys_path)
      else case keystore_generate cp password io of
             Inl e \<Rightarrow> (Inl e, keys_path)
           | Inr data \<Rightarrow>
               (case stored_keys_save (kio_create io) (kio_to_writer io) data keys_path of
                  (result, keys_path) \<Rightarrow> (and_then result (\<lambda>_. Inr data), keys_path)))"

definition keystore_new ::
  "('key, 'address, 'public) cipher \<Rightarrow> (bytes \<Rightarrow> 'eth result) \<Rightarrow> (bytes \<Rightarrow> 'ton result) \<Rightarrow>
   ('eth \<times> 'ton \<Rightarrow> 'region result) \<Rightarrow> string \<Rightarrow> keystore_io \<Rightarrow> key_file \<Rightarrow>
   'region result \<times> key_file" where
  "keystore_new cp eth_from_slice ton_from_bytes make_region password io keys_path =
     (case keystore_data cp password io keys_path of
        (stored_data, keys_path) \<Rightarrow>
          (and_then stored_data (\<lambda>stored_data.
           and_then (decrypt_only_keys cp stored_data password) (\<lambda>(eth_secret_key, ton_secret_key).
           and_then (eth_from_slice eth_secret_key) (\<lambda>eth.
           and_then (ton_from_bytes ton_secret_key) (\<lambda>ton.
           context_res ''Failed to create protected region'' (make_region (eth, ton)))))), keys_path))"

section \<open>Facts\<close>

lemma keystore_data_generated:
  assumes "keystore_data cp password io None = (Inr data, file)"
  shows "keystore_generate cp password io = Inr data \<and> file = Some (Inr data)"
  using assms
  by (auto simp: keystore_data_def stored_keys_save_def and_then_Inr_iff
      split: sum.splits prod.splits)

lemma keystore_generateD:
  assumes "keystore_generate cp password io = Inr data"
  shows "\<exists>eth ton. eth_from_phrase cp (kio_eth_mnemonic io) eth_default_path = Inr eth \<and>
    ton_from_phrase cp (kio_ton_mnemonic io) ton_default_path = Inr ton \<and>
    ued_phrase eth = kio_eth_mnemonic io \<and> ued_path eth = eth_default_path \<and>
    utd_phrase ton = kio_ton_mnemonic io \<and> utd_path ton = ton_default_path \<and>
    stored_keys_new cp (kio_rng io) password eth ton = Inr data"
  using assms
  by (auto simp: keystore_generate_def eth_generate_def ton_generate_def eth_from_phrase_def
      ton_from_phrase_def and_then_Inr_iff)

section \<open>Property\<close>

text \<open>A relay keeps its identity over restarts: the first start without a key file uses the keys of the
  fresh phrases and writes the file, every later start with the same password gives the same keys
  whatever the random generators yield then, and no start changes a file that exists.\<close>

theorem keystore_restart:
  assumes "cipher_ok cp"
    and "keystore_new cp from_eth from_ton make_region password io None = (Inr region, file)"
  shows "keystore_new cp from_eth from_ton make_region password io' file = (Inr region, file) \<and>
    (\<exists>eth_secret ton_secret eth ton.
       cp_derive_secret cp (kio_eth_mnemonic io) eth_default_path = Inr eth_secret \<and>
       cp_derive_secret cp (kio_ton_mnemonic io) ton_default_path = Inr ton_secret \<and>
       from_eth eth_secret = Inr eth \<and> from_ton ton_secret = Inr ton \<and>
       make_region (eth, ton) = Inr region) \<and>
    snd (keystore_new cp from_eth from_ton make_region password' io' (Some contents)) = Some contents"
proof -
  from assms(2) obtain data where data: "keystore_data cp password io None = (Inr data, file)"
    by (auto simp: keystore_new_def and_then_Inr_iff split: prod.splits)
  from keystore_data_generated [OF data] have
    gen: "keystore_generate cp password io = Inr data" and saved: "file = Some (Inr data)" by auto
  from keystore_generateD [OF gen] obtain eth ton where
    eth: "eth_from_phrase cp (kio_eth_mnemonic io) eth_default_path = Inr eth"
      "ued_phrase eth = kio_eth_mnemonic io" "ued_path eth = eth_default_path"
    and ton: "ton_from_phrase cp (kio_ton_mnemonic io) ton_default_path = Inr ton"
      "utd_phrase ton = kio_ton_mnemonic io" "utd_path ton = ton_default_path"
    and new: "stored_keys_new cp (kio_rng io) password eth ton = Inr data" by blast
  obtain eth_secret ton_secret where
    keys: "decrypt_only_keys cp data password = Inr (eth_secret, ton_secret)"
      "cp_derive_secret cp (kio_eth_mnemonic io) eth_default_path = Inr eth_secret"
      "cp_derive_secret cp (kio_ton_mnemonic io) ton_default_path = Inr ton_secret"
    using stored_keys_new_decrypt [OF assms(1) new] eth ton by auto
  have "keystore_data cp password io' file = (Inr data, file)"
    by (simp add: keystore_data_def saved stored_keys_load_def)
  then show ?thesis
    using assms(2) data keys by (auto simp: keystore_new_def keystore_data_def and_then_Inr_iff)
qed

theorem keystore_restart_witness:
  "\<exists>file. keystore_new example_cipher Inr Inr Inr ''pw'' \<lparr>kio_eth_mnemonic = ''ab'',
       kio_ton_mnemonic = ''cde'', kio_rng = [[1], [2], [3]], kio_create = Inr (),
       kio_to_writer = Inr ()\<rparr> None = (Inr ([2, 16], [3, 17]), file) \<and>
     keystore_new example_cipher Inr Inr Inr ''pw'' \<lparr>kio_eth_mnemonic = ''x'',
       kio_ton_mnemonic = ''y'', kio_rng = [], kio_create = Inr (),
       kio_to_writer = Inr ()\<rparr> file = (Inr ([2, 16], [3, 17]), file)"
proof -
  let ?io = "\<lparr>kio_eth_mnemonic = ''ab'', kio_ton_mnemonic = ''cde'', kio_rng = [[1], [2], [3]],
      kio_create = Inr (), kio_to_writer = Inr ()\<rparr>"
  obtain path region where run:
    "keystore_new example_cipher Inr Inr Inr ''pw'' ?io None = (Inr region, path)"
    by (simp add: keystore_new_def keystore_data_def keystore_generate_def eth_generate_def
        ton_generate_def eth_from_phrase_def ton_from_phrase_def stored_keys_save_def
        stored_keys_new_def encrypt_part_def decrypt_only_keys_def decrypt_secret_key_def
        decrypt_part_def example_cipher_def Let_def)
  have "region = ([2, 16], [3, 17])"
    using keystore_restart [OF example_cipher_ok run]
    by (auto simp: example_cipher_def eth_default_path_def ton_default_path_def)
  with run keystore_restart [OF example_cipher_ok run] show ?thesis by blast
qed

end
