(* ===== verification/Eth_Address.thy ===== *)
theory Eth_Address
  imports Prelude
begin

text \<open>
  \<open>utils/eth_address.rs\<close>: the address of an Ethereum key and its text. An address is its twenty bytes;
  the hash and the hexadecimal digits belong to other crates and are arguments. A slice of another
  length makes \<open>Address::from_slice\<close> panic, which is an error here.
\<close>

type_synonym eth_address = "u8 list"

definition address_from_slice :: "u8 list \<Rightarrow> eth_address result" where
  "address_from_slice src =
     (if length src = 20 then Inr src else Inl (Foreign ''address has 20 bytes''))"

definition compute_eth_address :: "(u8 list \<Rightarrow> u8 list) \<Rightarrow> u8 list \<Rightarrow> eth_address result" where
  "compute_eth_address keccak256 public_key_uncompressed =
     (let pub_key = drop 1 public_key_uncompressed
      in address_from_slice (drop (32 - 20) (keccak256 pub_key)))"

definition eth_address_to_string :: "(u8 list \<Rightarrow> string) \<Rightarrow> eth_address \<Rightarrow> string" where
  "eth_address_to_string hex_encode address = ''0x'' @ hex_encode address"

section \<open>Facts\<close>

lemma compute_eth_address_ok:
  assumes "length (keccak256 (drop 1 public_key)) = 32"
  shows "compute_eth_address keccak256 public_key = Inr (drop 12 (keccak256 (drop 1 public_key)))"
  using assms by (simp add: compute_eth_address_def address_from_slice_def)

text \<open>The first byte of an uncompressed key, its format, does not matter.\<close>

lemma compute_eth_address_format:
  "compute_eth_address keccak256 (b # point) = compute_eth_address keccak256 (b' # point)"
  by (simp add: compute_eth_address_def)

lemma eth_address_to_string_inj:
  "inj hex_encode \<Longrightarrow> eth_address_to_string hex_encode a = eth_address_to_string hex_encode b \<longleftrightarrow> a = b"
  by (simp add: eth_address_to_string_def inj_eq)

end
