(* ===== verification/Identity.thy ===== *)
theory Identity
  imports Keystore_Start Keystore Eth_Address
begin

text \<open>
  Who the relay is: the derivation of the two keys from their phrases (\<open>config/stored_keys.rs\<close>), the
  signers that \<open>KeyStore::new\<close> builds from the protected keys (\<open>engine/keystore/mod.rs\<close>), and what the
  commands print. \<open>crypto_lib\<close> has the functions of other crates that the code calls; with them the
  abstract \<open>cipher\<close> of \<open>Stored_Keys\<close> becomes a concrete record.
\<close>

record ('mnemonic, 'key, 'esk, 'tsk) crypto_lib =
  cl_mnemonic_from_phrase :: "string \<Rightarrow> 'mnemonic result"
  cl_seed :: "'mnemonic \<Rightarrow> bytes"
  cl_derive :: "bytes \<Rightarrow> string \<Rightarrow> bytes result" \<comment> \<open>seed, derivation path\<close>
  cl_eth_secret_key :: "bytes \<Rightarrow> 'esk result"
  cl_eth_public_key :: "'esk \<Rightarrow> bytes" \<comment> \<open>uncompressed\<close>
  cl_keccak256 :: "bytes \<Rightarrow> bytes"
  cl_sign_recoverable :: "'esk \<Rightarrow> bytes \<Rightarrow> 32 word \<times> bytes"
  cl_ton_secret_key :: "bytes \<Rightarrow> 'tsk result"
  cl_ton_public_key :: "'tsk \<Rightarrow> uint256"
  cl_hex_encode :: "bytes \<Rightarrow> string"
  cl_to_hex_string :: "uint256 \<Rightarrow> string"
  cl_symmetric_key :: "string \<Rightarrow> bytes \<Rightarrow> 'key"
  cl_encrypt :: "'key \<Rightarrow> bytes \<Rightarrow> string \<Rightarrow> bytes result"
  cl_decrypt_secure_str :: "'key \<Rightarrow> bytes \<Rightarrow> bytes \<Rightarrow> string result"

section \<open>Deriving keys\<close>

definition derive_secret_from_phrase ::
  "('mnemonic, 'key, 'esk, 'tsk) crypto_lib \<Rightarrow> string \<Rightarrow> string \<Rightarrow> bytes result" where
  "derive_secret_from_phrase lib phrase path =
     and_then (cl_mnemonic_from_phrase lib phrase) (\<lambda>mnemonic.
     (let seed_bytes = cl_seed lib mnemonic
      in case cl_derive lib seed_bytes path of
           Inl _ \<Rightarrow> Inl (Foreign ''Failed to derive key from mnemonic'')
         | Inr derived \<Rightarrow> Inr derived))"

text \<open>The two instances of \<open>from_phrase\<close> after the secret is derived.\<close>

definition eth_address_of_secret ::
  "('mnemonic, 'key, 'esk, 'tsk) crypto_lib \<Rightarrow> bytes \<Rightarrow> eth_address result" where
  "eth_address_of_secret lib secret =
     and_then (cl_eth_secret_key lib secret) (\<lambda>secret_key.
     compute_eth_address (cl_keccak256 lib) (cl_eth_public_key lib secret_key))"

definition ton_public_key_of_secret ::
  "('mnemonic, 'key, 'esk, 'tsk) crypto_lib \<Rightarrow> bytes \<Rightarrow> uint256 result" where
  "ton_public_key_of_secret lib secret =
     and_then (cl_ton_secret_key lib secret) (\<lambda>secret_key. Inr (cl_ton_public_key lib secret_key))"

definition relay_cipher ::
  "('mnemonic, 'key, 'esk, 'tsk) crypto_lib \<Rightarrow> ('key, eth_address, uint256) cipher" where
  "relay_cipher lib =
     \<lparr>cp_key_from_password = cl_symmetric_key lib,
      cp_encrypt = cl_encrypt lib,
      cp_decrypt_secure_str = cl_decrypt_secure_str lib,
      cp_derive_secret = derive_secret_from_phrase lib,
      cp_eth_address = eth_address_of_secret lib,
      cp_ton_public_key = ton_public_key_of_secret lib\<rparr>"

section \<open>What the commands print\<close>

record printed_eth_data =
  ped_phrase :: string
  ped_path :: string
  ped_address :: string

record printed_ton_data =
  ptd_phrase :: string
  ptd_path :: string
  ptd_public_key :: string

definition eth_as_printable ::
  "('mnemonic, 'key, 'esk, 'tsk) crypto_lib \<Rightarrow> eth_address unencrypted_eth_data \<Rightarrow> printed_eth_data" where
  "eth_as_printable lib eth =
     \<lparr>ped_phrase = ued_phrase eth, ped_path = ued_path eth,
      ped_address = eth_address_to_string (cl_hex_encode lib) (ued_address eth)\<rparr>"

definition ton_as_printable ::
  "('mnemonic, 'key, 'esk, 'tsk) crypto_lib \<Rightarrow> uint256 unencrypted_ton_data \<Rightarrow> printed_ton_data" where
  "ton_as_printable lib ton =
     \<lparr>ptd_phrase = utd_phrase ton, ptd_path = utd_path ton,
      ptd_public_key = cl_to_hex_string lib (utd_public_key ton)\<rparr>"

section \<open>Signers\<close>

text \<open>\<open>Keys\<close> in protected memory; \<open>lock\<close> reads them. A signer computes its public part once.\<close>

type_synonym ('esk, 'tsk) keys = "'esk \<times> 'tsk"

record ('region, 'address) eth_signer =
  esg_keys :: 'region
  esg_address :: 'address

record 'region ton_signer =
  tsg_keys :: 'region
  tsg_public_key :: uint256

definition eth_signer_new ::
  "('mnemonic, 'key, 'esk, 'tsk) crypto_lib \<Rightarrow> ('region \<Rightarrow> ('esk, 'tsk) keys) \<Rightarrow> 'region \<Rightarrow>
   ('region, eth_address) eth_signer result" where
  "eth_signer_new lib lock keys =
     (let public_key = cl_eth_public_key lib (fst (lock keys))
      in and_then (compute_eth_address (cl_keccak256 lib) public_key)
           (\<lambda>address. Inr \<lparr>esg_keys = keys, esg_address = address\<rparr>))"

definition ton_signer_new ::
  "('mnemonic, 'key, 'esk, 'tsk) crypto_lib \<Rightarrow> ('region \<Rightarrow> ('esk, 'tsk) keys) \<Rightarrow> 'region \<Rightarrow>
   'region ton_signer" where
  "ton_signer_new lib lock keys =
     \<lparr>tsg_keys = keys, tsg_public_key = cl_ton_public_key lib (snd (lock keys))\<rparr>"

definition eth_signer_sign ::
  "('mnemonic, 'key, 'esk, 'tsk) crypto_lib \<Rightarrow> ('region \<Rightarrow> ('esk, 'tsk) keys) \<Rightarrow>
   ('region, eth_address) eth_signer \<Rightarrow> bytes \<Rightarrow> bytes" where
  "eth_signer_sign lib lock signer data =
     eth_sign (cl_keccak256 lib) (cl_sign_recoverable lib (fst (lock (esg_keys signer)))) data"

definition ton_signer_sign ::
  "('tsk, 'body) encoder \<Rightarrow> ('region \<Rightarrow> ('esk, 'tsk) keys) \<Rightarrow> 'region ton_signer \<Rightarrow> u64 \<Rightarrow>
   unsigned_message \<Rightarrow> 'body signed_message result" where
  "ton_signer_sign encode_input lock signer time unsigned_message =
     ton_sign encode_input (tsg_public_key signer) (snd (lock (tsg_keys signer))) time unsigned_message"

text \<open>\<open>EthSigner::handle().secret_key()\<close>, which the verification of the relay's address signs with.\<close>

definition eth_signer_secret_key ::
  "('region \<Rightarrow> ('esk, 'tsk) keys) \<Rightarrow> ('region, eth_address) eth_signer \<Rightarrow> 'esk" where
  "eth_signer_secret_key lock signer = fst (lock (esg_keys signer))"

record 'region keystore =
  ks_eth :: "('region, eth_address) eth_signer"
  ks_ton :: "'region ton_signer"

definition keystore_open ::
  "('mnemonic, 'key, 'esk, 'tsk) crypto_lib \<Rightarrow> (('esk, 'tsk) keys \<Rightarrow> 'region result) \<Rightarrow>
   ('region \<Rightarrow> ('esk, 'tsk) keys) \<Rightarrow> string \<Rightarrow> keystore_io \<Rightarrow> key_file \<Rightarrow>
   'region keystore result \<times> key_file" where
  "keystore_open lib make_region lock password io keys_path =
     (case keystore_new (relay_cipher lib) (cl_eth_secret_key lib) (cl_ton_secret_key lib) make_region
             password io keys_path of
        (region, keys_path) \<Rightarrow>
          (and_then region (\<lambda>keys.
           and_then (eth_signer_new lib lock keys) (\<lambda>eth.
           Inr \<lparr>ks_eth = eth, ks_ton = ton_signer_new lib lock keys\<rparr>)), keys_path))"

section \<open>Facts\<close>

lemma eth_address_of_secretD:
  assumes "eth_address_of_secret lib secret = Inr address"
  shows "\<exists>esk. cl_eth_secret_key lib secret = Inr esk \<and>
    compute_eth_address (cl_keccak256 lib) (cl_eth_public_key lib esk) = Inr address"
  using assms by (auto simp: eth_address_of_secret_def and_then_Inr_iff)

lemma ton_public_key_of_secretD:
  assumes "ton_public_key_of_secret lib secret = Inr public_key"
  shows "\<exists>tsk. cl_ton_secret_key lib secret = Inr tsk \<and> cl_ton_public_key lib tsk = public_key"
  using assms by (auto simp: ton_public_key_of_secret_def and_then_Inr_iff)

lemma keys_derivedD:
  assumes "keys_derived (relay_cipher lib) (eth, ton)"
  shows "\<exists>eth_secret ton_secret.
    derive_secret_from_phrase lib (ued_phrase eth) (ued_path eth) = Inr eth_secret \<and>
    eth_address_of_secret lib eth_secret = Inr (ued_address eth) \<and>
    derive_secret_from_phrase lib (utd_phrase ton) (utd_path ton) = Inr ton_secret \<and>
    ton_public_key_of_secret lib ton_secret = Inr (utd_public_key ton)"
  using assms
  by (cases eth; cases ton) (auto simp: keys_derived_def eth_from_phrase_def ton_from_phrase_def relay_cipher_def
      and_then_Inr_iff)

lemma keystore_open_existing:
  assumes "decrypt_only_keys (relay_cipher lib) data password = Inr (eth_secret, ton_secret)"
    and "cl_eth_secret_key lib eth_secret = Inr esk" "cl_ton_secret_key lib ton_secret = Inr tsk"
    and "compute_eth_address (cl_keccak256 lib) (cl_eth_public_key lib esk) = Inr address"
    and lock: "\<And>keys region. make_region keys = Inr region \<Longrightarrow> lock region = keys"
  shows "keystore_open lib make_region lock password io (Some (Inr data)) =
    (and_then (context_res ''Failed to create protected region'' (make_region (esk, tsk)))
       (\<lambda>region. Inr \<lparr>ks_eth = \<lparr>esg_keys = region, esg_address = address\<rparr>,
          ks_ton = \<lparr>tsg_keys = region, tsg_public_key = cl_ton_public_key lib tsk\<rparr>\<rparr>), Some (Inr data))"
  using assms
  by (cases "make_region (esk, tsk)")
    (auto simp: keystore_open_def keystore_new_def keystore_data_def stored_keys_load_def
      eth_signer_new_def ton_signer_new_def)

section \<open>Property\<close>

text \<open>C29: The identity that \<open>generate\<close> prints is the one the relay works under: started with the written
  file and the same password, the relay opens its keys unless it gets no protected memory, leaves
  the file alone, and its signers have exactly the printed address and the printed public key, with
  the secret keys that belong to them.\<close>

theorem relay_uses_printed_identity:
  assumes "cipher_ok (relay_cipher lib)"
    and "\<And>keys region. make_region keys = Inr region \<Longrightarrow> lock region = keys"
    and "cmd_generate (relay_cipher lib) (Inr config) import' empty_password io file =
      (Inr (Some (eth, ton)), file')"
    and "command_password (gio_password io) empty_password config True = Inr password"
  shows "\<exists>esk tsk. keystore_open lib make_region lock password io' file' =
      (and_then (context_res ''Failed to create protected region'' (make_region (esk, tsk)))
         (\<lambda>region. Inr \<lparr>ks_eth = \<lparr>esg_keys = region, esg_address = ued_address eth\<rparr>,
            ks_ton = \<lparr>tsg_keys = region, tsg_public_key = utd_public_key ton\<rparr>\<rparr>), file') \<and>
    compute_eth_address (cl_keccak256 lib) (cl_eth_public_key lib esk) = Inr (ued_address eth) \<and>
    cl_ton_public_key lib tsk = utd_public_key ton"
proof -
  from cmd_generateD [OF assms(3)] assms(4) obtain data where
    derived: "keys_derived (relay_cipher lib) (eth, ton)" and file': "file' = Some (Inr data)" and
    new: "stored_keys_new (relay_cipher lib) (gio_rng io) password eth ton = Inr data" by auto
  from keys_derivedD [OF derived] obtain eth_secret ton_secret where
    secrets: "derive_secret_from_phrase lib (ued_phrase eth) (ued_path eth) = Inr eth_secret"
      "derive_secret_from_phrase lib (utd_phrase ton) (utd_path ton) = Inr ton_secret" and
    public: "eth_address_of_secret lib eth_secret = Inr (ued_address eth)"
      "ton_public_key_of_secret lib ton_secret = Inr (utd_public_key ton)" by blast
  have keys: "decrypt_only_keys (relay_cipher lib) data password = Inr (eth_secret, ton_secret)"
    using stored_keys_new_decrypt [OF assms(1) new] derived secrets
    by (auto simp: keys_derived_def relay_cipher_def)
  from eth_address_of_secretD [OF public(1)] ton_public_key_of_secretD [OF public(2)]
  obtain esk tsk where
    sk: "cl_eth_secret_key lib eth_secret = Inr esk" "cl_ton_secret_key lib ton_secret = Inr tsk" and
    address: "compute_eth_address (cl_keccak256 lib) (cl_eth_public_key lib esk) = Inr (ued_address eth)" and
    public_key: "cl_ton_public_key lib tsk = utd_public_key ton" by blast
  have "keystore_open lib make_region lock password io' file' =
      (and_then (context_res ''Failed to create protected region'' (make_region (esk, tsk)))
         (\<lambda>region. Inr \<lparr>ks_eth = \<lparr>esg_keys = region, esg_address = ued_address eth\<rparr>,
            ks_ton = \<lparr>tsg_keys = region, tsg_public_key = utd_public_key ton\<rparr>\<rparr>), file')"
    unfolding file' public_key [symmetric]
    by (rule keystore_open_existing [OF keys sk address assms(2)])
  with address public_key show ?thesis by blast
qed

definition example_crypto :: "(string, string, bytes, bytes) crypto_lib" where
  "example_crypto =
     \<lparr>cl_mnemonic_from_phrase = Inr, cl_seed = map (\<lambda>c. of_nat (of_char c)),
      cl_derive = \<lambda>seed path. Inr [of_nat (length seed), of_nat (length path)],
      cl_eth_secret_key = Inr, cl_eth_public_key = \<lambda>secret. 4 # secret,
      cl_keccak256 = \<lambda>bs. replicate 31 0 @ [hd bs], cl_sign_recoverable = \<lambda>_ _. (0, replicate 64 0),
      cl_ton_secret_key = Inr, cl_ton_public_key = \<lambda>secret. ucast (hd secret),
      cl_hex_encode = \<lambda>_. [], cl_to_hex_string = \<lambda>_. [],
      cl_symmetric_key = cp_key_from_password example_cipher,
      cl_encrypt = cp_encrypt example_cipher,
      cl_decrypt_secure_str = cp_decrypt_secure_str example_cipher\<rparr>"

lemma example_crypto_ok: "cipher_ok (relay_cipher example_crypto)"
  using example_cipher_ok by (simp add: cipher_ok_def relay_cipher_def example_crypto_def)

theorem relay_uses_printed_identity_witness:
  "\<exists>file. cmd_generate (relay_cipher example_crypto) (Inr \<lparr>bac_master_password = None\<rparr>) False False
       \<lparr>gio_confirm = Inr False, gio_input = \<lambda>_ _. Inr [], gio_password = \<lambda>_. Inr ''pw'',
        gio_eth_mnemonic = ''ab'', gio_ton_mnemonic = ''cde'', gio_rng = [[1], [2], [3]],
        gio_create = Inr (), gio_to_writer = Inr ()\<rparr> None =
     (Inr (Some (\<lparr>ued_phrase = ''ab'', ued_path = eth_default_path, ued_address = replicate 19 0 @ [2]\<rparr>,
                 \<lparr>utd_phrase = ''cde'', utd_path = ton_default_path, utd_public_key = 3\<rparr>)), file) \<and>
   (\<exists>ks. keystore_open example_crypto Inr id ''pw'' \<lparr>kio_eth_mnemonic = [], kio_ton_mnemonic = [],
        kio_rng = [], kio_create = Inr (), kio_to_writer = Inr ()\<rparr> file = (Inr ks, file) \<and>
      esg_address (ks_eth ks) = replicate 19 0 @ [2] \<and> tsg_public_key (ks_ton ks) = 3)"
proof -
  let ?io = "\<lparr>gio_confirm = Inr False, gio_input = \<lambda>_ _. Inr [], gio_password = \<lambda>_. Inr ''pw'',
        gio_eth_mnemonic = ''ab'', gio_ton_mnemonic = ''cde'', gio_rng = [[1], [2], [3]],
        gio_create = Inr (), gio_to_writer = Inr ()\<rparr>"
  let ?eth = "\<lparr>ued_phrase = ''ab'', ued_path = eth_default_path, ued_address = replicate 19 0 @ [2]\<rparr>"
  let ?ton = "\<lparr>utd_phrase = ''cde'', utd_path = ton_default_path, utd_public_key = 3\<rparr>"
  have "generate_keys (relay_cipher example_crypto) ''ab'' ''cde'' = Inr (?eth, ?ton)"
    by (simp add: generate_keys_def eth_generate_def ton_generate_def eth_from_phrase_def
        ton_from_phrase_def relay_cipher_def derive_secret_from_phrase_def eth_address_of_secret_def
        ton_public_key_of_secret_def compute_eth_address_def address_from_slice_def example_crypto_def)
  moreover obtain data where
    "stored_keys_new (relay_cipher example_crypto) [[1], [2], [3]] ''pw'' ?eth ?ton = Inr data"
    by (simp add: stored_keys_new_def encrypt_part_def relay_cipher_def example_crypto_def
        example_cipher_def Let_def)
  ultimately have gen: "cmd_generate (relay_cipher example_crypto) (Inr \<lparr>bac_master_password = None\<rparr>)
      False False ?io None = (Inr (Some (?eth, ?ton)), Some (Inr data))"
    by (simp add: cmd_generate_def stored_keys_save_def command_password_def ask_password_def)
  have pw: "command_password (gio_password ?io) False \<lparr>bac_master_password = None\<rparr> True = Inr ''pw''"
    by (simp add: command_password_def ask_password_def)
  have lock: "Inr keys = (Inr region :: error + bytes \<times> bytes) \<Longrightarrow> id region = keys" for keys region
    by simp
  from relay_uses_printed_identity [OF example_crypto_ok, of Inr id, OF lock gen pw,
      of "\<lparr>kio_eth_mnemonic = [], kio_ton_mnemonic = [], kio_rng = [], kio_create = Inr (),
        kio_to_writer = Inr ()\<rparr>"]
  show ?thesis using gen by auto
qed

end
