(* ===== verification/Ton_Votes.thy ===== *)
theory Ton_Votes
  imports Bridge_Events_Props Identity
begin

text \<open>
  Votes for TON events from end to end: the decision of \<open>Bridge::update_ton_event\<close> with the signer that
  the key store built, seen from the EVM contract that later checks the collected signatures.
\<close>

section \<open>The EVM side\<close>

text \<open>How a signature of EIP-191 is checked: the prefix written out, the recovery id offset by 27 in the
  65th byte, and the address made of the recovered key. \<open>recover\<close> is the curve's key recovery.\<close>

definition eip_191_prefix :: "u8 list" where
  "eip_191_prefix = [25, 69, 116, 104, 101, 114, 101, 117, 109, 32, 83, 105, 103, 110, 101, 100, 32,
     77, 101, 115, 115, 97, 103, 101, 58, 10, 51, 50]"

definition evm_signer ::
  "(bytes \<Rightarrow> bytes) \<Rightarrow> (bytes \<Rightarrow> nat \<Rightarrow> bytes \<Rightarrow> bytes option) \<Rightarrow> bytes \<Rightarrow> bytes \<Rightarrow> eth_address option" where
  "evm_signer keccak256 recover payload signature =
     (if length signature \<noteq> 65 \<or> unat (signature ! 64) \<notin> {27..30} then None
      else map_option (\<lambda>public_key. drop 12 (keccak256 (tl public_key)))
        (recover (keccak256 (eip_191_prefix @ keccak256 payload)) (unat (signature ! 64) - 27)
           (take 64 signature)))"

text \<open>What the curve promises: the key of a recoverable signature can be recovered.\<close>

definition recoverable ::
  "('mnemonic, 'key, 'esk, 'tsk) crypto_lib \<Rightarrow> (bytes \<Rightarrow> nat \<Rightarrow> bytes \<Rightarrow> bytes option) \<Rightarrow> bool" where
  "recoverable crypto recover \<longleftrightarrow>
     (\<forall>secret hash. case cl_sign_recoverable crypto secret hash of (recovery_id, signature) \<Rightarrow>
        unat recovery_id < 4 \<and> length signature = 64 \<and>
        recover hash (unat recovery_id) signature = Some (cl_eth_public_key crypto secret))"

section \<open>Facts\<close>

lemma eth_signed_message_prefix_eq: "eth_signed_message_prefix = eip_191_prefix"
  by (simp add: eth_signed_message_prefix_def eip_191_prefix_def of_char_def)

lemma eth_signer_address:
  assumes "eth_signer_new crypto lock region = Inr signer"
  shows "esg_keys signer = region"
    and "esg_address signer = drop 12 (cl_keccak256 crypto (tl (cl_eth_public_key crypto (fst (lock region)))))"
  using assms
  by (auto simp: eth_signer_new_def and_then_Inr_iff compute_eth_address_def address_from_slice_def
      drop_Suc Let_def split: if_splits)

lemma eth_signer_sign_verifies:
  assumes "recoverable crypto recover" "eth_signer_new crypto lock region = Inr signer"
  shows "evm_signer (cl_keccak256 crypto) recover payload (eth_signer_sign crypto lock signer payload) =
    Some (esg_address signer)"
proof -
  let ?secret = "fst (lock region)"
  let ?hash = "cl_keccak256 crypto (eip_191_prefix @ cl_keccak256 crypto payload)"
  obtain recovery_id sig where sig: "cl_sign_recoverable crypto ?secret ?hash = (recovery_id, sig)"
    by fastforce
  have law: "unat recovery_id < 4" "length sig = 64"
    "recover ?hash (unat recovery_id) sig = Some (cl_eth_public_key crypto ?secret)"
  proof -
    have "case cl_sign_recoverable crypto ?secret ?hash of (recovery_id, signature) \<Rightarrow>
        unat recovery_id < 4 \<and> length signature = 64 \<and>
        recover ?hash (unat recovery_id) signature = Some (cl_eth_public_key crypto ?secret)"
      using assms(1) unfolding recoverable_def by (elim allE) assumption
    then show "unat recovery_id < 4" "length sig = 64"
      "recover ?hash (unat recovery_id) sig = Some (cl_eth_public_key crypto ?secret)"
      by (simp_all add: sig)
  qed
  have "unat (ucast recovery_id :: u8) = unat recovery_id"
    using law(1) by (simp add: unsigned_ucast_eq take_bit_nat_eq_self)
  then have v: "unat (ucast recovery_id + 27 :: u8) = unat recovery_id + 27"
    using law(1) by (simp add: unat_word_ariths)
  have "eth_signer_sign crypto lock signer payload = sig @ [ucast recovery_id + 27]"
    by (simp add: eth_signer_sign_def eth_sign_def eth_signer_address(1) [OF assms(2)]
        eth_signed_message_prefix_eq sig Let_def)
  then show ?thesis
    using law v by (simp add: evm_signer_def nth_append eth_signer_address(2) [OF assms(2)])
qed

section \<open>Property\<close>

text \<open>C18: A vote for a TON event convinces the EVM side. The relay votes only for an event whose contract
  asks for its vote and whose configuration is known. When the event's data decodes under that
  configuration it confirms, with a signature from which the EVM side recovers exactly the relay's
  address, over the bytes made of the event, its configuration, its contract, the proxy and the round,
  which are the same for all relays; when the data does not decode it rejects. The message goes to the
  event's contract.\<close>

theorem ton_vote_verifies_on_evm:
  assumes "recoverable crypto recover" "eth_signer_new crypto lock region = Inr signer"
    and "update_ton_event_decide ton lib (eth_signer_sign crypto lock signer) our_public_key
      configurations account (Inr c) = TonVote message"
  shows "\<exists>round_number data configuration. event_process ton c our_public_key True = Inr Vote \<and>
    event_base_round_number ton c = Inr round_number \<and>
    ton_event_get_init_data ton c = Inr data \<and>
    hm_get configurations (tid_configuration data) = Some configuration \<and>
    (case and_then (decode_params lib (tcs_event_abi configuration)
        (tvd_event_data (tid_vote_data data))) (map_ton_tokens_to_eth_bytes lib) of
       Inl e \<Rightarrow> message = Some \<lparr>um_function = abi_ton_event_reject,
           um_inputs = [Named ''voteReceiver'' (VAddress account)],
           um_account = account, um_dst_workchain = 0\<rparr>
     | Inr bytes \<Rightarrow> \<exists>signature. message = Some \<lparr>um_function = abi_ton_event_confirm,
           um_inputs = [Named ''signature'' (VBytes signature), Named ''voteReceiver'' (VAddress account)],
           um_account = account, um_dst_workchain = 0\<rparr> \<and>
         evm_signer (cl_keccak256 crypto) recover
           (make_mapped_ton_event lib (tvd_event_transaction_lt (tid_vote_data data))
              (tvd_event_timestamp (tid_vote_data data)) bytes (tid_configuration data) account
              (tec_proxy (tcd_network_configuration (tcs_details configuration))) round_number)
           signature = Some (esg_address signer))"
proof -
  have messages: "ton_event_reject_message account = Some \<lparr>um_function = abi_ton_event_reject,
        um_inputs = [Named ''voteReceiver'' (VAddress account)], um_account = account,
        um_dst_workchain = 0\<rparr>"
    "ton_event_confirm_message account signature = Some \<lparr>um_function = abi_ton_event_confirm,
        um_inputs = [Named ''signature'' (VBytes signature), Named ''voteReceiver'' (VAddress account)],
        um_account = account, um_dst_workchain = 0\<rparr>" for signature
    by (simp_all add: ton_event_reject_message_def ton_event_confirm_message_def arg_def
        unsigned_message_new_def Let_def abi_ton_event_reject_def abi_ton_event_confirm_def)
  from assms(3) obtain round_number data configuration where
    steps: "event_process ton c our_public_key True = Inr Vote"
      "event_base_round_number ton c = Inr round_number" "ton_event_get_init_data ton c = Inr data"
      "hm_get configurations (tid_configuration data) = Some configuration"
    by (auto simp: update_ton_event_decide_def Let_def
        split: sum.splits option.splits event_action.splits)
  show ?thesis
  proof (intro exI conjI)
    show "case and_then (decode_params lib (tcs_event_abi configuration)
        (tvd_event_data (tid_vote_data data))) (map_ton_tokens_to_eth_bytes lib) of
       Inl e \<Rightarrow> message = Some \<lparr>um_function = abi_ton_event_reject,
           um_inputs = [Named ''voteReceiver'' (VAddress account)],
           um_account = account, um_dst_workchain = 0\<rparr>
     | Inr bytes \<Rightarrow> \<exists>signature. message = Some \<lparr>um_function = abi_ton_event_confirm,
           um_inputs = [Named ''signature'' (VBytes signature), Named ''voteReceiver'' (VAddress account)],
           um_account = account, um_dst_workchain = 0\<rparr> \<and>
         evm_signer (cl_keccak256 crypto) recover
           (make_mapped_ton_event lib (tvd_event_transaction_lt (tid_vote_data data))
              (tvd_event_timestamp (tid_vote_data data)) bytes (tid_configuration data) account
              (tec_proxy (tcd_network_configuration (tcs_details configuration))) round_number)
           signature = Some (esg_address signer)"
      using assms(3) eth_signer_sign_verifies [OF assms(1,2)] steps messages
      by (auto simp: update_ton_event_decide_def Let_def and_then_def split: sum.splits)
  qed (fact steps)+
qed

section \<open>Witness\<close>

text \<open>A toy curve: a secret is a byte, and a signature carries the key and a checksum of the hash.\<close>

definition example_curve :: "(unit, unit, u8, unit) crypto_lib" where
  "example_curve =
     \<lparr>cl_mnemonic_from_phrase = \<lambda>_. Inr (), cl_seed = \<lambda>_. [], cl_derive = \<lambda>_ _. Inr [],
      cl_eth_secret_key = \<lambda>bs. Inr (hd bs), cl_eth_public_key = \<lambda>secret. [4, secret],
      cl_keccak256 = \<lambda>bs. replicate 31 0 @ [sum_list bs],
      cl_sign_recoverable = \<lambda>secret hash. (1, secret # sum_list hash # replicate 62 0),
      cl_ton_secret_key = \<lambda>_. Inr (), cl_ton_public_key = \<lambda>_. 0,
      cl_hex_encode = \<lambda>_. [], cl_to_hex_string = \<lambda>_. [], cl_symmetric_key = \<lambda>_ _. (),
      cl_encrypt = \<lambda>_ _ _. Inr [], cl_decrypt_secure_str = \<lambda>_ _ _. Inr []\<rparr>"

definition example_recover :: "bytes \<Rightarrow> nat \<Rightarrow> bytes \<Rightarrow> bytes option" where
  "example_recover hash recovery_id signature =
     (if recovery_id = 1 \<and> signature ! 1 = sum_list hash then Some [4, signature ! 0] else None)"

lemma example_recoverable: "recoverable example_curve example_recover"
  by (simp add: recoverable_def example_curve_def example_recover_def)

definition example_mapping :: "(unit, unit, uint256) ton_event_lib" where
  "example_mapping = \<lparr>decode_params = \<lambda>_ _. Inr (), map_ton_tokens_to_eth_bytes = \<lambda>_. Inr [7, 8],
     make_mapped_ton_event = \<lambda>_ _ bytes _ _ _ _. bytes\<rparr>"

definition example_eth_signer :: "(u8, eth_address) eth_signer" where
  "example_eth_signer = \<lparr>esg_keys = 5, esg_address = replicate 19 0 @ [5]\<rparr>"

text \<open>A successful decoding: the relay of address \<open>00..05\<close> confirms the payload \<open>[7, 8]\<close>.\<close>

theorem ton_vote_verifies_on_evm_witness:
  "\<exists>message signature. update_ton_event_decide example_ton_lib example_mapping
       (eth_signer_sign example_curve (\<lambda>secret. (secret, ())) example_eth_signer) 42
       [(21, \<lparr>tcs_details = example_ton_configuration, tcs_event_abi = (), tcs_observer = 1\<rparr>)] 5
       (Inr (example_contract 5)) = TonVote (Some message) \<and>
     um_inputs message = [Named ''signature'' (VBytes signature), Named ''voteReceiver'' (VAddress 5)] \<and>
     evm_signer (cl_keccak256 example_curve) example_recover [7, 8] signature = Some (replicate 19 0 @ [5])"
proof -
  let ?sign = "eth_signer_sign example_curve (\<lambda>secret. (secret, ())) example_eth_signer"
  let ?configurations = "[(21, \<lparr>tcs_details = example_ton_configuration, tcs_event_abi = (),
      tcs_observer = 1\<rparr>)]"
  have signer: "eth_signer_new example_curve (\<lambda>secret. (secret, ())) 5 = Inr example_eth_signer"
    by (simp add: eth_signer_new_def example_curve_def compute_eth_address_def address_from_slice_def
        example_eth_signer_def)
  have data: "ton_event_get_init_data example_ton_lib (example_contract 5) = Inr example_ton_event"
    and round: "event_base_round_number example_ton_lib (example_contract 5) = Inr 2"
    by (simp_all add: getter_defs)
  have conf: "tid_configuration example_ton_event = 21"
    by (simp add: example_ton_event_def)
  have vote: "update_ton_event_decide example_ton_lib example_mapping ?sign 42 ?configurations 5
      (Inr (example_contract 5)) = TonVote (ton_event_confirm_message 5 (?sign [7, 8]))"
    by (simp add: update_ton_event_decide_def example_process data round conf Let_def example_mapping_def)
  from ton_vote_verifies_on_evm [OF example_recoverable signer vote] obtain signature where
    "ton_event_confirm_message 5 (?sign [7, 8]) = Some \<lparr>um_function = abi_ton_event_confirm,
       um_inputs = [Named ''signature'' (VBytes signature), Named ''voteReceiver'' (VAddress 5)],
       um_account = 5, um_dst_workchain = 0\<rparr>"
    "evm_signer (cl_keccak256 example_curve) example_recover [7, 8] signature =
       Some (esg_address example_eth_signer)"
    by (auto simp: data conf) (auto simp: example_mapping_def)
  then show ?thesis using vote by (auto simp: example_eth_signer_def)
qed

end
