(* ===== verification/Ton_Subscriber.thy ===== *)
theory Ton_Subscriber
  imports Message_Queue Tx_Context
begin

text \<open>
  \<open>engine/ton_subscriber/mod.rs\<close>: the subscriber that the node feeds with blocks. A subscription
  holds a \<open>tokio\<close> watch channel (its value, the number of values sent, and for each receiver the
  number it has seen; the subscription keeps a receiver of its own, so a send cannot fail) and the
  observers of the account's transactions. An observer is alive while somebody holds it: \<open>alive\<close> is
  \<open>strong_count() > 0\<close> at the time of the block. The calls of \<open>handle_transaction\<close> are logged.
\<close>

section \<open>Subscriptions\<close>

type_synonym tx_observer = nat

record 'acc state_subscription =
  ss_value :: "'acc shard_account option"
  ss_version :: nat
  ss_seen :: nat
  ss_receivers :: "(nat, nat) hmap"
  ss_observers :: "tx_observer list"

definition state_subscription_new :: "tx_observer list \<Rightarrow> 'acc state_subscription" where
  "state_subscription_new observers =
     \<lparr>ss_value = None, ss_version = 0, ss_seen = 0, ss_receivers = [], ss_observers = observers\<rparr>"

datatype state_subscription_status = Alive | PartlyAlive | Stopped

text \<open>\<open>state_tx.receiver_count()\<close> counts the subscription's own receiver.\<close>

definition receiver_count :: "'acc state_subscription \<Rightarrow> nat" where
  "receiver_count ss = Suc (length (ss_receivers ss))"

definition update_status ::
  "(tx_observer \<Rightarrow> bool) \<Rightarrow> 'acc state_subscription \<Rightarrow>
   state_subscription_status \<times> 'acc state_subscription" where
  "update_status alive ss =
     (let ss' = ss\<lparr>ss_observers := filter alive (ss_observers ss)\<rparr>
      in (if receiver_count ss' > 1 then Alive
          else if ss_observers ss' \<noteq> [] then PartlyAlive
          else Stopped, ss'))"

definition watch_send :: "'acc shard_account option \<Rightarrow> 'acc state_subscription \<Rightarrow> 'acc state_subscription"
where
  "watch_send v ss = ss\<lparr>ss_value := v, ss_version := Suc (ss_version ss)\<rparr>"

section \<open>Transactions of a block\<close>

datatype tx_description = Ordinary bool \<comment> \<open>aborted\<close> | OtherTransaction

text \<open>A transaction with what its lazily parsed parts give: the description, and the incoming message
  with the hash of its cell.\<close>

record 'body block_transaction =
  bt_hash :: uint256
  bt_description :: "tx_description result"
  bt_in_msg :: "(uint256 \<times> 'body ton_message result) option"
  bt_out_msgs :: "'body ton_message result list"

record ('acc, 'body) shard_block =
  sb_shard :: shard_ident
  sb_gen_utime :: u32
  sb_accounts :: "'acc shard_accounts"
  sb_account_blocks :: "uint256 \<Rightarrow> 'body block_transaction result list option result"

definition tx_context_of ::
  "('acc, 'body) shard_block \<Rightarrow> uint256 \<Rightarrow> 'body block_transaction \<Rightarrow> 'body ton_message \<Rightarrow>
   ('acc, 'body) tx_context" where
  "tx_context_of block account tx message =
     \<lparr>ctx_account = account, ctx_transaction_hash = bt_hash tx, ctx_in_msg = message,
      ctx_out_msgs = bt_out_msgs tx,
      ctx_find_account = shard_find_account (sb_accounts block) account\<rparr>"

text \<open>A call of \<open>handle_transaction\<close>: the observer and the context it gets.\<close>

type_synonym ('acc, 'body) tx_call = "tx_observer \<times> ('acc, 'body) tx_context"

text \<open>The body of the loop for one transaction; an upgraded observer is one that is alive.\<close>

definition handle_block_transaction ::
  "(tx_observer \<Rightarrow> bool) \<Rightarrow> ('acc, 'body) shard_block \<Rightarrow> uint256 \<Rightarrow> tx_observer list \<Rightarrow>
   'body block_transaction result \<Rightarrow> pending_messages_queue \<Rightarrow>
   pending_messages_queue \<times> ('acc, 'body) tx_call list" where
  "handle_block_transaction alive block account observers transaction q =
     (case transaction of
        Inl e \<Rightarrow> (q, [])
      | Inr tx \<Rightarrow>
          (case bt_description tx of
             Inr (Ordinary False) \<Rightarrow>
               (case bt_in_msg tx of
                  Some (message_hash, Inr message) \<Rightarrow>
                    ((if msg_header message = ExtInMsgInfo
                      then Message_Queue.deliver_message account message_hash q else q),
                     map (\<lambda>subscription. (subscription, tx_context_of block account tx message))
                       (filter alive observers))
                | _ \<Rightarrow> (q, []))
           | _ \<Rightarrow> (q, [])))"

fun handle_block_transactions ::
  "(tx_observer \<Rightarrow> bool) \<Rightarrow> ('acc, 'body) shard_block \<Rightarrow> uint256 \<Rightarrow> tx_observer list \<Rightarrow>
   'body block_transaction result list \<Rightarrow> pending_messages_queue \<Rightarrow>
   pending_messages_queue \<times> ('acc, 'body) tx_call list" where
  "handle_block_transactions alive block account observers [] q = (q, [])"
| "handle_block_transactions alive block account observers (t # ts) q =
     (let (q1, calls) = handle_block_transaction alive block account observers t q;
          (q2, calls') = handle_block_transactions alive block account observers ts q1
      in (q2, calls @ calls'))"

text \<open>\<open>StateSubscription::handle_block\<close>; its error is only logged.\<close>

definition subscription_handle_block ::
  "(tx_observer \<Rightarrow> bool) \<Rightarrow> ('acc, 'body) shard_block \<Rightarrow> uint256 \<Rightarrow> 'acc state_subscription \<Rightarrow>
   pending_messages_queue \<Rightarrow> unit result \<times> pending_messages_queue \<times> ('acc, 'body) tx_call list" where
  "subscription_handle_block alive block account ss q =
     (if ss_observers ss = [] then (Inr (), q, [])
      else case context_res ''Failed to get account block'' (sb_account_blocks block account) of
             Inl e \<Rightarrow> (Inl e, q, [])
           | Inr None \<Rightarrow> (Inr (), q, [])
           | Inr (Some transactions) \<Rightarrow>
               (Inr (), handle_block_transactions alive block account (ss_observers ss) transactions q))"

section \<open>The subscriber\<close>

record latest_shard_blocks =
  ls_current_utime :: u32
  ls_block_ids :: "(shard_ident, uint256) hmap" \<comment> \<open>the block of each shard\<close>

record block_awaiter =
  ba_since :: "u32 option"
  ba_tx :: "nat option"

record ('acc, 'body) ton_subscriber =
  ts_ready :: bool
  ts_current_utime :: u32
  ts_state_subscriptions :: "(uint256, 'acc state_subscription) hmap"
  ts_mc_block_awaiters :: "(usize, block_awaiter) hmap"
  ts_messages_queue :: pending_messages_queue
  ts_block_awaiter_id :: usize
  ts_next_receiver :: nat
  ts_next_shards_channel :: nat
  ts_shards_answers :: "(nat \<times> latest_shard_blocks result) list"
  ts_calls :: "('acc, 'body) tx_call list"

definition ton_subscriber_new :: "pending_messages_queue \<Rightarrow> ('acc, 'body) ton_subscriber" where
  "ton_subscriber_new messages_queue =
     \<lparr>ts_ready = False, ts_current_utime = 0, ts_state_subscriptions = [],
      ts_mc_block_awaiters = [], ts_messages_queue = messages_queue, ts_block_awaiter_id = 0,
      ts_next_receiver = 0, ts_next_shards_channel = 0, ts_shards_answers = [], ts_calls = []\<rparr>"

record ton_subscriber_metrics_data =
  tsm_ready :: bool
  tsm_current_utime :: u32
  tsm_pending_message_count :: usize

definition ton_subscriber_metrics :: "('acc, 'body) ton_subscriber \<Rightarrow> ton_subscriber_metrics_data" where
  "ton_subscriber_metrics s =
     \<lparr>tsm_ready = ts_ready s, tsm_current_utime = ts_current_utime s,
      tsm_pending_message_count = queue_len (ts_messages_queue s)\<rparr>"

section \<open>Subscribing\<close>

definition add_transactions_subscription1 ::
  "tx_observer \<Rightarrow> uint256 \<Rightarrow> (uint256, 'acc state_subscription) hmap \<Rightarrow>
   (uint256, 'acc state_subscription) hmap" where
  "add_transactions_subscription1 weak account subs =
     (case hm_get subs account of
        None \<Rightarrow> hm_insert account (state_subscription_new [weak]) subs
      | Some ss \<Rightarrow> hm_insert account (ss\<lparr>ss_observers := ss_observers ss @ [weak]\<rparr>) subs)"

definition add_transactions_subscription ::
  "uint256 list \<Rightarrow> tx_observer \<Rightarrow> ('acc, 'body) ton_subscriber \<Rightarrow> ('acc, 'body) ton_subscriber" where
  "add_transactions_subscription accounts weak s =
     s\<lparr>ts_state_subscriptions :=
       fold (add_transactions_subscription1 weak) accounts (ts_state_subscriptions s)\<rparr>"

text \<open>The part of \<open>get_contract_state\<close> and \<open>wait_contract_state\<close> under the mutex: a clone of the
  subscription's receiver, which has seen what that one has.\<close>

definition subscribe_state ::
  "uint256 \<Rightarrow> ('acc, 'body) ton_subscriber \<Rightarrow> nat \<times> ('acc, 'body) ton_subscriber" where
  "subscribe_state account s =
     (let rx = ts_next_receiver s;
          ss = (case hm_get (ts_state_subscriptions s) account of
                  None \<Rightarrow> state_subscription_new []
                | Some ss \<Rightarrow> ss)
      in (rx, s\<lparr>ts_state_subscriptions := hm_insert account
                  (ss\<lparr>ss_receivers := hm_insert rx (ss_seen ss) (ss_receivers ss)\<rparr>)
                  (ts_state_subscriptions s),
                ts_next_receiver := Suc rx\<rparr>))"

text \<open>\<open>state_rx.changed().await\<close> and the read after it: \<open>None\<close> while it waits, an error when the
  sender is gone.\<close>

definition receive_state ::
  "uint256 \<Rightarrow> nat \<Rightarrow> ('acc, 'body) ton_subscriber \<Rightarrow>
   'acc shard_account option result option \<times> ('acc, 'body) ton_subscriber" where
  "receive_state account rx s =
     (case hm_get (ts_state_subscriptions s) account of
        None \<Rightarrow> (Some (Inl (Foreign ''channel closed'')), s)
      | Some ss \<Rightarrow>
          (case hm_get (ss_receivers ss) rx of
             None \<Rightarrow> (Some (Inl (Foreign ''channel closed'')), s)
           | Some seen \<Rightarrow>
               if seen = ss_version ss then (None, s)
               else (Some (Inr (ss_value ss)),
                     s\<lparr>ts_state_subscriptions := hm_insert account
                       (ss\<lparr>ss_receivers := hm_insert rx (ss_version ss) (ss_receivers ss)\<rparr>)
                       (ts_state_subscriptions s)\<rparr>)))"

definition drop_receiver ::
  "uint256 \<Rightarrow> nat \<Rightarrow> ('acc, 'body) ton_subscriber \<Rightarrow> ('acc, 'body) ton_subscriber" where
  "drop_receiver account rx s =
     (case hm_get (ts_state_subscriptions s) account of
        None \<Rightarrow> s
      | Some ss \<Rightarrow> s\<lparr>ts_state_subscriptions := hm_insert account
          (ss\<lparr>ss_receivers := hm_remove rx (ss_receivers ss)\<rparr>) (ts_state_subscriptions s)\<rparr>)"

text \<open>What \<open>get_contract_state\<close> makes of the value it reads, and \<open>wait_contract_state\<close> of the values
  it reads one after another (\<open>None\<close>: it still waits).\<close>

definition get_contract_state ::
  "'acc shard_account option result \<Rightarrow> 'acc existing_contract option result" where
  "get_contract_state received = and_then received from_shard_account_opt"

fun wait_contract_state ::
  "('acc \<Rightarrow> account_state) \<Rightarrow> 'acc shard_account option result list \<Rightarrow>
   'acc existing_contract result option" where
  "wait_contract_state state_of [] = None"
| "wait_contract_state state_of (Inl e # rs) = Some (Inl e)"
| "wait_contract_state state_of (Inr None # rs) = wait_contract_state state_of rs"
| "wait_contract_state state_of (Inr (Some shard_account) # rs) =
     (case from_shard_account shard_account of
        Inl e \<Rightarrow> Some (Inl e)
      | Inr None \<Rightarrow> wait_contract_state state_of rs
      | Inr (Some account) \<Rightarrow>
          (case state_of (ec_account account) of
             AccountActive \<Rightarrow> Some (Inr account)
           | AccountFrozen \<Rightarrow> Some (Inl (TonSubscriberErr AccountIsFrozen))
           | AccountUninit \<Rightarrow> wait_contract_state state_of rs))"

section \<open>Masterchain blocks\<close>

text \<open>What \<open>extract_shards\<close> reads of a block: the shards of each workchain, or no custom part.
  \<open>with_prefix\<close> is \<open>ShardIdent::with_prefix_slice\<close>.\<close>

record 'prefix mc_block =
  mb_gen_utime :: u32
  mb_custom :: "(32 word \<times> ('prefix \<times> uint256) list) list option result"

definition MASTERCHAIN_ID :: "32 word" where
  "MASTERCHAIN_ID = - 1"

fun insert_shards ::
  "(32 word \<Rightarrow> 'prefix \<Rightarrow> shard_ident result) \<Rightarrow> 32 word \<Rightarrow> ('prefix \<times> uint256) list \<Rightarrow>
   (shard_ident, uint256) hmap \<Rightarrow> (shard_ident, uint256) hmap result" where
  "insert_shards with_prefix wc_id [] block_ids = Inr block_ids"
| "insert_shards with_prefix wc_id ((prefix, descr) # shards) block_ids =
     and_then (with_prefix wc_id prefix) (\<lambda>shard_id.
       insert_shards with_prefix wc_id shards (hm_insert shard_id descr block_ids))"

fun insert_workchains ::
  "(32 word \<Rightarrow> 'prefix \<Rightarrow> shard_ident result) \<Rightarrow> (32 word \<times> ('prefix \<times> uint256) list) list \<Rightarrow>
   (shard_ident, uint256) hmap \<Rightarrow> (shard_ident, uint256) hmap result" where
  "insert_workchains with_prefix [] block_ids = Inr block_ids"
| "insert_workchains with_prefix ((wc_id, shards) # workchains) block_ids =
     (if wc_id = MASTERCHAIN_ID then insert_workchains with_prefix workchains block_ids
      else and_then (insert_shards with_prefix wc_id shards block_ids)
             (insert_workchains with_prefix workchains))"

definition extract_shards ::
  "(32 word \<Rightarrow> 'prefix \<Rightarrow> shard_ident result) \<Rightarrow> 'prefix mc_block \<Rightarrow> latest_shard_blocks result" where
  "extract_shards with_prefix block =
     and_then (mb_custom block) (\<lambda>custom.
       case custom of
         None \<Rightarrow> Inr \<lparr>ls_current_utime = mb_gen_utime block, ls_block_ids = []\<rparr>
       | Some workchains \<Rightarrow>
           and_then (insert_workchains with_prefix workchains []) (\<lambda>block_ids.
             Inr \<lparr>ls_current_utime = mb_gen_utime block, ls_block_ids = block_ids\<rparr>))"

text \<open>The registration in \<open>wait_shards\<close>; the caller waits on the returned channel.\<close>

definition wait_shards ::
  "u32 option \<Rightarrow> ('acc, 'body) ton_subscriber \<Rightarrow> nat \<times> ('acc, 'body) ton_subscriber" where
  "wait_shards since s =
     (let tx = ts_next_shards_channel s
      in (tx, s\<lparr>ts_mc_block_awaiters := hm_insert (ts_block_awaiter_id s)
                  \<lparr>ba_since = since, ba_tx = Some tx\<rparr> (ts_mc_block_awaiters s),
                ts_block_awaiter_id := ts_block_awaiter_id s + 1,
                ts_next_shards_channel := Suc tx\<rparr>))"

datatype block_awaiter_action = Retain | RemoveAwaiter

definition awaiter_handle_block ::
  "latest_shard_blocks result \<Rightarrow> u32 \<Rightarrow> block_awaiter \<Rightarrow>
   block_awaiter_action \<times> (nat \<times> latest_shard_blocks result) list" where
  "awaiter_handle_block shards gen_utime awaiter =
     (case ba_since awaiter of
        Some since \<Rightarrow> if gen_utime < since then (Retain, [])
          else (RemoveAwaiter, case ba_tx awaiter of Some tx \<Rightarrow> [(tx, shards)] | None \<Rightarrow> [])
      | None \<Rightarrow> (RemoveAwaiter, case ba_tx awaiter of Some tx \<Rightarrow> [(tx, shards)] | None \<Rightarrow> []))"

definition handle_masterchain_block ::
  "(32 word \<Rightarrow> 'prefix \<Rightarrow> shard_ident result) \<Rightarrow> u32 \<Rightarrow> 'prefix mc_block result \<Rightarrow>
   ('acc, 'body) ton_subscriber \<Rightarrow> unit result \<times> ('acc, 'body) ton_subscriber" where
  "handle_masterchain_block with_prefix gen_utime block_info s =
     (let s1 = s\<lparr>ts_current_utime := gen_utime\<rparr>
      in if \<not> ts_ready s1 then (Inr (), s1)
         else case block_info of
                Inl e \<Rightarrow> (Inl e, s1)
              | Inr block \<Rightarrow>
                  (let act = awaiter_handle_block (extract_shards with_prefix block)
                               (mb_gen_utime block)
                   in (Inr (), s1\<lparr>
                        ts_mc_block_awaiters :=
                          hm_retain (\<lambda>_ a. fst (act a) = Retain) (ts_mc_block_awaiters s1),
                        ts_shards_answers := ts_shards_answers s1 @
                          concat (map (\<lambda>(_, a). snd (act a)) (ts_mc_block_awaiters s1))\<rparr>)))"

section \<open>Shard blocks\<close>

text \<open>The closure of \<open>retain\<close>: the subscription that is kept, if it is.\<close>

definition subscription_block ::
  "u64 \<Rightarrow> (tx_observer \<Rightarrow> bool) \<Rightarrow> ('acc, 'body) shard_block \<Rightarrow> uint256 \<Rightarrow> 'acc state_subscription \<Rightarrow>
   pending_messages_queue \<Rightarrow>
   'acc state_subscription option \<times> pending_messages_queue \<times> ('acc, 'body) tx_call list" where
  "subscription_block SHARD_FULL alive block account ss q =
     (let (status, ss1) = update_status alive ss
      in if status = Stopped then (None, q, [])
         else if \<not> contains_account SHARD_FULL (sb_shard block) account then (Some ss1, q, [])
         else (let ss2 = (if status = Alive
                          then (case sb_accounts block account of
                                  Inr v \<Rightarrow> watch_send v ss1
                                | Inl e \<Rightarrow> ss1)
                          else ss1\<lparr>ss_seen := ss_version ss1\<rparr>);
                   (r, q1, calls) = subscription_handle_block alive block account ss2 q
               in (Some ss2, q1, calls)))"

fun subscriptions_block ::
  "u64 \<Rightarrow> (tx_observer \<Rightarrow> bool) \<Rightarrow> ('acc, 'body) shard_block \<Rightarrow>
   (uint256, 'acc state_subscription) hmap \<Rightarrow> pending_messages_queue \<Rightarrow>
   (uint256, 'acc state_subscription) hmap \<times> pending_messages_queue \<times> ('acc, 'body) tx_call list" where
  "subscriptions_block SHARD_FULL alive block [] q = ([], q, [])"
| "subscriptions_block SHARD_FULL alive block ((account, ss) # subs) q =
     (let (kept, q1, calls) = subscription_block SHARD_FULL alive block account ss q;
          (subs', q2, calls') = subscriptions_block SHARD_FULL alive block subs q1
      in ((case kept of Some ss' \<Rightarrow> (account, ss') # subs' | None \<Rightarrow> subs'), q2, calls @ calls'))"

definition handle_shard_block ::
  "u64 \<Rightarrow> (tx_observer \<Rightarrow> bool) \<Rightarrow> ('acc, 'body) shard_block result \<Rightarrow>
   ('acc, 'body) ton_subscriber \<Rightarrow> unit result \<times> ('acc, 'body) ton_subscriber" where
  "handle_shard_block SHARD_FULL alive parsed s =
     (if \<not> ts_ready s then (Inr (), s)
      else case parsed of
             Inl e \<Rightarrow> (Inl e, s)
           | Inr block \<Rightarrow>
               (let (subs, q, calls) = subscriptions_block SHARD_FULL alive block
                      (ts_state_subscriptions s) (ts_messages_queue s)
                in (Inr (), s\<lparr>ts_state_subscriptions := subs,
                      ts_messages_queue :=
                        queue_update SHARD_FULL (sb_shard block) (sb_gen_utime block) q,
                      ts_calls := ts_calls s @ calls\<rparr>)))"

section \<open>The engine's callbacks\<close>

definition engine_status_changed :: "bool \<Rightarrow> ('acc, 'body) ton_subscriber \<Rightarrow> ('acc, 'body) ton_subscriber"
where
  "engine_status_changed synced s = (if synced then s\<lparr>ts_ready := True\<rparr> else s)"

datatype ('acc, 'body, 'prefix) node_block =
    MasterchainBlock u32 "'prefix mc_block result"
  | ShardBlock "('acc, 'body) shard_block result"

definition process_block ::
  "u64 \<Rightarrow> (32 word \<Rightarrow> 'prefix \<Rightarrow> shard_ident result) \<Rightarrow> (tx_observer \<Rightarrow> bool) \<Rightarrow>
   ('acc, 'body, 'prefix) node_block \<Rightarrow> ('acc, 'body) ton_subscriber \<Rightarrow>
   unit result \<times> ('acc, 'body) ton_subscriber" where
  "process_block SHARD_FULL with_prefix alive block s =
     (case block of
        MasterchainBlock gen_utime parsed \<Rightarrow> handle_masterchain_block with_prefix gen_utime parsed s
      | ShardBlock parsed \<Rightarrow> handle_shard_block SHARD_FULL alive parsed s)"

text \<open>\<open>AccountObserver::handle_transaction\<close>: the event it sends to its channel.\<close>

definition observe_transaction ::
  "(('acc, 'body) tx_context \<Rightarrow> 'event option) \<Rightarrow> ('acc, 'body) tx_context \<Rightarrow>
   (uint256 \<times> 'event) option" where
  "observe_transaction read_from_transaction ctx =
     map_option (\<lambda>event. (ctx_account ctx, event)) (read_from_transaction ctx)"

text \<open>\<open>start_listening_events\<close> over the events that arrive, each with whether the service is alive then:
  a failing handler is only logged, and the events after the end of the service are drained.\<close>

fun start_listening_events ::
  "('event \<Rightarrow> 's \<Rightarrow> unit result \<times> 's) \<Rightarrow> ('event \<times> bool) list \<Rightarrow> 's \<Rightarrow> 's" where
  "start_listening_events handler [] s = s"
| "start_listening_events handler ((event, service_alive) # events) s =
     (if service_alive then start_listening_events handler events (snd (handler event s)) else s)"

end
