(* ===== verification/Ton_Subscriber_Props.thy ===== *)
theory Ton_Subscriber_Props
  imports Ton_Subscriber
begin

text \<open>
  The TON subscriber: which pending messages a block answers (a client of the contract
  \<open>message_queue\<close>), which transactions the observers see, that a waiter for a contract's state never
  loses its channel and reads the latest state, and when a waiter for shards is answered.
\<close>

section \<open>Messages\<close>

context message_queue
begin

lemma fold_deliver:
  assumes "invar q"
  shows "invar (fold (\<lambda>(a, h). deliver a h) ds q) \<and>
    (\<forall>a h. pend (fold (\<lambda>(a, h). deliver a h) ds q) a h =
      (if (a, h) \<in> set ds then None else pend q a h))"
  using assms
proof (induction ds arbitrary: q)
  case (Cons d ds)
  obtain a h where d: "d = (a, h)" by (cases d)
  show ?case
    using Cons.IH [OF invar_deliver [OF Cons.prems, of a h]] Cons.prems
    by (auto simp: d pend_deliver)
qed simp

lemma stat_final_fold:
  assumes "invar q" "stat q c = Some x"
  shows "stat (fold (\<lambda>(a, h). deliver a h) ds q) c = Some x"
  using assms
proof (induction ds arbitrary: q)
  case (Cons d ds)
  then show ?case
    by (cases d) (simp add: invar_deliver stat_final_deliver)
qed simp

lemma stat_fold_deliver:
  assumes "invar q" "pend q a h = Some (c, e)"
  shows "stat (fold (\<lambda>(a, h). deliver a h) ds q) c =
    (if (a, h) \<in> set ds then Some Delivered else None)"
  using assms
proof (induction ds arbitrary: q)
  case Nil
  then show ?case by (simp add: pend_open)
next
  case (Cons d ds)
  obtain a' h' where d: "d = (a', h')" by (cases d)
  note inv = invar_deliver [OF Cons.prems(1), of a' h']
  show ?case
  proof (cases "(a', h') = (a, h)")
    case True
    then have "stat (deliver a' h' q) c = Some Delivered"
      using Cons.prems by (auto simp: stat_deliver)
    then show ?thesis using stat_final_fold [OF inv] True by (simp add: d)
  next
    case False
    then have "pend (deliver a' h' q) a h = Some (c, e)"
      using Cons.prems by (auto simp: pend_deliver)
    then show ?thesis using Cons.IH [OF inv] False by (auto simp: d)
  qed
qed

text \<open>Deliveries first, then the time of the block's shard.\<close>

lemma block_answer:
  assumes "invar q" "pend q a h = Some (c, e)"
  shows "stat (update s t (fold (\<lambda>(a, h). deliver a h) ds q)) c =
    (if (a, h) \<in> set ds then Some Delivered else if e < t \<and> holds s a then Some Expired else None)"
proof -
  let ?q = "fold (\<lambda>(a, h). deliver a h) ds q"
  have inv: "invar ?q" and p: "pend ?q a h = (if (a, h) \<in> set ds then None else Some (c, e))"
    using fold_deliver [OF assms(1), of ds] assms(2) by auto
  have uniq: "a' = a \<and> h' = h" if "pend ?q a' h' = Some (c, e')" for a' h' e'
    using that fold_deliver [OF assms(1), of ds] pend_unique [OF assms(1,2)]
    by (metis option.distinct(1))
  show ?thesis
  proof (cases "(a, h) \<in> set ds")
    case True
    then show ?thesis
      using stat_fold_deliver [OF assms, of ds] stat_final_update [OF inv, of c Delivered s t]
      by simp
  next
    case False
    have "(\<exists>a' h' e'. pend ?q a' h' = Some (c, e') \<and> e' < t \<and> holds s a') \<longleftrightarrow> e < t \<and> holds s a"
    proof
      assume "\<exists>a' h' e'. pend ?q a' h' = Some (c, e') \<and> e' < t \<and> holds s a'"
      then obtain a' h' e' where h: "pend ?q a' h' = Some (c, e')" "e' < t" "holds s a'" by blast
      from uniq [OF h(1)] have "a' = a" "h' = h" by simp_all
      with h p False show "e < t \<and> holds s a" by simp
    next
      assume "e < t \<and> holds s a"
      then show "\<exists>a' h' e'. pend ?q a' h' = Some (c, e') \<and> e' < t \<and> holds s a'"
        using p False by auto
    qed
    then show ?thesis
      using stat_fold_deliver [OF assms, of ds] False by (simp add: stat_update [OF inv])
  qed
qed

end

text \<open>The external messages that a list of transactions delivers, and those of a whole block.\<close>

definition delivered_message :: "'body block_transaction result \<Rightarrow> uint256 option" where
  "delivered_message transaction =
     (case transaction of
        Inr tx \<Rightarrow>
          (case (bt_description tx, bt_in_msg tx) of
             (Inr (Ordinary False), Some (h, Inr message)) \<Rightarrow>
               if msg_header message = ExtInMsgInfo then Some h else None
           | _ \<Rightarrow> None)
      | Inl _ \<Rightarrow> None)"

definition account_transactions ::
  "('acc, 'body) shard_block \<Rightarrow> uint256 \<Rightarrow> 'body block_transaction result list" where
  "account_transactions block account =
     (case sb_account_blocks block account of Inr (Some txs) \<Rightarrow> txs | _ \<Rightarrow> [])"

text \<open>The subscription of the account is looked at: the block's shard holds the account and an observer
  is alive.\<close>

definition observed ::
  "u64 \<Rightarrow> (tx_observer \<Rightarrow> bool) \<Rightarrow> ('acc, 'body) shard_block \<Rightarrow> uint256 \<Rightarrow> 'acc state_subscription \<Rightarrow> bool"
where
  "observed SHARD_FULL alive block account ss \<longleftrightarrow>
     contains_account SHARD_FULL (sb_shard block) account \<and> filter alive (ss_observers ss) \<noteq> []"

definition subscription_deliveries ::
  "u64 \<Rightarrow> (tx_observer \<Rightarrow> bool) \<Rightarrow> ('acc, 'body) shard_block \<Rightarrow> uint256 \<times> 'acc state_subscription \<Rightarrow>
   (uint256 \<times> uint256) list" where
  "subscription_deliveries SHARD_FULL alive block x =
     (if observed SHARD_FULL alive block (fst x) (snd x)
      then map (Pair (fst x)) (List.map_filter delivered_message (account_transactions block (fst x)))
      else [])"

abbreviation deliver_all :: "(uint256 \<times> uint256) list \<Rightarrow> pending_messages_queue \<Rightarrow> pending_messages_queue"
where
  "deliver_all ds q \<equiv> fold (\<lambda>(a, h). Message_Queue.deliver_message a h) ds q"

lemma handle_block_transaction_queue:
  "fst (handle_block_transaction alive block account observers t q) =
     (case delivered_message t of None \<Rightarrow> q | Some h \<Rightarrow> Message_Queue.deliver_message account h q)"
  by (auto simp: handle_block_transaction_def delivered_message_def
      split: sum.splits tx_description.splits bool.splits option.splits prod.splits)

lemma handle_block_transactions_queue:
  "fst (handle_block_transactions alive block account observers ts q) =
     deliver_all (map (Pair account) (List.map_filter delivered_message ts)) q"
  by (induction ts arbitrary: q)
    (auto simp: map_filter_simps case_prod_unfold Let_def handle_block_transaction_queue
      split: option.splits)

lemma subscription_handle_block_queue:
  "fst (snd (subscription_handle_block alive block account ss q)) =
     (if ss_observers ss = [] then q
      else deliver_all (map (Pair account)
             (List.map_filter delivered_message (account_transactions block account))) q)"
  by (auto simp: subscription_handle_block_def account_transactions_def map_filter_simps
      handle_block_transactions_queue split: sum.splits option.splits)

lemma subscription_block_queue:
  "fst (snd (subscription_block SHARD_FULL alive block account ss q)) =
     deliver_all (subscription_deliveries SHARD_FULL alive block (account, ss)) q"
  by (auto simp: subscription_block_def subscription_deliveries_def observed_def update_status_def
      Let_def case_prod_unfold subscription_handle_block_queue watch_send_def receiver_count_def
      split: sum.splits)

lemma subscriptions_block_queue:
  "fst (snd (subscriptions_block SHARD_FULL alive block subs q)) =
     deliver_all (concat (map (subscription_deliveries SHARD_FULL alive block) subs)) q"
  by (induction subs arbitrary: q)
    (auto simp: case_prod_unfold Let_def subscription_block_queue)

lemma handle_shard_block_queue:
  assumes "ts_ready s"
  shows "ts_messages_queue (snd (handle_shard_block SHARD_FULL alive (Inr block) s)) =
    queue_update SHARD_FULL (sb_shard block) (sb_gen_utime block)
      (deliver_all (concat (map (subscription_deliveries SHARD_FULL alive block)
         (ts_state_subscriptions s))) (ts_messages_queue s))"
  using assms
  by (simp add: handle_shard_block_def case_prod_unfold Let_def subscriptions_block_queue)

lemma in_subscription_deliveries:
  assumes "hm_wf subs"
  shows "(a, h) \<in> set (concat (map (subscription_deliveries SHARD_FULL alive block) subs)) \<longleftrightarrow>
    (\<exists>ss. hm_get subs a = Some ss \<and> observed SHARD_FULL alive block a ss \<and>
       (\<exists>t\<in>set (account_transactions block a). delivered_message t = Some h))"
  using assms
  by (force simp: subscription_deliveries_def List.map_filter_def hm_in_set_iff [symmetric])

text \<open>C19: What a shard block makes of a pending message: it is delivered when the block holds an ordinary,
  not aborted transaction of its account for that external message and somebody observes the account,
  and this comes first; otherwise it expires exactly when the shard holds the account and its time
  has passed the message's; otherwise it stays pending.\<close>

theorem shard_block_answers_messages:
  assumes "ts_ready s" "hm_wf (ts_state_subscriptions s)" "queue_inv (ts_messages_queue s)"
    "queue_pend (ts_messages_queue s) a h = Some (c, e)"
  shows "queue_stat (ts_messages_queue (snd (handle_shard_block SHARD_FULL alive (Inr block) s))) c =
    (if \<exists>ss. hm_get (ts_state_subscriptions s) a = Some ss \<and> observed SHARD_FULL alive block a ss \<and>
          (\<exists>tx message. Inr tx \<in> set (account_transactions block a) \<and>
             bt_description tx = Inr (Ordinary False) \<and> bt_in_msg tx = Some (h, Inr message) \<and>
             msg_header message = ExtInMsgInfo)
     then Some Delivered
     else if e < sb_gen_utime block \<and> contains_account SHARD_FULL (sb_shard block) a then Some Expired
     else None)"
proof -
  have tx: "delivered_message t = Some h \<longleftrightarrow> (\<exists>tx message. t = Inr tx \<and>
      bt_description tx = Inr (Ordinary False) \<and> bt_in_msg tx = Some (h, Inr message) \<and>
      msg_header message = ExtInMsgInfo)" for t :: "'d block_transaction result"
    by (auto simp: delivered_message_def
        split: sum.splits tx_description.splits bool.splits option.splits)
  have "(a, h) \<in> set (concat (map (subscription_deliveries SHARD_FULL alive block)
        (ts_state_subscriptions s))) \<longleftrightarrow>
      (\<exists>ss. hm_get (ts_state_subscriptions s) a = Some ss \<and> observed SHARD_FULL alive block a ss \<and>
          (\<exists>tx message. Inr tx \<in> set (account_transactions block a) \<and>
             bt_description tx = Inr (Ordinary False) \<and> bt_in_msg tx = Some (h, Inr message) \<and>
             msg_header message = ExtInMsgInfo))"
    unfolding in_subscription_deliveries [OF assms(2)] by (auto simp: tx)
  then show ?thesis
    unfolding handle_shard_block_queue [OF assms(1)] mq.block_answer [OF assms(3,4)] by simp
qed

section \<open>Observers\<close>

definition accepted_transactions ::
  "'body block_transaction result list \<Rightarrow> ('body block_transaction \<times> 'body ton_message) list" where
  "accepted_transactions ts = List.map_filter (\<lambda>t.
     case t of
       Inr tx \<Rightarrow>
         (case (bt_description tx, bt_in_msg tx) of
            (Inr (Ordinary False), Some (h, Inr message)) \<Rightarrow> Some (tx, message)
          | _ \<Rightarrow> None)
     | Inl _ \<Rightarrow> None) ts"

definition block_calls ::
  "(tx_observer \<Rightarrow> bool) \<Rightarrow> ('acc, 'body) shard_block \<Rightarrow> uint256 \<Rightarrow> tx_observer list \<Rightarrow>
   ('acc, 'body) tx_call list" where
  "block_calls alive block account observers =
     concat (map (\<lambda>(tx, message). map (\<lambda>o'. (o', tx_context_of block account tx message))
         (filter alive observers)) (accepted_transactions (account_transactions block account)))"

lemma handle_block_transactions_calls:
  "snd (handle_block_transactions alive block account observers ts q) =
     concat (map (\<lambda>(tx, message). map (\<lambda>o'. (o', tx_context_of block account tx message))
       (filter alive observers)) (accepted_transactions ts))"
proof (induction ts arbitrary: q)
  case (Cons t ts)
  show ?case
    using Cons
    by (auto simp: accepted_transactions_def map_filter_simps case_prod_unfold Let_def
        handle_block_transaction_def
        split: sum.splits tx_description.splits bool.splits option.splits)
qed (simp add: accepted_transactions_def map_filter_simps)

lemma subscription_block_calls:
  "snd (snd (subscription_block SHARD_FULL alive block account ss q)) =
     (if contains_account SHARD_FULL (sb_shard block) account
      then block_calls alive block account (ss_observers ss) else [])"
proof -
  have empty: "block_calls alive block account (ss_observers ss) = []" if "filter alive (ss_observers ss) = []"
    using that by (simp add: block_calls_def)
  have calls: "snd (snd (subscription_handle_block alive block account ss' q)) =
      block_calls alive block account (ss_observers ss')" for ss' :: "'a state_subscription"
    by (auto simp: subscription_handle_block_def block_calls_def account_transactions_def
        handle_block_transactions_calls accepted_transactions_def map_filter_simps
        split: sum.splits option.splits)
  have twice: "block_calls alive block account (filter alive os) = block_calls alive block account os"
    for os by (simp add: block_calls_def)
  have none: "block_calls alive block account [] = []" by (simp add: block_calls_def)
  show ?thesis
    using empty none
    by (auto simp: subscription_block_def update_status_def Let_def case_prod_unfold calls twice
        watch_send_def split: sum.splits)
qed

lemma subscriptions_block_calls:
  "snd (snd (subscriptions_block SHARD_FULL alive block subs q)) =
     concat (map (\<lambda>(account, ss). if contains_account SHARD_FULL (sb_shard block) account
       then block_calls alive block account (ss_observers ss) else []) subs)"
  by (induction subs arbitrary: q)
    (auto simp: case_prod_unfold Let_def subscription_block_calls)

lemma block_calls_account:
  "call \<in> set (block_calls alive block account os) \<Longrightarrow> ctx_account (snd call) = account"
  by (auto simp: block_calls_def tx_context_of_def)

lemma filter_account_calls:
  assumes "hm_wf subs"
  shows "filter (\<lambda>call. ctx_account (snd call) = a)
      (concat (map (\<lambda>(account, ss). if P account then block_calls alive block account (f ss) else [])
        subs)) =
    (case hm_get subs a of None \<Rightarrow> []
     | Some ss \<Rightarrow> if P a then block_calls alive block a (f ss) else [])"
  using assms
proof (induction subs)
  case (Cons x subs)
  obtain account ss where x: "x = (account, ss)" by (cases x)
  have same: "filter (\<lambda>call. ctx_account (snd call) = account) (block_calls alive block account os) =
      block_calls alive block account os" for os
    by (auto simp: filter_id_conv dest: block_calls_account)
  have other: "filter (\<lambda>call. ctx_account (snd call) = a) (block_calls alive block account os) = []"
    if "account \<noteq> a" for os
    using that by (auto simp: filter_empty_conv dest: block_calls_account)
  have gone: "hm_get subs a = None" if "account = a"
    using Cons.prems that by (auto simp: x map_of_eq_None_iff)
  show ?case
  proof (cases "account = a")
    case True
    then show ?thesis using Cons gone same by (simp add: x)
  next
    case False
    then show ?thesis using Cons other by (simp add: x)
  qed
qed simp

text \<open>C34: The observers of an account see its transactions: of every block of a shard that holds the
  account, each observer that is alive gets exactly the ordinary transactions that were not aborted
  and have a readable incoming message, in the order of the block, once per registration; and a
  block of another shard gives it nothing.\<close>

theorem observers_see_transactions:
  assumes "ts_ready s" "hm_wf (ts_state_subscriptions s)"
    "hm_get (ts_state_subscriptions s) a = Some ss"
  shows "\<exists>calls. ts_calls (snd (handle_shard_block SHARD_FULL alive (Inr block) s)) = ts_calls s @ calls \<and>
    filter (\<lambda>call. ctx_account (snd call) = a) calls =
      (if contains_account SHARD_FULL (sb_shard block) a
       then concat (map (\<lambda>(tx, message). map (\<lambda>o'. (o', tx_context_of block a tx message))
              (filter alive (ss_observers ss)))
            (accepted_transactions (account_transactions block a)))
       else [])"
  using assms filter_account_calls [OF assms(2),
      where a = a and alive = alive and block = block and f = ss_observers
      and P = "contains_account SHARD_FULL (sb_shard block)"]
  by (simp add: handle_shard_block_def case_prod_unfold Let_def
      subscriptions_block_calls [unfolded case_prod_unfold] block_calls_def [symmetric]
      block_calls_def [unfolded case_prod_unfold, symmetric])

section \<open>Waiters for the state of a contract\<close>

text \<open>The subscriber with its clients: the receivers that are open, with the account each waits for,
  and the values they have read. For every account, \<open>sy_latest\<close> is its state in the last block of a
  shard that holds it, of those handled since the start in which the account can be read.\<close>

record ('acc, 'body) ton_system =
  sy_sub :: "('acc, 'body) ton_subscriber"
  sy_open :: "(nat \<times> uint256) list"
  sy_latest :: "uint256 \<Rightarrow> 'acc shard_account option option"
  sy_read :: "(uint256 \<times> 'acc shard_account option result \<times> 'acc shard_account option option) list"

definition block_latest ::
  "u64 \<Rightarrow> ('acc, 'body) shard_block \<Rightarrow> (uint256 \<Rightarrow> 'acc shard_account option option) \<Rightarrow>
   uint256 \<Rightarrow> 'acc shard_account option option" where
  "block_latest SHARD_FULL block latest a =
     (if contains_account SHARD_FULL (sb_shard block) a
      then (case sb_accounts block a of Inr v \<Rightarrow> Some v | Inl e \<Rightarrow> latest a) else latest a)"

inductive ton_step ::
  "u64 \<Rightarrow> (32 word \<Rightarrow> 'prefix \<Rightarrow> shard_ident result) \<Rightarrow> ('acc, 'body) ton_system \<Rightarrow>
   ('acc, 'body) ton_system \<Rightarrow> bool" for SHARD_FULL with_prefix where
  ton_observe: "ton_step SHARD_FULL with_prefix y
     (y\<lparr>sy_sub := add_transactions_subscription accounts weak (sy_sub y)\<rparr>)"
| ton_open: "subscribe_state account (sy_sub y) = (rx, s') \<Longrightarrow>
     ton_step SHARD_FULL with_prefix y (y\<lparr>sy_sub := s', sy_open := (rx, account) # sy_open y\<rparr>)"
| ton_read: "(rx, account) \<in> set (sy_open y) \<Longrightarrow>
     receive_state account rx (sy_sub y) = (Some v, s') \<Longrightarrow>
     ton_step SHARD_FULL with_prefix y
       (y\<lparr>sy_sub := s', sy_read := (account, v, sy_latest y account) # sy_read y\<rparr>)"
| ton_drop: "(rx, account) \<in> set (sy_open y) \<Longrightarrow>
     ton_step SHARD_FULL with_prefix y (y\<lparr>sy_sub := drop_receiver account rx (sy_sub y),
       sy_open := removeAll (rx, account) (sy_open y)\<rparr>)"
| ton_shard_block: "handle_shard_block SHARD_FULL alive (Inr block) (sy_sub y) = (r, s') \<Longrightarrow>
     ton_step SHARD_FULL with_prefix y (y\<lparr>sy_sub := s', sy_latest :=
       (if ts_ready (sy_sub y) then block_latest SHARD_FULL block (sy_latest y) else sy_latest y)\<rparr>)"
| ton_bad_block: "handle_shard_block SHARD_FULL alive (Inl e) (sy_sub y) = (r, s') \<Longrightarrow>
     ton_step SHARD_FULL with_prefix y (y\<lparr>sy_sub := s'\<rparr>)"
| ton_mc_block: "handle_masterchain_block with_prefix gen_utime parsed (sy_sub y) = (r, s') \<Longrightarrow>
     ton_step SHARD_FULL with_prefix y (y\<lparr>sy_sub := s'\<rparr>)"
| ton_wait_shards: "wait_shards since (sy_sub y) = (tx, s') \<Longrightarrow>
     ton_step SHARD_FULL with_prefix y (y\<lparr>sy_sub := s'\<rparr>)"
| ton_status: "ton_step SHARD_FULL with_prefix y (y\<lparr>sy_sub := engine_status_changed synced (sy_sub y)\<rparr>)"

inductive ton_reachable :: "u64 \<Rightarrow> (32 word \<Rightarrow> 'prefix \<Rightarrow> shard_ident result) \<Rightarrow> ('acc, 'body) ton_system \<Rightarrow> bool"
  for SHARD_FULL with_prefix where
  ton_init: "ton_reachable SHARD_FULL with_prefix \<lparr>sy_sub = ton_subscriber_new q, sy_open = [],
    sy_latest = (\<lambda>_. None), sy_read = []\<rparr>"
| ton_next: "ton_reachable SHARD_FULL with_prefix y \<Longrightarrow> ton_step SHARD_FULL with_prefix y y' \<Longrightarrow> ton_reachable SHARD_FULL with_prefix y'"

text \<open>One subscription: no receiver is ahead of the sender, and whoever is behind would read the latest
  state.\<close>

definition subscription_inv ::
  "'acc shard_account option option \<Rightarrow> 'acc state_subscription \<Rightarrow> bool" where
  "subscription_inv latest ss \<longleftrightarrow>
     (\<forall>seen. seen = ss_seen ss \<or> (\<exists>rx. (rx, seen) \<in> set (ss_receivers ss)) \<longrightarrow>
        seen \<le> ss_version ss \<and> (seen < ss_version ss \<longrightarrow> latest = Some (ss_value ss)))"

declare map_of_eq_Some_iff [simp del]

definition ton_inv :: "('acc, 'body) ton_system \<Rightarrow> bool" where
  "ton_inv y \<longleftrightarrow>
     (\<forall>a ss. hm_get (ts_state_subscriptions (sy_sub y)) a = Some ss \<longrightarrow>
        subscription_inv (sy_latest y a) ss) \<and>
     hm_wf (ts_state_subscriptions (sy_sub y)) \<and>
     (\<forall>rx a. (rx, a) \<in> set (sy_open y) \<longrightarrow> rx < ts_next_receiver (sy_sub y) \<and>
        (\<exists>ss. hm_get (ts_state_subscriptions (sy_sub y)) a = Some ss \<and>
              hm_contains rx (ss_receivers ss))) \<and>
     distinct (map fst (sy_open y)) \<and>
     (\<forall>a v latest. (a, v, latest) \<in> set (sy_read y) \<longrightarrow> (\<exists>w. v = Inr w \<and> latest = Some w))"

lemma subscription_inv_new [simp]: "subscription_inv latest (state_subscription_new os)"
  by (simp add: subscription_inv_def state_subscription_new_def)

lemma subscription_inv_observers [simp]:
  "subscription_inv latest (ss\<lparr>ss_observers := os\<rparr>) = subscription_inv latest ss"
  by (simp add: subscription_inv_def)

lemma set_hm_insert: "x \<in> set (hm_insert k v m) \<Longrightarrow> x = (k, v) \<or> (x \<in> set m)"
  by (induction m) (auto split: if_splits)

lemma subscription_inv_receiver:
  assumes "subscription_inv latest ss" "seen = ss_seen ss \<or> seen = ss_version ss"
  shows "subscription_inv latest (ss\<lparr>ss_receivers := hm_insert rx seen (ss_receivers ss)\<rparr>)"
  using assms by (auto simp: subscription_inv_def dest!: set_hm_insert)

lemma subscription_inv_drop:
  "subscription_inv latest ss \<Longrightarrow>
   subscription_inv latest (ss\<lparr>ss_receivers := hm_remove rx (ss_receivers ss)\<rparr>)"
  by (auto simp: subscription_inv_def hm_remove_filter)

text \<open>A block on one subscription.\<close>

lemma fst_subscription_block:
  "fst (subscription_block SHARD_FULL alive block account ss q) =
    (let ss1 = ss\<lparr>ss_observers := filter alive (ss_observers ss)\<rparr>
     in if ss_receivers ss = [] \<and> filter alive (ss_observers ss) = [] then None
        else if \<not> contains_account SHARD_FULL (sb_shard block) account then Some ss1
        else if ss_receivers ss = [] then Some (ss1\<lparr>ss_seen := ss_version ss\<rparr>)
        else case sb_accounts block account of
               Inr v \<Rightarrow> Some (watch_send v ss1) | Inl e \<Rightarrow> Some ss1)"
  by (auto simp: subscription_block_def update_status_def Let_def case_prod_unfold
      receiver_count_def split: sum.splits)

lemma subscription_inv_send:
  assumes "subscription_inv latest ss"
  shows "subscription_inv (Some v) (watch_send v ss)"
proof -
  have "seen \<le> Suc (ss_version ss)"
    if "seen = ss_seen ss \<or> (\<exists>rx. (rx, seen) \<in> set (ss_receivers ss))" for seen
    using assms that le_SucI unfolding subscription_inv_def by blast
  then show ?thesis by (simp add: subscription_inv_def watch_send_def)
qed

lemma subscription_block_state:
  assumes inv: "subscription_inv (latest account) ss"
    and kept: "fst (subscription_block SHARD_FULL alive block account ss q) = Some ss'"
  shows "subscription_inv (block_latest SHARD_FULL block latest account) ss' \<and>
    ss_receivers ss' = ss_receivers ss"
proof (cases "contains_account SHARD_FULL (sb_shard block) account")
  case True
  let ?ss1 = "ss\<lparr>ss_observers := filter alive (ss_observers ss)\<rparr>"
  have "subscription_inv (Some v) (watch_send v ?ss1)" for v
    by (rule subscription_inv_send [of "latest account"]) (simp add: inv)
  moreover have "subscription_inv now (?ss1\<lparr>ss_seen := ss_version ss\<rparr>)" if "ss_receivers ss = []" for now
    using that by (simp add: subscription_inv_def)
  moreover have "subscription_inv (latest account) ?ss1" by (simp add: inv)
  ultimately show ?thesis
    using kept True
    by (auto simp: fst_subscription_block Let_def watch_send_def block_latest_def
        split: if_splits sum.splits)
next
  case False
  then show ?thesis
    using kept inv by (auto simp: fst_subscription_block Let_def block_latest_def split: if_splits)
qed

lemma subscription_block_kept:
  assumes "ss_receivers ss \<noteq> []"
  shows "\<exists>ss'. fst (subscription_block SHARD_FULL alive block account ss q) = Some ss'"
  using assms by (auto simp: fst_subscription_block Let_def split: sum.splits)

text \<open>A block on all subscriptions.\<close>

definition kept_subscription ::
  "u64 \<Rightarrow> (tx_observer \<Rightarrow> bool) \<Rightarrow> ('acc, 'body) shard_block \<Rightarrow> uint256 \<Rightarrow> 'acc state_subscription \<Rightarrow>
   'acc state_subscription option" where
  "kept_subscription SHARD_FULL alive block a ss =
     fst (subscription_block SHARD_FULL alive block a ss queue_new)"

lemma kept_any_queue:
  "fst (subscription_block SHARD_FULL alive block a ss q) = kept_subscription SHARD_FULL alive block a ss"
  by (simp add: kept_subscription_def fst_subscription_block)

lemma subscriptions_block_kept:
  "fst (subscriptions_block SHARD_FULL alive block subs q) =
     List.map_filter (\<lambda>(a, ss). map_option (Pair a) (kept_subscription SHARD_FULL alive block a ss)) subs"
  by (induction subs arbitrary: q)
    (auto simp: map_filter_simps case_prod_unfold Let_def kept_any_queue split: option.splits)

lemma map_filter_keys:
  "set (map fst (List.map_filter (\<lambda>(k, v). map_option (Pair k) (f k v)) m)) \<subseteq> set (map fst m)"
  by (auto simp: List.map_filter_def split: option.splits) force

lemma hm_wf_map_filter [simp]:
  "hm_wf m \<Longrightarrow> hm_wf (List.map_filter (\<lambda>(k, v). map_option (Pair k) (f k v)) m)"
proof (induction m)
  case (Cons x m)
  then show ?case
    using map_filter_keys [of f m]
    by (cases x; cases "f (fst x) (snd x)") (auto simp: map_filter_simps)
qed (simp add: map_filter_simps)

lemma hm_get_map_filter:
  assumes "hm_wf m"
  shows "hm_get (List.map_filter (\<lambda>(k, v). map_option (Pair k) (f k v)) m) k =
    Option.bind (hm_get m k) (f k)"
  using assms
proof (induction m)
  case (Cons x m)
  obtain k' v where x: "x = (k', v)" by (cases x)
  have "hm_get m k' = None" using Cons.prems by (simp add: x map_of_eq_None_iff)
  then show ?case
    using Cons by (cases "f k' v") (auto simp: x map_filter_simps)
qed (simp add: map_filter_simps)

text \<open>What a shard block does to the subscriptions of a ready subscriber.\<close>

lemma handle_shard_block_subscriptions:
  assumes "handle_shard_block SHARD_FULL alive (Inr block) s = (r, s')"
  shows "ts_next_receiver s' = ts_next_receiver s" "ts_ready s' = ts_ready s"
    "ts_state_subscriptions s' = (if ts_ready s then List.map_filter
       (\<lambda>(a, ss). map_option (Pair a) (kept_subscription SHARD_FULL alive block a ss))
       (ts_state_subscriptions s) else ts_state_subscriptions s)"
  using assms
  by (auto simp: handle_shard_block_def case_prod_unfold Let_def subscriptions_block_kept
      split: if_splits)

lemma ton_inv_shard_block:
  assumes inv: "ton_inv y"
    and step: "handle_shard_block SHARD_FULL alive (Inr block) (sy_sub y) = (r, s')"
  shows "ton_inv (y\<lparr>sy_sub := s', sy_latest :=
    (if ts_ready (sy_sub y) then block_latest SHARD_FULL block (sy_latest y) else sy_latest y)\<rparr>)"
proof (cases "ts_ready (sy_sub y)")
  case False
  then have "s' = sy_sub y" using step by (simp add: handle_shard_block_def)
  then have "y\<lparr>sy_sub := s', sy_latest := (if ts_ready (sy_sub y)
      then block_latest SHARD_FULL block (sy_latest y) else sy_latest y)\<rparr> = y"
    using False by simp
  then show ?thesis using inv by simp
next
  case True
  let ?subs = "ts_state_subscriptions (sy_sub y)"
  let ?kept = "kept_subscription SHARD_FULL alive block"
  let ?latest = "block_latest SHARD_FULL block (sy_latest y)"
  have wf: "hm_wf ?subs" using inv by (simp add: ton_inv_def)
  note s' = handle_shard_block_subscriptions [OF step]
  have get: "hm_get (ts_state_subscriptions s') a = Option.bind (hm_get ?subs a) (?kept a)" for a
    using True by (simp add: s' hm_get_map_filter [OF wf])
  have kept: "subscription_inv (?latest a) ss' \<and> ss_receivers ss' = ss_receivers ss"
    if "hm_get ?subs a = Some ss" "?kept a ss = Some ss'" for a ss ss'
  proof -
    have "subscription_inv (sy_latest y a) ss"
      using inv that(1) by (simp add: ton_inv_def)
    moreover have "fst (subscription_block SHARD_FULL alive block a ss queue_new) = Some ss'"
      using that(2) by (simp add: kept_subscription_def)
    ultimately show ?thesis by (rule subscription_block_state)
  qed
  have wf': "hm_wf (ts_state_subscriptions s')" using True wf by (simp add: s')
  have opened: "\<exists>ss. hm_get (ts_state_subscriptions s') a = Some ss \<and> hm_contains rx (ss_receivers ss)"
    if op: "(rx, a) \<in> set (sy_open y)" for rx a
  proof -
    obtain ss where ss: "hm_get ?subs a = Some ss" "hm_contains rx (ss_receivers ss)"
      using inv op unfolding ton_inv_def by blast
    then have "ss_receivers ss \<noteq> []" by (auto simp: hm_contains_def)
    from subscription_block_kept [OF this] obtain ss' where "?kept a ss = Some ss'"
      unfolding kept_subscription_def by blast
    then show ?thesis using kept [OF ss(1)] ss get by auto
  qed
  have subs: "subscription_inv (?latest a) ss'" if "hm_get (ts_state_subscriptions s') a = Some ss'"
    for a ss'
    using that kept by (auto simp: get bind_eq_Some_conv)
  have next_rx: "rx < ts_next_receiver s'" if "(rx, a) \<in> set (sy_open y)" for rx a
    using inv that by (auto simp: ton_inv_def s'(1))
  show ?thesis
    unfolding ton_inv_def using inv True opened wf' subs next_rx
    by (auto simp: ton_inv_def)
qed

text \<open>The other steps.\<close>

lemma handle_masterchain_block_fields:
  assumes "handle_masterchain_block with_prefix t parsed s = (r, s')"
  shows "ts_state_subscriptions s' = ts_state_subscriptions s \<and> ts_next_receiver s' = ts_next_receiver s"
  using assms by (auto simp: handle_masterchain_block_def Let_def split: if_splits sum.splits)

lemma ton_inv_same_subscriptions:
  assumes "ton_inv y" "ts_state_subscriptions s' = ts_state_subscriptions (sy_sub y)"
    "ts_next_receiver s' = ts_next_receiver (sy_sub y)"
  shows "ton_inv (y\<lparr>sy_sub := s'\<rparr>)"
  using assms unfolding ton_inv_def by simp

lemma ton_inv_observe1:
  assumes "ton_inv y"
  shows "ton_inv (y\<lparr>sy_sub := (sy_sub y)\<lparr>ts_state_subscriptions :=
    add_transactions_subscription1 weak a (ts_state_subscriptions (sy_sub y))\<rparr>\<rparr>)"
  using assms
  by (cases "hm_get (ts_state_subscriptions (sy_sub y)) a")
    (fastforce simp: ton_inv_def add_transactions_subscription1_def hmap_simps)+

lemma ton_inv_observe:
  "ton_inv y \<Longrightarrow> ton_inv (y\<lparr>sy_sub := add_transactions_subscription accounts weak (sy_sub y)\<rparr>)"
proof (induction accounts arbitrary: y)
  case Nil
  then show ?case by (simp add: add_transactions_subscription_def)
next
  case (Cons a accounts)
  show ?case
    using Cons.IH [OF ton_inv_observe1 [OF Cons.prems, of weak a]]
    by (simp add: add_transactions_subscription_def)
qed

lemma subscribe_state_fields:
  assumes "subscribe_state a s = (rx, s')"
  shows "rx = ts_next_receiver s" "ts_next_receiver s' = Suc rx"
    "ts_state_subscriptions s' = (let ss = (case hm_get (ts_state_subscriptions s) a of
         None \<Rightarrow> state_subscription_new [] | Some ss \<Rightarrow> ss)
       in hm_insert a (ss\<lparr>ss_receivers := hm_insert rx (ss_seen ss) (ss_receivers ss)\<rparr>)
            (ts_state_subscriptions s))"
  using assms by (auto simp: subscribe_state_def Let_def)

lemma ton_inv_open:
  assumes inv: "ton_inv y" and step: "subscribe_state a (sy_sub y) = (rx, s')"
  shows "ton_inv (y\<lparr>sy_sub := s', sy_open := (rx, a) # sy_open y\<rparr>)"
proof -
  let ?subs = "ts_state_subscriptions (sy_sub y)"
  define ss where "ss = (case hm_get ?subs a of None \<Rightarrow> state_subscription_new [] | Some ss \<Rightarrow> ss)"
  note s' = subscribe_state_fields [OF step, folded ss_def, unfolded Let_def]
  have wf: "hm_wf ?subs" using inv by (simp add: ton_inv_def)
  have "subscription_inv (sy_latest y a) ss"
    using inv by (auto simp: ss_def ton_inv_def split: option.splits)
  then have new: "subscription_inv (sy_latest y a)
      (ss\<lparr>ss_receivers := hm_insert rx (ss_seen ss) (ss_receivers ss)\<rparr>)"
    by (rule subscription_inv_receiver) simp
  have opened: "\<exists>ss'. hm_get (ts_state_subscriptions s') a' = Some ss' \<and> hm_contains rx' (ss_receivers ss')"
    if op: "(rx', a') \<in> set ((rx, a) # sy_open y)" for rx' a'
  proof (cases "a' = a")
    case True
    show ?thesis
    proof (cases "rx' = rx")
      case False
      then have "(rx', a) \<in> set (sy_open y)" using op True by simp
      then obtain ss0 where "hm_get ?subs a = Some ss0" "hm_contains rx' (ss_receivers ss0)"
        using inv unfolding ton_inv_def by blast
      then show ?thesis using True by (simp add: s' hmap_simps ss_def)
    qed (simp add: True s' hmap_simps)
  next
    case False
    then show ?thesis using op inv by (auto simp: ton_inv_def s' hmap_simps)
  qed
  have old: "rx' < rx" if "(rx', a') \<in> set (sy_open y)" for rx' a'
    using inv that s'(1) by (auto simp: ton_inv_def)
  then have "rx \<notin> fst ` set (sy_open y)" by force
  moreover have "subscription_inv (sy_latest y a') ss'"
    if "hm_get (ts_state_subscriptions s') a' = Some ss'" for a' ss'
    using that new inv by (auto simp: s'(3) hmap_simps ton_inv_def split: if_splits)
  moreover have "hm_wf (ts_state_subscriptions s')" using wf by (simp add: s'(3))
  moreover have "rx' < ts_next_receiver s'" if "(rx', a') \<in> set ((rx, a) # sy_open y)" for rx' a'
    using that old by (auto simp: s'(2) less_Suc_eq)
  ultimately show ?thesis
    unfolding ton_inv_def using inv opened by (auto simp: ton_inv_def)
qed

lemma ton_inv_openD:
  "ton_inv y \<Longrightarrow> (rx, a) \<in> set (sy_open y) \<Longrightarrow>
   \<exists>ss seen. hm_get (ts_state_subscriptions (sy_sub y)) a = Some ss \<and>
     hm_get (ss_receivers ss) rx = Some seen \<and> subscription_inv (sy_latest y a) ss"
  unfolding ton_inv_def hm_contains_def by blast

text \<open>Replacing one subscription by one that keeps the open receivers.\<close>

lemma ton_inv_replace:
  assumes inv: "ton_inv y" and ss: "hm_get (ts_state_subscriptions (sy_sub y)) a = Some ss"
    and new: "subscription_inv (sy_latest y a) ss'" and opened: "set opened' \<subseteq> set (sy_open y)"
    and dist: "distinct (map fst opened')"
    and keeps: "\<And>rx. (rx, a) \<in> set opened' \<Longrightarrow> hm_contains rx (ss_receivers ss) \<Longrightarrow>
      hm_contains rx (ss_receivers ss')"
    and read: "\<forall>a v latest. (a, v, latest) \<in> set read' \<longrightarrow> (\<exists>w. v = Inr w \<and> latest = Some w)"
  shows "ton_inv (y\<lparr>sy_sub := (sy_sub y)\<lparr>ts_state_subscriptions :=
    hm_insert a ss' (ts_state_subscriptions (sy_sub y))\<rparr>, sy_open := opened', sy_read := read'\<rparr>)"
proof -
  let ?subs = "ts_state_subscriptions (sy_sub y)"
  have "\<exists>ss0. hm_get (hm_insert a ss' ?subs) a' = Some ss0 \<and> hm_contains rx (ss_receivers ss0)"
    if op: "(rx, a') \<in> set opened'" for rx a'
  proof -
    have "(rx, a') \<in> set (sy_open y)" using op opened by auto
    then obtain ss0 where "hm_get ?subs a' = Some ss0" "hm_contains rx (ss_receivers ss0)"
      using inv unfolding ton_inv_def by blast
    then show ?thesis using keeps op ss by (cases "a' = a") (auto simp: hmap_simps)
  qed
  moreover have "subscription_inv (sy_latest y a') ss0"
    if "hm_get (hm_insert a ss' ?subs) a' = Some ss0" for a' ss0
    using that new inv by (auto simp: hmap_simps ton_inv_def split: if_splits)
  moreover have "rx < ts_next_receiver (sy_sub y)" if "(rx, a') \<in> set opened'" for rx a'
    using that opened inv unfolding ton_inv_def by blast
  ultimately show ?thesis
    using inv dist read unfolding ton_inv_def by simp
qed

lemma ton_inv_read:
  assumes inv: "ton_inv y" and op: "(rx, a) \<in> set (sy_open y)"
    and step: "receive_state a rx (sy_sub y) = (Some v, s')"
  shows "ton_inv (y\<lparr>sy_sub := s', sy_read := (a, v, sy_latest y a) # sy_read y\<rparr>)"
proof -
  from ton_inv_openD [OF inv op] obtain ss seen where
    ss: "hm_get (ts_state_subscriptions (sy_sub y)) a = Some ss" "hm_get (ss_receivers ss) rx = Some seen"
      "subscription_inv (sy_latest y a) ss"
    by blast
  let ?ss = "ss\<lparr>ss_receivers := hm_insert rx (ss_version ss) (ss_receivers ss)\<rparr>"
  have behind: "seen \<noteq> ss_version ss" and v: "v = Inr (ss_value ss)"
    and s': "s' = (sy_sub y)\<lparr>ts_state_subscriptions :=
      hm_insert a ?ss (ts_state_subscriptions (sy_sub y))\<rparr>"
    using step ss by (auto simp: receive_state_def split: if_splits)
  have "sy_latest y a = Some (ss_value ss)"
    using ss(3) behind hm_get_in_set [OF ss(2)] unfolding subscription_inv_def
    by (metis le_neq_implies_less)
  then have read: "\<forall>a' v' latest. (a', v', latest) \<in> set ((a, v, sy_latest y a) # sy_read y) \<longrightarrow>
      (\<exists>w. v' = Inr w \<and> latest = Some w)"
    using inv by (auto simp: ton_inv_def v)
  have dist: "distinct (map fst (sy_open y))" using inv by (simp add: ton_inv_def)
  have new: "subscription_inv (sy_latest y a) ?ss"
    by (rule subscription_inv_receiver [OF ss(3)]) simp
  have "ton_inv (y\<lparr>sy_sub := (sy_sub y)\<lparr>ts_state_subscriptions :=
      hm_insert a ?ss (ts_state_subscriptions (sy_sub y))\<rparr>, sy_open := sy_open y,
      sy_read := (a, v, sy_latest y a) # sy_read y\<rparr>)"
    by (rule ton_inv_replace [OF inv ss(1) new subset_refl dist _ read]) (simp add: hmap_simps)
  then show ?thesis by (simp add: s')
qed

lemma ton_inv_drop:
  assumes inv: "ton_inv y" and op: "(rx, a) \<in> set (sy_open y)"
  shows "ton_inv (y\<lparr>sy_sub := drop_receiver a rx (sy_sub y),
    sy_open := removeAll (rx, a) (sy_open y)\<rparr>)"
proof -
  from ton_inv_openD [OF inv op] obtain ss where
    ss: "hm_get (ts_state_subscriptions (sy_sub y)) a = Some ss" "subscription_inv (sy_latest y a) ss"
    by blast
  have read: "\<forall>a v latest. (a, v, latest) \<in> set (sy_read y) \<longrightarrow> (\<exists>w. v = Inr w \<and> latest = Some w)"
    and dist: "distinct (map fst (sy_open y))"
    using inv by (simp_all add: ton_inv_def)
  have dist': "distinct (map fst (removeAll (rx, a) (sy_open y)))"
    using dist by (simp add: removeAll_filter_not_eq distinct_map_filter)
  have "ton_inv (y\<lparr>sy_sub := (sy_sub y)\<lparr>ts_state_subscriptions := hm_insert a
      (ss\<lparr>ss_receivers := hm_remove rx (ss_receivers ss)\<rparr>) (ts_state_subscriptions (sy_sub y))\<rparr>,
      sy_open := removeAll (rx, a) (sy_open y), sy_read := sy_read y\<rparr>)"
    by (rule ton_inv_replace [OF inv ss(1) subscription_inv_drop [OF ss(2)] _ dist' _ read])
      (auto simp: hmap_simps)
  then show ?thesis by (simp add: drop_receiver_def ss)
qed

lemma ton_inv_step:
  assumes "ton_step SHARD_FULL with_prefix y y'" "ton_inv y"
  shows "ton_inv y'"
  using assms
proof cases
  case (ton_bad_block alive e r s')
  have "s' = sy_sub y" using ton_bad_block(2) by (auto simp: handle_shard_block_def split: if_splits)
  then show ?thesis using assms(2) ton_bad_block(1) by (simp add: ton_inv_same_subscriptions)
next
  case (ton_shard_block block alive r s')
  show ?thesis
    unfolding ton_shard_block(1) by (rule ton_inv_shard_block [OF assms(2) ton_shard_block(2)])
next
  case (ton_mc_block gen_utime parsed r s')
  then show ?thesis
    using assms(2) handle_masterchain_block_fields [OF ton_mc_block(2)]
    by (simp add: ton_inv_same_subscriptions)
next
  case (ton_wait_shards since tx s')
  then show ?thesis
    using assms(2) by (auto simp: wait_shards_def Let_def intro!: ton_inv_same_subscriptions)
next
  case (ton_status synced)
  then show ?thesis
    using assms(2) by (auto simp: engine_status_changed_def intro!: ton_inv_same_subscriptions)
qed (use assms(2) in \<open>auto intro: ton_inv_observe ton_inv_open ton_inv_read ton_inv_drop\<close>)

lemma ton_inv_reachable: "ton_reachable SHARD_FULL with_prefix y \<Longrightarrow> ton_inv y"
proof (induction rule: ton_reachable.induct)
  case (ton_init q)
  then show ?case by (simp add: ton_inv_def ton_subscriber_new_def)
next
  case (ton_next y y')
  then show ?case using ton_inv_step by blast
qed

section \<open>Properties of the waiters\<close>

text \<open>A handled block gives every open reader of a readable account of its shard something to read.\<close>

lemma block_feeds_readers:
  assumes inv: "ton_inv y" and op: "(rx, a) \<in> set (sy_open y)" and ready: "ts_ready (sy_sub y)"
    and block: "contains_account SHARD_FULL (sb_shard block) a" "sb_accounts block a = Inr state"
    and step: "handle_shard_block SHARD_FULL alive (Inr block) (sy_sub y) = (r, s')"
  shows "fst (receive_state a rx s') = Some (Inr state)"
proof -
  from ton_inv_openD [OF inv op] obtain ss seen where
    ss: "hm_get (ts_state_subscriptions (sy_sub y)) a = Some ss" "hm_get (ss_receivers ss) rx = Some seen"
      "subscription_inv (sy_latest y a) ss"
    by blast
  have wf: "hm_wf (ts_state_subscriptions (sy_sub y))" using inv by (simp add: ton_inv_def)
  let ?ss = "watch_send state (ss\<lparr>ss_observers := filter alive (ss_observers ss)\<rparr>)"
  have "ss_receivers ss \<noteq> []" using ss(2) by auto
  then have "kept_subscription SHARD_FULL alive block a ss = Some ?ss"
    by (simp add: kept_subscription_def fst_subscription_block Let_def block)
  then have get: "hm_get (ts_state_subscriptions s') a = Some ?ss"
    by (simp add: handle_shard_block_subscriptions [OF step] ready hm_get_map_filter [OF wf] ss(1))
  have "seen \<le> ss_version ss"
    using ss(3) hm_get_in_set [OF ss(2)] unfolding subscription_inv_def by blast
  then show ?thesis
    using get ss(2) by (simp add: receive_state_def watch_send_def)
qed

text \<open>C20: Whatever blocks, subscriptions and readers come in which order, what a reader of a contract
  gets is the state of that account in the last of the handled blocks of its shard in which it could
  be read, which may have been handled before the reader subscribed; it gets no state twice, and it
  is never left waiting behind a block: after a block of its shard with the account readable, its next
  read gives the state in that block.\<close>

theorem contract_state_is_latest:
  assumes "ton_reachable SHARD_FULL with_prefix y" "(rx, a) \<in> set (sy_open y)"
  shows "(\<forall>v s'. receive_state a rx (sy_sub y) = (Some v, s') \<longrightarrow>
      (\<exists>state. v = Inr state \<and> sy_latest y a = Some state) \<and>
      receive_state a rx s' = (None, s')) \<and>
    (\<forall>block alive r s' state. ts_ready (sy_sub y) \<and>
      contains_account SHARD_FULL (sb_shard block) a \<and> sb_accounts block a = Inr state \<and>
      handle_shard_block SHARD_FULL alive (Inr block) (sy_sub y) = (r, s') \<longrightarrow>
      fst (receive_state a rx s') = Some (Inr state))"
proof -
  note inv = ton_inv_reachable [OF assms(1)]
  have "(\<exists>state. v = Inr state \<and> sy_latest y a = Some state) \<and> receive_state a rx s' = (None, s')"
    if read: "receive_state a rx (sy_sub y) = (Some v, s')" for v s'
  proof
    show "\<exists>state. v = Inr state \<and> sy_latest y a = Some state"
      using ton_inv_read [OF inv assms(2) read] by (simp add: ton_inv_def)
    from ton_inv_openD [OF inv assms(2)] obtain ss seen where
      "hm_get (ts_state_subscriptions (sy_sub y)) a = Some ss" "hm_get (ss_receivers ss) rx = Some seen"
      by blast
    then show "receive_state a rx s' = (None, s')"
      using read by (auto simp: receive_state_def hmap_simps split: if_splits)
  qed
  moreover have "fst (receive_state a rx s') = Some (Inr state)"
    if "ts_ready (sy_sub y)" "contains_account SHARD_FULL (sb_shard block) a"
      "sb_accounts block a = Inr state"
      "handle_shard_block SHARD_FULL alive (Inr block) (sy_sub y) = (r, s')" for block alive r s' state
    by (rule block_feeds_readers [OF inv assms(2) that])
  ultimately show ?thesis by blast
qed

text \<open>A reader that waits for the state of an account never loses its channel: its subscription is
  in the map as long as it waits, even when every observer of the account is gone.\<close>

theorem waiter_never_dropped:
  assumes "ton_reachable SHARD_FULL with_prefix y" "(rx, a) \<in> set (sy_open y)"
  shows "\<exists>ss seen. hm_get (ts_state_subscriptions (sy_sub y)) a = Some ss \<and>
    hm_get (ss_receivers ss) rx = Some seen \<and>
    (\<forall>e. fst (receive_state a rx (sy_sub y)) \<noteq> Some (Inl e))"
proof -
  from ton_inv_openD [OF ton_inv_reachable [OF assms(1)] assms(2)] obtain ss seen where
    "hm_get (ts_state_subscriptions (sy_sub y)) a = Some ss" "hm_get (ss_receivers ss) rx = Some seen"
    by blast
  then show ?thesis by (auto simp: receive_state_def)
qed

definition undecided :: "('acc \<Rightarrow> account_state) \<Rightarrow> 'acc shard_account option result \<Rightarrow> bool" where
  "undecided state_of r \<longleftrightarrow>
     (r = Inr None \<or> (\<exists>sa. r = Inr (Some sa) \<and> (from_shard_account sa = Inr None \<or>
        (\<exists>c. from_shard_account sa = Inr (Some c) \<and> state_of (ec_account c) = AccountUninit))))"

lemma wait_contract_state_undecided:
  "undecided state_of r \<Longrightarrow> wait_contract_state state_of (r # rs) = wait_contract_state state_of rs"
  by (auto simp: undecided_def)

lemma wait_contract_state_decided:
  assumes "\<not> undecided state_of r"
  shows "wait_contract_state state_of (r # rs) = Some (and_then r (\<lambda>v. case v of
      None \<Rightarrow> Inl (TonSubscriberErr AccountIsFrozen)
    | Some sa \<Rightarrow> and_then (from_shard_account sa) (\<lambda>c. case c of
        None \<Rightarrow> Inl (TonSubscriberErr AccountIsFrozen)
      | Some c \<Rightarrow> if state_of (ec_account c) = AccountActive then Inr c
                  else Inl (TonSubscriberErr AccountIsFrozen))))"
proof (cases r)
  case (Inr v)
  then show ?thesis
    using assms
    by (cases v) (auto simp: undecided_def split: sum.splits option.splits account_state.splits)
qed simp

lemma wait_contract_state_Inr:
  "wait_contract_state state_of rs = Some (Inr c) \<longleftrightarrow>
     (\<exists>pre sa post. rs = pre @ Inr (Some sa) # post \<and> (\<forall>r\<in>set pre. undecided state_of r) \<and>
        from_shard_account sa = Inr (Some c) \<and> state_of (ec_account c) = AccountActive)"
proof (induction rs)
  case (Cons r rs)
  show ?case
  proof (cases "undecided state_of r")
    case True
    have "\<not> (\<exists>sa. r = Inr (Some sa) \<and> from_shard_account sa = Inr (Some c) \<and>
        state_of (ec_account c) = AccountActive)"
      using True by (auto simp: undecided_def)
    then show ?thesis
      unfolding wait_contract_state_undecided [OF True] Cons.IH
      using True by (auto simp: Cons_eq_append_conv) (metis list.set_intros(1) set_ConsD)+
  next
    case False
    have "wait_contract_state state_of (r # rs) = Some (Inr c) \<longleftrightarrow>
        (\<exists>sa. r = Inr (Some sa) \<and> from_shard_account sa = Inr (Some c) \<and>
          state_of (ec_account c) = AccountActive)"
      unfolding wait_contract_state_decided [OF False]
      by (auto simp: and_then_def split: sum.splits option.splits)
    also have "\<dots> \<longleftrightarrow> (\<exists>pre sa post. r # rs = pre @ Inr (Some sa) # post \<and>
        (\<forall>r\<in>set pre. undecided state_of r) \<and> from_shard_account sa = Inr (Some c) \<and>
        state_of (ec_account c) = AccountActive)" (is "_ \<longleftrightarrow> ?split")
    proof
      assume ?split
      then show "\<exists>sa. r = Inr (Some sa) \<and> from_shard_account sa = Inr (Some c) \<and>
          state_of (ec_account c) = AccountActive"
        using False by (auto simp: Cons_eq_append_conv)
    next
      assume "\<exists>sa. r = Inr (Some sa) \<and> from_shard_account sa = Inr (Some c) \<and>
          state_of (ec_account c) = AccountActive"
      then show ?split by (metis append_Nil empty_iff list.set(1))
    qed
    finally show ?thesis .
  qed
qed simp

text \<open>\<open>wait_contract_state\<close> returns the first active state among the values it reads: before it all
  are missing or uninitialised; it fails at the first frozen or unreadable one; and it waits
  exactly as long as nothing decides.\<close>

theorem wait_contract_state_iff:
  "(wait_contract_state state_of rs = Some (Inr c) \<longleftrightarrow>
     (\<exists>pre sa post. rs = pre @ Inr (Some sa) # post \<and> list_all (undecided state_of) pre \<and>
        from_shard_account sa = Inr (Some c) \<and> state_of (ec_account c) = AccountActive)) \<and>
   (wait_contract_state state_of rs = None \<longleftrightarrow> list_all (undecided state_of) rs)"
proof -
  have "wait_contract_state state_of rs = None \<longleftrightarrow> list_all (undecided state_of) rs"
  proof (induction rs)
    case (Cons r rs)
    then show ?case
      by (cases "undecided state_of r")
        (simp_all add: wait_contract_state_undecided wait_contract_state_decided
          del: wait_contract_state.simps(2-4))
  qed simp
  then show ?thesis using wait_contract_state_Inr by (simp add: list_all_iff)
qed

section \<open>Waiters for shards\<close>

lemma insert_shards_contains:
  "insert_shards with_prefix wc shards ids = Inr ids' \<Longrightarrow>
   hm_contains sid ids' \<longleftrightarrow> hm_contains sid ids \<or>
     (\<exists>(prefix, descr)\<in>set shards. with_prefix wc prefix = Inr sid)"
  by (induction with_prefix wc shards ids rule: insert_shards.induct)
    (auto simp: and_then_Inr_iff hmap_simps)

lemma insert_workchains_contains:
  "insert_workchains with_prefix workchains ids = Inr ids' \<Longrightarrow>
   hm_contains sid ids' \<longleftrightarrow> hm_contains sid ids \<or>
     (\<exists>(wc, shards)\<in>set workchains. wc \<noteq> MASTERCHAIN_ID \<and>
        (\<exists>(prefix, descr)\<in>set shards. with_prefix wc prefix = Inr sid))"
proof (induction workchains arbitrary: ids)
  case (Cons w workchains)
  obtain wc shards where w: "w = (wc, shards)" by (cases w)
  show ?case
  proof (cases "wc = MASTERCHAIN_ID")
    case True
    then show ?thesis using Cons by (simp add: w)
  next
    case False
    then obtain ids1 where ids1: "insert_shards with_prefix wc shards ids = Inr ids1"
      "insert_workchains with_prefix workchains ids1 = Inr ids'"
      using Cons.prems by (auto simp: w and_then_Inr_iff)
    show ?thesis
      unfolding Cons.IH [OF ids1(2)] insert_shards_contains [OF ids1(1)] using False by (simp add: w)
  qed
qed simp

text \<open>A caller of \<open>wait_shards\<close> is answered by the first masterchain block, handled while the
  subscriber is ready, that is not older than it asks for, and leaves with it; an older block leaves
  it waiting. The answer has the time of the block and a block for exactly its shards outside the
  masterchain.\<close>

theorem shards_answered:
  assumes "ts_ready s" "hm_wf (ts_mc_block_awaiters s)"
    "hm_get (ts_mc_block_awaiters s) i = Some \<lparr>ba_since = since, ba_tx = Some tx\<rparr>"
    "mb_custom block = Inr (Some workchains)" "extract_shards with_prefix block = Inr ls"
  shows "\<exists>s'. handle_masterchain_block with_prefix t (Inr block) s = (Inr (), s') \<and>
    ts_current_utime s' = t \<and>
    (if \<exists>u. since = Some u \<and> mb_gen_utime block < u
     then hm_get (ts_mc_block_awaiters s') i = Some \<lparr>ba_since = since, ba_tx = Some tx\<rparr>
     else hm_get (ts_mc_block_awaiters s') i = None \<and> (tx, Inr ls) \<in> set (ts_shards_answers s')) \<and>
    ls_current_utime ls = mb_gen_utime block \<and>
    (\<forall>sid. hm_contains sid (ls_block_ids ls) \<longleftrightarrow>
       (\<exists>wc shards prefix descr. (wc, shards) \<in> set workchains \<and> wc \<noteq> MASTERCHAIN_ID \<and>
          (prefix, descr) \<in> set shards \<and> with_prefix wc prefix = Inr sid))"
proof -
  obtain ids where ids: "insert_workchains with_prefix workchains [] = Inr ids"
    and ls: "ls = \<lparr>ls_current_utime = mb_gen_utime block, ls_block_ids = ids\<rparr>"
    using assms(4,5) by (auto simp: extract_shards_def and_then_Inr_iff)
  have shards: "hm_contains sid ids \<longleftrightarrow>
      (\<exists>wc shards prefix descr. (wc, shards) \<in> set workchains \<and> wc \<noteq> MASTERCHAIN_ID \<and>
          (prefix, descr) \<in> set shards \<and> with_prefix wc prefix = Inr sid)" for sid
    unfolding insert_workchains_contains [OF ids] by (fastforce simp: hmap_simps)
  let ?act = "awaiter_handle_block (Inr ls) (mb_gen_utime block)"
  let ?s' = "snd (handle_masterchain_block with_prefix t (Inr block) s)"
  have mem: "(i, \<lparr>ba_since = since, ba_tx = Some tx\<rparr>) \<in> set (ts_mc_block_awaiters s)"
    by (rule hm_get_in_set [OF assms(3)])
  have run: "handle_masterchain_block with_prefix t (Inr block) s = (Inr (), ?s')"
    and time: "ts_current_utime ?s' = t"
    and awaiters: "ts_mc_block_awaiters ?s' =
      hm_retain (\<lambda>_ a. fst (?act a) = Retain) (ts_mc_block_awaiters s)"
    and answers: "set (ts_shards_answers ?s') = set (ts_shards_answers s) \<union>
      (\<Union>(_, a)\<in>set (ts_mc_block_awaiters s). set (snd (?act a)))"
    using assms(1,5) by (auto simp: handle_masterchain_block_def Let_def)
  have "if \<exists>u. since = Some u \<and> mb_gen_utime block < u
     then hm_get (ts_mc_block_awaiters ?s') i = Some \<lparr>ba_since = since, ba_tx = Some tx\<rparr>
     else hm_get (ts_mc_block_awaiters ?s') i = None \<and> (tx, Inr ls) \<in> set (ts_shards_answers ?s')"
    using mem by (auto simp: awaiters answers hm_get_retain [OF assms(2)] assms(3)
        awaiter_handle_block_def split: option.splits intro!: bexI [OF _ mem])
  then show ?thesis using run time shards by (intro exI [of _ ?s']) (simp add: ls)
qed

section \<open>An example\<close>

text \<open>One shard; account 7 has one ordinary transaction with the external message 99; observer 3 is
  registered for it. Message 99 is pending on channel 0 until 10, the block's time is 50.\<close>

definition example_tx :: "unit block_transaction" where
  "example_tx = \<lparr>bt_hash = 1, bt_description = Inr (Ordinary False),
     bt_in_msg = Some (99, Inr \<lparr>msg_header = ExtInMsgInfo, msg_body = None\<rparr>), bt_out_msgs = []\<rparr>"

definition example_shard_account :: "nat shard_account" where
  "example_shard_account =
     \<lparr>read_account = Inr (Account 5), last_trans_lt = 0, last_trans_hash = 0\<rparr>"

definition example_block :: "(nat, unit) shard_block" where
  "example_block = \<lparr>sb_shard = \<lparr>workchain_id = 0, shard_prefix_with_tag = 0x8000000000000000,
     prefix_len = 0\<rparr>, sb_gen_utime = 50, sb_accounts = (\<lambda>_. Inr (Some example_shard_account)),
     sb_account_blocks = (\<lambda>a. Inr (if a = 7 then Some [Inr example_tx] else None))\<rparr>"

definition example_queue :: pending_messages_queue where
  "example_queue = snd (add_message 7 99 10 queue_new)"

definition example_subscriber :: "(nat, unit) ton_subscriber" where
  "example_subscriber = engine_status_changed True
     (add_transactions_subscription [7] 3 (ton_subscriber_new example_queue))"

lemma example_queue_facts:
  "queue_inv example_queue" "queue_pend example_queue 7 99 = Some (0, 10)"
proof -
  have new: "queue_pend queue_new 7 99 = None"
    by (simp add: queue_pend_def queue_abs_def queue_new_def)
  show "queue_inv example_queue"
    unfolding example_queue_def by (rule mq.invar_add [OF queue_inv_new])
  have q: "example_queue = \<lparr>min_expire_at = min u32_MAX 10,
      entries = [(\<lparr>pm_account = 7, pm_message_hash = 99\<rparr>, \<lparr>pm_tx = Some 0, pm_expire_at = 10\<rparr>)],
      entry_count = 1, next_channel = 1, sent = []\<rparr>"
    by (simp add: example_queue_def add_message_def queue_new_def Let_def)
  have "hm_get (entries example_queue) \<lparr>pm_account = 7, pm_message_hash = 99\<rparr> =
      Some \<lparr>pm_tx = Some 0, pm_expire_at = 10\<rparr>" unfolding q by simp
  then show "queue_pend example_queue 7 99 = Some (0, 10)"
    by (simp add: queue_pend_def queue_abs_def)
qed

lemma example_subscriber_fields [simp]:
  "ts_ready example_subscriber" "ts_messages_queue example_subscriber = example_queue"
  "ts_state_subscriptions example_subscriber = [(7, state_subscription_new [3])]"
  "ts_calls example_subscriber = []"
  by (simp_all add: example_subscriber_def engine_status_changed_def ton_subscriber_new_def
      add_transactions_subscription_def add_transactions_subscription1_def)

lemma example_contains: "contains_account 0x8000000000000000 (sb_shard example_block) a"
  by (simp add: contains_account_def example_block_def)

theorem shard_block_answers_messages_witness:
  "queue_stat (ts_messages_queue (snd (handle_shard_block 0x8000000000000000 (\<lambda>o'. o' = 3)
     (Inr example_block) example_subscriber))) 0 = Some Delivered \<and>
   queue_stat (ts_messages_queue (snd (handle_shard_block 0x8000000000000000 (\<lambda>o'. False)
     (Inr example_block) example_subscriber))) 0 = Some Expired"
  using shard_block_answers_messages [of example_subscriber 7 99 0 10 "0x8000000000000000"
      "\<lambda>o'. o' = 3" example_block]
    shard_block_answers_messages [of example_subscriber 7 99 0 10 "0x8000000000000000"
      "\<lambda>o'. False" example_block] example_queue_facts
  by (simp add: observed_def example_contains state_subscription_new_def)
    (simp add: account_transactions_def example_block_def example_tx_def)

theorem observers_see_transactions_witness:
  "\<exists>calls. ts_calls (snd (handle_shard_block 0x8000000000000000 (\<lambda>o'. o' = 3) (Inr example_block)
      example_subscriber)) = calls \<and>
    filter (\<lambda>call. ctx_account (snd call) = 7) calls = [(3, tx_context_of example_block 7 example_tx
      \<lparr>msg_header = ExtInMsgInfo, msg_body = None\<rparr>)]"
proof -
  have accepted: "accepted_transactions (account_transactions example_block 7) =
      [(example_tx, \<lparr>msg_header = ExtInMsgInfo, msg_body = None\<rparr>)]"
    by (simp add: accepted_transactions_def account_transactions_def example_block_def
        example_tx_def map_filter_simps)
  show ?thesis
    using observers_see_transactions [of example_subscriber 7 "state_subscription_new [3]"
        "0x8000000000000000" "\<lambda>o'. o' = 3" example_block]
    by (simp add: example_contains accepted) (simp add: state_subscription_new_def)
qed

text \<open>A reader of account 7 in a ready system, before and after the block.\<close>

definition example_system :: "bool \<Rightarrow> (nat, unit) ton_system" where
  "example_system blocked =
     (let s0 = engine_status_changed True (ton_subscriber_new example_queue);
          s1 = snd (subscribe_state 7 s0)
      in if blocked
         then \<lparr>sy_sub = snd (handle_shard_block 0x8000000000000000 (\<lambda>_. True) (Inr example_block) s1),
                sy_open = [(0, 7)],
                sy_latest = block_latest 0x8000000000000000 example_block (\<lambda>_. None), sy_read = []\<rparr>
         else \<lparr>sy_sub = s1, sy_open = [(0, 7)], sy_latest = (\<lambda>_. None), sy_read = []\<rparr>)"

definition example_with_prefix :: "32 word \<Rightarrow> u64 \<Rightarrow> shard_ident result" where
  "example_with_prefix wc prefix =
     Inr \<lparr>workchain_id = wc, shard_prefix_with_tag = prefix, prefix_len = 0\<rparr>"

lemma example_system_reachable:
  "ton_reachable 0x8000000000000000 example_with_prefix (example_system blocked)"
proof -
  let ?reach = "ton_reachable 0x8000000000000000 example_with_prefix"
  let ?y = "\<lambda>s opened. \<lparr>sy_sub = s, sy_open = opened, sy_latest = (\<lambda>_. None), sy_read = []\<rparr>"
  let ?s0 = "engine_status_changed True (ton_subscriber_new example_queue)"
  let ?s1 = "snd (subscribe_state 7 ?s0)"
  have "?reach (?y (ton_subscriber_new example_queue) [])" by (rule ton_init)
  from ton_next [OF this ton_status [of _ _ _ True]] have 0: "?reach (?y ?s0 [])" by simp
  have "subscribe_state 7 ?s0 = (0, ?s1)"
    by (simp add: subscribe_state_def engine_status_changed_def ton_subscriber_new_def Let_def)
  from ton_next [OF 0 ton_open] this have 1: "?reach (?y ?s1 [(0, 7)])" by force
  have ready: "ts_ready ?s1"
    by (simp add: subscribe_state_def engine_status_changed_def ton_subscriber_new_def Let_def)
  note block = ton_shard_block [OF surjective_pairing, where alive = "\<lambda>_. True"
      and block = example_block and y = "?y ?s1 [(0, 7)]" and with_prefix = example_with_prefix
      and SHARD_FULL = "0x8000000000000000"]
  have e: "(?y ?s1 [(0, 7)])\<lparr>sy_sub := snd (handle_shard_block 0x8000000000000000 (\<lambda>_. True)
      (Inr example_block) (sy_sub (?y ?s1 [(0, 7)]))), sy_latest :=
      (if ts_ready (sy_sub (?y ?s1 [(0, 7)]))
       then block_latest 0x8000000000000000 example_block (sy_latest (?y ?s1 [(0, 7)]))
       else sy_latest (?y ?s1 [(0, 7)]))\<rparr> = example_system True"
    by (simp add: ready example_system_def Let_def)
  have "?reach (example_system True)" using ton_next [OF 1 block] unfolding e .
  moreover have "?reach (example_system False)" using 1 by (simp add: example_system_def Let_def)
  ultimately show ?thesis by (cases blocked) simp_all
qed

lemma example_system_subscriptions:
  "ts_state_subscriptions (sy_sub (example_system True)) =
     [(7, \<lparr>ss_value = Some example_shard_account, ss_version = 1, ss_seen = 0,
            ss_receivers = [(0, 0)], ss_observers = []\<rparr>)]"
proof -
  let ?s = "snd (subscribe_state 7 (engine_status_changed True (ton_subscriber_new example_queue)))"
  let ?ss = "\<lparr>ss_value = None, ss_version = 0, ss_seen = 0, ss_receivers = [(0, 0)],
    ss_observers = []\<rparr>"
  have s: "ts_ready ?s" "ts_state_subscriptions ?s = [(7, ?ss)]"
    by (simp_all add: subscribe_state_def engine_status_changed_def ton_subscriber_new_def
        state_subscription_new_def Let_def)
  have "sb_accounts example_block 7 = Inr (Some example_shard_account)"
    by (simp add: example_block_def)
  then have "kept_subscription 0x8000000000000000 (\<lambda>_. True) example_block 7 ?ss =
      Some (?ss\<lparr>ss_value := Some example_shard_account, ss_version := 1\<rparr>)"
    by (simp add: kept_subscription_def fst_subscription_block example_contains watch_send_def)
  then show ?thesis
    using handle_shard_block_subscriptions(3) [OF surjective_pairing, of "0x8000000000000000"
        "\<lambda>_. True" example_block ?s]
    by (simp add: example_system_def Let_def s map_filter_simps)
qed

lemma example_system_reads:
  "fst (receive_state 7 0 (sy_sub (example_system True))) = Some (Inr (Some example_shard_account))"
  by (simp add: receive_state_def example_system_subscriptions)

theorem contract_state_is_latest_witness:
  "\<exists>state. fst (receive_state 7 0 (sy_sub (example_system True))) = Some (Inr state) \<and>
     sy_latest (example_system True) 7 = Some state"
proof -
  have op: "(0, 7) \<in> set (sy_open (example_system True))" by (simp add: example_system_def Let_def)
  obtain s' where read: "receive_state 7 0 (sy_sub (example_system True)) =
      (Some (Inr (Some example_shard_account)), s')"
    using example_system_reads by (metis prod.collapse)
  from contract_state_is_latest [OF example_system_reachable op] show ?thesis
    using read by (auto simp: read)
qed

theorem waiter_never_dropped_witness:
  "\<exists>ss. hm_get (ts_state_subscriptions (sy_sub (example_system False))) 7 = Some ss \<and>
     fst (receive_state 7 0 (sy_sub (example_system False))) = None"
proof -
  have "(0, 7) \<in> set (sy_open (example_system False))" by (simp add: example_system_def Let_def)
  from waiter_never_dropped [OF example_system_reachable this] show ?thesis
    by (auto simp: example_system_def Let_def subscribe_state_def engine_status_changed_def
        ton_subscriber_new_def state_subscription_new_def receive_state_def)
qed

text \<open>A block of the time 50 with the shards of workchain 0 answers a wait since 40, not one since 60.\<close>

theorem shards_answered_witness:
  "\<exists>s'. handle_masterchain_block example_with_prefix 50
     (Inr \<lparr>mb_gen_utime = 50, mb_custom = Inr (Some [(MASTERCHAIN_ID, [(1, 1)]), (0, [(2, 8)])])\<rparr>)
     (snd (wait_shards (Some 40) example_subscriber)) = (Inr (), s') \<and>
   hm_get (ts_mc_block_awaiters s') 0 = None \<and>
   (0, Inr \<lparr>ls_current_utime = 50, ls_block_ids = [(\<lparr>workchain_id = 0, shard_prefix_with_tag = 2,
      prefix_len = 0\<rparr>, 8)]\<rparr>) \<in> set (ts_shards_answers s')"
proof -
  let ?block = "\<lparr>mb_gen_utime = 50,
    mb_custom = Inr (Some [(MASTERCHAIN_ID, [(1::u64, 1)]), (0, [(2, 8)])])\<rparr>"
  let ?s = "snd (wait_shards (Some 40) example_subscriber)"
  have s: "ts_ready ?s" "ts_mc_block_awaiters ?s = [(0, \<lparr>ba_since = Some 40, ba_tx = Some 0\<rparr>)]"
    by (simp_all add: wait_shards_def Let_def example_subscriber_def engine_status_changed_def
        ton_subscriber_new_def add_transactions_subscription_def)
  have ls: "extract_shards example_with_prefix ?block = Inr \<lparr>ls_current_utime = 50,
      ls_block_ids = [(\<lparr>workchain_id = 0, shard_prefix_with_tag = 2, prefix_len = 0\<rparr>, 8)]\<rparr>"
    by (simp add: extract_shards_def example_with_prefix_def MASTERCHAIN_ID_def)
  have "hm_wf (ts_mc_block_awaiters ?s)" by (simp add: s)
  from shards_answered [OF s(1) this _ _ ls, of 0 "Some 40" 0 _ 50] show ?thesis
    by (auto simp: s)
qed

end
