(* ===== verification/Wait_Sync.thy ===== *)
theory Wait_Sync
  imports Prelude
begin

text \<open>
  \<open>TonSubscriber::wait_sync\<close> against \<open>engine_status_changed\<close> (\<open>engine/ton_subscriber/mod.rs\<close>): the
  caller of \<open>start\<close> loads the flag and, if it is not set, registers with the \<open>Notify\<close> and waits; the
  node's thread stores the flag and then wakes those who are registered. \<open>notify_waiters\<close> wakes
  only registered waiters and leaves no permit behind.
\<close>

datatype sync_phase =
    SyncCalled
  | SyncNotReady \<comment> \<open>the load returned false\<close>
  | SyncRegistered
  | SyncReturned

record sync_state =
  sy_ready :: bool
  sy_phase :: sync_phase

definition sync_start :: sync_state where
  "sync_start = \<lparr>sy_ready = False, sy_phase = SyncCalled\<rparr>"

text \<open>One step of \<open>wait_sync\<close>, and the two steps of a change to \<open>Synced\<close>.\<close>

definition wait_sync_step :: "sync_state \<Rightarrow> sync_state" where
  "wait_sync_step s =
     (case sy_phase s of
        SyncCalled \<Rightarrow> s\<lparr>sy_phase := if sy_ready s then SyncReturned else SyncNotReady\<rparr>
      | SyncNotReady \<Rightarrow> s\<lparr>sy_phase := SyncRegistered\<rparr>
      | SyncRegistered \<Rightarrow> s
      | SyncReturned \<Rightarrow> s)"

definition status_store :: "sync_state \<Rightarrow> sync_state" where
  "status_store s = s\<lparr>sy_ready := True\<rparr>"

definition status_notify :: "sync_state \<Rightarrow> sync_state" where
  "status_notify s = (if sy_phase s = SyncRegistered then s\<lparr>sy_phase := SyncReturned\<rparr> else s)"

text \<open>Every interleaving of the waiter with one change of the status: \<open>a\<close> steps before the store,
  \<open>b\<close> between store and notification, \<open>c\<close> after.\<close>

definition sync_run :: "nat \<Rightarrow> nat \<Rightarrow> nat \<Rightarrow> sync_state" where
  "sync_run a b c = (wait_sync_step ^^ c) (status_notify ((wait_sync_step ^^ b)
     (status_store ((wait_sync_step ^^ a) sync_start))))"

section \<open>Facts\<close>

lemma wait_sync_final:
  "sy_phase s \<in> {SyncRegistered, SyncReturned} \<Longrightarrow> (wait_sync_step ^^ n) s = s"
  by (induction n) (auto simp: wait_sync_step_def)

lemma wait_sync_steps:
  "(wait_sync_step ^^ n) \<lparr>sy_ready = r, sy_phase = SyncNotReady\<rparr> =
     \<lparr>sy_ready = r, sy_phase = if n = 0 then SyncNotReady else SyncRegistered\<rparr>"
proof (cases n)
  case (Suc m)
  then have "(wait_sync_step ^^ n) \<lparr>sy_ready = r, sy_phase = SyncNotReady\<rparr> =
      (wait_sync_step ^^ m) \<lparr>sy_ready = r, sy_phase = SyncRegistered\<rparr>"
    by (simp add: funpow_Suc_right wait_sync_step_def del: funpow.simps)
  then show ?thesis using Suc by (simp add: wait_sync_final)
qed simp

lemma wait_sync_called:
  "(wait_sync_step ^^ n) \<lparr>sy_ready = r, sy_phase = SyncCalled\<rparr> =
     \<lparr>sy_ready = r, sy_phase =
        if n = 0 then SyncCalled else if r then SyncReturned
        else if n = 1 then SyncNotReady else SyncRegistered\<rparr>"
proof (cases n)
  case (Suc m)
  then have "(wait_sync_step ^^ n) \<lparr>sy_ready = r, sy_phase = SyncCalled\<rparr> =
      (wait_sync_step ^^ m) \<lparr>sy_ready = r, sy_phase = if r then SyncReturned else SyncNotReady\<rparr>"
    by (simp add: funpow_Suc_right wait_sync_step_def del: funpow.simps)
  then show ?thesis using Suc by (simp add: wait_sync_final wait_sync_steps)
qed simp

section \<open>Property\<close>

text \<open>C33: Whether the start of the subscriber gets past \<open>wait_sync\<close> once the node is synced: it does in
  every interleaving but one; when the store and the notification both fall between the load of the
  flag and the registration, the wakeup is lost and the start never goes on although the flag is set.\<close>

theorem wait_sync_returns_iff:
  "(sy_phase (sync_run a b (Suc c)) = SyncReturned \<longleftrightarrow> \<not> (a = 1 \<and> b = 0)) \<and>
   sy_ready (sync_run a b (Suc c)) \<and>
   ((wait_sync_step ^^ n) (sync_run 1 0 2) = sync_run 1 0 2 \<and> sy_phase (sync_run 1 0 2) = SyncRegistered)"
proof -
  have hang: "sync_run 1 0 2 = \<lparr>sy_ready = True, sy_phase = SyncRegistered\<rparr>"
    by (simp add: sync_run_def sync_start_def status_store_def status_notify_def wait_sync_step_def
        numeral_2_eq_2)
  have "sync_run a b (Suc c) = \<lparr>sy_ready = True, sy_phase =
      if a = 1 \<and> b = 0 then SyncRegistered else SyncReturned\<rparr>"
    by (simp add: sync_run_def sync_start_def status_store_def status_notify_def wait_sync_called
        wait_sync_steps wait_sync_final del: funpow.simps)
  then show ?thesis by (simp add: hang wait_sync_final del: One_nat_def)
qed

end
