(* ===== verification/Engine.thy ===== *)
theory Engine
  imports Shard_Utils Ton_Contracts Ton_Subscriber
begin

text \<open>
  \<open>engine/mod.rs\<close>: the construction of the context, the start of the engine and the download of all
  shard accounts. (The delivery of messages is in \<open>Delivery\<close>, the metrics are in \<open>Metrics_Format\<close>.)
  The components are started by calls whose outcomes are parameters; what is modelled is the order of
  the calls, what each error leaves behind and the data that flows from one to the next.
\<close>

section \<open>The context\<close>

text \<open>\<open>EngineContext::new\<close>: the fallible constructors in order. The queue of messages and the TON
  subscriber, which gets that queue, cannot fail.\<close>

record ('keys, 'node, 'evm) context_calls =
  cc_keystore_new :: "'keys result"
  cc_build_indexer_config :: "unit result"
  cc_ton_engine_new :: "'node result"
  cc_eth_registry_new :: "'evm result"

record ('keys, 'node, 'evm, 'acc, 'body) engine_context =
  ctx_staker_account :: uint256
  ctx_keystore :: 'keys
  ctx_ton_engine :: 'node
  ctx_eth_subscribers :: 'evm
  ctx_ton_subscriber :: "('acc, 'body) ton_subscriber" \<comment> \<open>holds the queue of messages\<close>

definition engine_context_new ::
  "('keys, 'node, 'evm) context_calls \<Rightarrow> uint256 \<Rightarrow>
   ('keys, 'node, 'evm, 'acc, 'body) engine_context result" where
  "engine_context_new calls staker_account =
     and_then (context_res ''Failed to create keystore'' (cc_keystore_new calls)) (\<lambda>keystore.
     and_then (context_res ''Failed to build node config'' (cc_build_indexer_config calls)) (\<lambda>_.
     and_then (context_res ''Failed to start TON node'' (cc_ton_engine_new calls)) (\<lambda>ton_engine.
     and_then (context_res ''Failed to create EVM networks registry'' (cc_eth_registry_new calls))
       (\<lambda>eth_subscribers.
     Inr \<lparr>ctx_staker_account = staker_account, ctx_keystore = keystore, ctx_ton_engine = ton_engine,
          ctx_eth_subscribers = eth_subscribers,
          ctx_ton_subscriber = ton_subscriber_new queue_new\<rparr>))))"

section \<open>The start\<close>

datatype engine_effect =
    StartMetricsExporter
  | StartNode
  | StartTonSubscriber
  | GetBridgeState uint256
  | NewBridge uint256
  | NewStaking uint256
  | StartEthSubscribers

record ('br, 'st) engine =
  en_bridge :: "'br option"
  en_staking :: "'st option"

record ('acc, 'br, 'st) engine_calls =
  call_node_start :: "unit result"
  call_subscriber_start :: "unit result"
  call_receive_state :: "uint256 \<Rightarrow> 'acc shard_account option result"
  call_new_bridge :: "uint256 \<Rightarrow> 'br result"
  call_new_staking :: "uint256 \<Rightarrow> 'st result"

text \<open>The contract of the bridge, or \<open>BridgeAccountNotFound\<close>.\<close>

definition bridge_contract_of ::
  "('acc, 'br, 'st) engine_calls \<Rightarrow> uint256 \<Rightarrow> 'acc existing_contract result" where
  "bridge_contract_of calls bridge_account =
     and_then (get_contract_state (call_receive_state calls bridge_account)) (\<lambda>contract.
     case contract of Some contract \<Rightarrow> Inr contract
     | None \<Rightarrow> Inl (EngineErr EngineBridgeAccountNotFound))"

definition engine_start_components ::
  "('acc, 'br, 'st) engine_calls \<Rightarrow> uint256 \<Rightarrow> uint256 \<Rightarrow> ('br, 'st) engine \<Rightarrow>
   unit result \<times> ('br, 'st) engine \<times> engine_effect list" where
  "engine_start_components calls bridge_account staking_account en =
     (case context_res ''Failed to init bridge'' (call_new_bridge calls bridge_account) of
        Inl e \<Rightarrow> (Inl e, en, [NewBridge bridge_account])
      | Inr bridge \<Rightarrow>
          (let en = en\<lparr>en_bridge := Some bridge\<rparr>
           in case context_res ''Failed to init staking'' (call_new_staking calls staking_account) of
                Inl e \<Rightarrow> (Inl e, en, [NewBridge bridge_account, NewStaking staking_account])
              | Inr staking \<Rightarrow> (Inr (), en\<lparr>en_staking := Some staking\<rparr>,
                  [NewBridge bridge_account, NewStaking staking_account, StartEthSubscribers])))"

definition engine_start ::
  "('acc, 'tok, 'cell) ton_lib \<Rightarrow> ('acc, 'br, 'st) engine_calls \<Rightarrow> uint256 \<Rightarrow> ('br, 'st) engine \<Rightarrow>
   unit result \<times> ('br, 'st) engine \<times> engine_effect list" where
  "engine_start lib calls bridge_account en =
     (case call_node_start calls of
        Inl e \<Rightarrow> (Inl e, en, [StartMetricsExporter, StartNode])
      | Inr _ \<Rightarrow>
     (case call_subscriber_start calls of
        Inl e \<Rightarrow> (Inl e, en, [StartMetricsExporter, StartNode, StartTonSubscriber])
      | Inr _ \<Rightarrow>
     (let effects = [StartMetricsExporter, StartNode, StartTonSubscriber, GetBridgeState bridge_account]
      in case and_then (bridge_contract_of calls bridge_account) (\<lambda>contract.
                context_res ''Failed to get bridge details'' (bridge_get_details lib contract)) of
           Inl e \<Rightarrow> (Inl e, en, effects)
         | Inr bridge_details \<Rightarrow>
             (case engine_start_components calls bridge_account (bd_staking bridge_details) en of
                (result, en, more_effects) \<Rightarrow> (result, en, effects @ more_effects)))))"

section \<open>All shard accounts\<close>

fun read_shard_accounts ::
  "(uint256 \<Rightarrow> 'state result) \<Rightarrow> ('state \<Rightarrow> 'acc shard_accounts result) \<Rightarrow>
   (shard_ident \<times> uint256) list \<Rightarrow> 'acc shard_accounts_map \<Rightarrow> 'acc shard_accounts_map result" where
  "read_shard_accounts wait_state read_accounts [] shard_accounts = Inr shard_accounts"
| "read_shard_accounts wait_state read_accounts ((shard_ident, block_id) # shard_blocks) shard_accounts =
     and_then (wait_state block_id) (\<lambda>shard.
     and_then (read_accounts shard) (\<lambda>accounts.
     read_shard_accounts wait_state read_accounts shard_blocks
       (hm_insert shard_ident accounts shard_accounts)))"

definition get_all_shard_accounts ::
  "(uint256 \<Rightarrow> 'state result) \<Rightarrow> ('state \<Rightarrow> 'acc shard_accounts result) \<Rightarrow> latest_shard_blocks result \<Rightarrow>
   'acc shard_accounts_map result" where
  "get_all_shard_accounts wait_state read_accounts awaited =
     and_then awaited (\<lambda>latest.
     read_shard_accounts wait_state read_accounts (ls_block_ids latest) [])"

section \<open>Facts\<close>

text \<open>Each shard gets the accounts that its own block's state holds.\<close>

definition block_accounts ::
  "(uint256 \<Rightarrow> 'state result) \<Rightarrow> ('state \<Rightarrow> 'acc shard_accounts result) \<Rightarrow> uint256 \<Rightarrow>
   'acc shard_accounts result" where
  "block_accounts wait_state read_accounts block_id = and_then (wait_state block_id) read_accounts"

lemma read_shard_accounts_Cons:
  "read_shard_accounts ws ra ((s, b) # bs) m =
     and_then (block_accounts ws ra b) (\<lambda>a. read_shard_accounts ws ra bs (hm_insert s a m))"
  by (simp add: block_accounts_def and_then_def split: sum.split)

declare read_shard_accounts.simps(2) [simp del] read_shard_accounts_Cons [simp]

definition block_entry ::
  "(uint256 \<Rightarrow> 'state result) \<Rightarrow> ('state \<Rightarrow> 'acc shard_accounts result) \<Rightarrow>
   shard_ident \<times> 'acc shard_accounts \<Rightarrow> shard_ident \<times> uint256 \<Rightarrow> bool" where
  "block_entry ws ra e b \<longleftrightarrow> fst e = fst b \<and> block_accounts ws ra (snd b) = Inr (snd e)"

lemma read_shard_accounts_Inr:
  assumes "read_shard_accounts ws ra bs m = Inr m'" "distinct (map fst m @ map fst bs)"
  shows "\<exists>es. m' = m @ es \<and> list_all2 (block_entry ws ra) es bs"
  using assms
proof (induction bs arbitrary: m)
  case (Cons x bs)
  obtain s b where x: "x = (s, b)" by (cases x)
  with Cons.prems(1) obtain a where a: "block_accounts ws ra b = Inr a"
    and rec: "read_shard_accounts ws ra bs (hm_insert s a m) = Inr m'"
    by (auto simp: and_then_Inr_iff)
  have new: "hm_insert s a m = m @ [(s, a)]"
    using Cons.prems(2) by (intro hm_insert_new) (simp add: x map_of_eq_None_iff)
  have "distinct (map fst (hm_insert s a m) @ map fst bs)"
    using Cons.prems(2) by (simp add: new x)
  from Cons.IH [OF rec this] obtain es where
    "m' = (m @ [(s, a)]) @ es" "list_all2 (block_entry ws ra) es bs"
    unfolding new by blast
  then show ?case
    using a x by (intro exI [of _ "(s, a) # es"]) (simp add: block_entry_def [of _ _ "(s, a)"])
qed simp

section \<open>Properties\<close>

text \<open>C27: A view of all shards is faithful: it has exactly the shards of the awaited masterchain block,
  and looking up an account in it looks into the state of the one block whose shard contains the
  account.\<close>

theorem all_shard_accounts_lookup:
  assumes "get_all_shard_accounts wait_state read_accounts (Inr latest) = Inr view"
    and "hm_wf (ls_block_ids latest)" "list_all (wf_shard f) (map fst (ls_block_ids latest))"
    and "shards_disjoint (map fst (ls_block_ids latest))"
    and "(shard, block) \<in> set (ls_block_ids latest)" "contains_account f shard account"
  shows "map fst view = map fst (ls_block_ids latest) \<and>
    (\<exists>accounts. block_accounts wait_state read_accounts block = Inr accounts \<and>
       find_account f view account = shard_find_account accounts account)"
proof -
  let ?bs = "ls_block_ids latest"
  let ?E = "block_entry wait_state read_accounts"
  have all: "list_all2 ?E view ?bs"
    using read_shard_accounts_Inr [of wait_state read_accounts ?bs "[]" view] assms(1,2)
    by (auto simp: get_all_shard_accounts_def)
  then have keys: "map fst view = map fst ?bs"
    by (induction rule: list_all2_induct) (auto simp: block_entry_def)
  obtain accounts where accounts: "(shard, accounts) \<in> set view"
    "block_accounts wait_state read_accounts block = Inr accounts"
    using all assms(5) by (induction rule: list_all2_induct) (auto simp: block_entry_def)
  have unique: "x = y" if "x \<in> set view" "y \<in> set view"
    "case x of (s, _) \<Rightarrow> contains_account f s account" "case y of (s, _) \<Rightarrow> contains_account f s account" for x y
    using shards_entry_unique [of view f x y account] that assms(2,3,4)
    by (auto simp: keys list_all_iff simp flip: set_map split: prod.splits)
  have "List.find (\<lambda>(s, _). contains_account f s account) view = Some (shard, accounts)"
    using find_Some_iff_unique [OF unique] accounts(1) assms(6) by auto
  then show ?thesis using keys accounts(2) by (simp add: find_account_def)
qed


theorem all_shard_accounts_lookup_witness:
  "\<exists>view accounts. get_all_shard_accounts (\<lambda>b. Inr b)
     (\<lambda>b. Inr (\<lambda>a. if b = 7 then Inr (Some \<lparr>read_account = Inr (Account a), last_trans_lt = 1,
        last_trans_hash = 2\<rparr>) else Inr None))
     (Inr \<lparr>ls_current_utime = 0, ls_block_ids = [(\<lparr>workchain_id = 0,
        shard_prefix_with_tag = 0x8000000000000000, prefix_len = 0\<rparr>, 7)]\<rparr>) = Inr view \<and>
   find_account 0x8000000000000000 view 5 = shard_find_account accounts 5 \<and>
   accounts 5 = Inr (Some \<lparr>read_account = Inr (Account (5 :: uint256)), last_trans_lt = 1, last_trans_hash = 2\<rparr>)"
proof -
  let ?shard = "\<lparr>workchain_id = 0, shard_prefix_with_tag = 0x8000000000000000, prefix_len = 0\<rparr>"
  let ?latest = "\<lparr>ls_current_utime = 0, ls_block_ids = [(?shard, 7)]\<rparr>"
  let ?ra = "\<lambda>b. Inr (\<lambda>a. if b = 7 then Inr (Some \<lparr>read_account = Inr (Account a), last_trans_lt = 1,
      last_trans_hash = 2\<rparr>) else Inr None)"
  obtain view where view: "get_all_shard_accounts Inr ?ra (Inr ?latest) = Inr view"
    by (simp add: get_all_shard_accounts_def block_accounts_def)
  have wf: "wf_shard 0x8000000000000000 ?shard"
    by (simp add: wf_shard_def)
  show ?thesis
    using all_shard_accounts_lookup [OF view, of "0x8000000000000000" ?shard 7 5] wf view
    by (auto simp: shards_disjoint_def contains_account_def block_accounts_def)
qed

text \<open>C28: The engine starts in one order and never half: it succeeds exactly when the node, the
  subscriber, the bridge's account, its details and both components succeed; staking is built from the
  account that the bridge's details name and only after the bridge is installed; the EVM subscribers
  start only when everything else runs, and an error leaves exactly what was installed before it.\<close>

theorem engine_start_exact:
  "(case engine_start lib calls bridge_account \<lparr>en_bridge = None, en_staking = None\<rparr> of
     (result, en, effects) \<Rightarrow>
       (result = Inr () \<longleftrightarrow>
          call_node_start calls = Inr () \<and> call_subscriber_start calls = Inr () \<and>
          (\<exists>contract details bridge staking.
             get_contract_state (call_receive_state calls bridge_account) = Inr (Some contract) \<and>
             bridge_get_details lib contract = Inr details \<and>
             call_new_bridge calls bridge_account = Inr bridge \<and>
             call_new_staking calls (bd_staking details) = Inr staking \<and>
             en = \<lparr>en_bridge = Some bridge, en_staking = Some staking\<rparr>)) \<and>
       (StartEthSubscribers \<in> set effects \<longleftrightarrow> result = Inr ()) \<and>
       (en_staking en = None \<longleftrightarrow> result \<noteq> Inr ()) \<and>
       (en_bridge en = None \<longleftrightarrow> (\<forall>staking. NewStaking staking \<notin> set effects)) \<and>
       (\<exists>staking rest. effects @ rest =
          [StartMetricsExporter, StartNode, StartTonSubscriber, GetBridgeState bridge_account,
           NewBridge bridge_account, NewStaking staking, StartEthSubscribers]))"
proof -
  let ?order = "[StartMetricsExporter, StartNode, StartTonSubscriber, GetBridgeState bridge_account]"
  show ?thesis
  proof (cases "call_node_start calls")
    case (Inl e)
    then show ?thesis by (simp add: engine_start_def)
  next
    case node: (Inr u)
    show ?thesis
    proof (cases "call_subscriber_start calls")
      case (Inl e)
      then show ?thesis by (simp add: engine_start_def node)
    next
      case sub: (Inr u')
      show ?thesis
      proof (cases "and_then (bridge_contract_of calls bridge_account) (\<lambda>contract.
          context_res ''Failed to get bridge details'' (bridge_get_details lib contract))")
        case (Inl e)
        then show ?thesis
          by (auto simp: engine_start_def node sub bridge_contract_of_def and_then_Inr_iff)
      next
        case det: (Inr details)
        then obtain contract where c:
          "get_contract_state (call_receive_state calls bridge_account) = Inr (Some contract)"
          "bridge_get_details lib contract = Inr details"
          by (auto simp: bridge_contract_of_def and_then_Inr_iff split: option.splits)
        show ?thesis
          unfolding engine_start_def node sub det
          by (cases "call_new_bridge calls bridge_account";
              cases "call_new_staking calls (bd_staking details)")
            (auto simp: engine_start_components_def c)
      qed
    qed
  qed
qed

end
