(* ===== verification/Retry.thy ===== *)
theory Retry
  imports Fixed_Retry Complex_Main
begin

text \<open>
  \<open>utils/retry.rs\<close>: how many times a request is repeated, with the configurations of \<open>Fixed_Retry\<close>. The \<open>f64\<close> arithmetic of
  \<open>calculate_times_from_max_delay\<close> is over the reals here, without rounding; the cast \<open>as u32\<close>
  saturates. The delay that \<open>tryhard\<close> puts before each retry is a function the properties quantify over.
\<close>

definition saturating_u32 :: "int \<Rightarrow> nat" where
  "saturating_u32 x = (if x < 0 then 0 else if x > 2 ^ 32 - 1 then 2 ^ 32 - 1 else nat x)"

definition calculate_times_from_max_delay :: "real \<Rightarrow> real \<Rightarrow> real \<Rightarrow> real \<Rightarrow> nat" where
  "calculate_times_from_max_delay start_delay fraction maximum_delay total_retry_time =
     (let saturation_steps = real_of_int
            \<lfloor>log 10 ((maximum_delay - start_delay) / start_delay) / log 10 fraction\<rfloor>;
          time_to_saturate = start_delay * (1 - fraction powr saturation_steps) / (1 - fraction);
          remaining_time = total_retry_time - time_to_saturate;
          steps = remaining_time / maximum_delay
      in saturating_u32 \<lceil>steps + saturation_steps\<rceil>)"

definition generate_default_timeout_config :: "nat \<Rightarrow> retry_config" where
  "generate_default_timeout_config total_time =
     \<lparr>rc_max_retries = calculate_times_from_max_delay 1 2 600 (real total_time),
      rc_backoff = ExponentialBackoff 1 (Some 600)\<rparr>"

section \<open>Facts\<close>

lemma log_ratio: "1 < b \<Longrightarrow> 0 < x \<Longrightarrow> log 10 x / log 10 b = log b x"
  by (simp add: log_def)

text \<open>The backoff saturates after nine steps.\<close>

lemma saturation_steps: "\<lfloor>log 10 ((600 - 1) / 1) / log 10 (2::real)\<rfloor> = 9"
proof -
  have "log 10 ((600 - 1) / 1) / log 10 (2::real) = log 2 599" by (simp add: log_def)
  moreover have "9 \<le> log 2 (599::real)" by (simp add: le_log_iff powr_numeral)
  moreover have "log 2 (599::real) < 10" by (simp add: log_less_iff powr_numeral)
  ultimately show ?thesis by (simp add: floor_eq_iff)
qed

lemma default_times:
  "rc_max_retries (generate_default_timeout_config t) =
     saturating_u32 (9 + \<lceil>(real t - 511) / 600\<rceil>)"
proof -
  have "(1::real) * (1 - 2 powr 9) / (1 - 2) = 511" by (simp add: powr_numeral)
  moreover have "\<lceil>(real t - 511) / 600 + 9\<rceil> = 9 + \<lceil>(real t - 511) / 600\<rceil>"
    by (metis add.commute ceiling_add_of_int of_int_numeral)
  ultimately show ?thesis
    unfolding generate_default_timeout_config_def calculate_times_from_max_delay_def
      saturation_steps by (simp add: add.commute)
qed

lemma default_times_nat:
  assumes "t < 2 ^ 32"
  shows "rc_max_retries (generate_default_timeout_config t) = 9 + (t + 88) div 600"
proof -
  let ?x = "(real t - 511) / 600"
  let ?n = "(t + 88) div 600"
  have "t + 88 = 600 * ?n + (t + 88) mod 600" by simp
  moreover have "(t + 88) mod 600 < 600" by simp
  ultimately have n: "600 * ?n \<le> t + 88" "t + 88 < 600 * ?n + 600" by linarith+
  then have "600 * real ?n \<le> real t + 88" "real t + 88 < 600 * real ?n + 600" by linarith+
  then have "real_of_int (int ?n) - 1 < ?x" "?x \<le> real_of_int (int ?n)"
    by (simp_all add: field_simps)
  then have ceil: "\<lceil>?x\<rceil> = int ?n" by (simp add: ceiling_eq_iff)
  have "9 + ?n < 2 ^ 32" using n(1) assms by simp
  then have "int (9 + ?n) \<le> 2 ^ 32 - 1" by simp
  then show ?thesis
    unfolding default_times ceil saturating_u32_def
    by (simp add: nat_add_distrib)
qed

lemma backoff_sum:
  "(\<Sum>k<9 + n. min (2 ^ k) 600) = (511::nat) + (if n = 0 then 0 else 600 * n - 88)"
proof (induction n)
  case 0
  show ?case by (simp add: eval_nat_numeral)
next
  case (Suc n)
  have "min (2 ^ (9 + n)) 600 = (if n = 0 then 512 else 600::nat)"
  proof (cases n)
    case (Suc m)
    have "(2::nat) ^ (10 + m) \<ge> 2 ^ 10" by (rule power_increasing) simp_all
    then have "(2::nat) ^ (9 + n) \<ge> 1024" using Suc by simp
    then show ?thesis using Suc by simp
  qed simp
  moreover have "(\<Sum>k<9 + Suc n. min (2 ^ k) 600) = (\<Sum>k<9 + n. min (2 ^ k) (600::nat)) + min (2 ^ (9 + n)) 600"
    by (simp only: add_Suc_right sum.lessThan_Suc)
  ultimately show ?case using Suc by (cases n) (simp_all only:, simp_all)
qed

section \<open>Properties\<close>

text \<open>C39: With the delays of an exponential backoff that starts at one second and is cut at 600, the
  retries of the default configuration sleep together about as long as they are asked to, from 88
  seconds less to 511 more; but never less than 511 seconds, however short the time they are asked
  to fill (60 seconds for the balance request of the address verification).\<close>

theorem default_retries_fill_time:
  assumes "\<forall>k. delay k = min (2 ^ k) (600::nat)" "total_time < 2 ^ 32"
  shows "rc_backoff (generate_default_timeout_config total_time) = ExponentialBackoff 1 (Some 600) \<and>
    (let slept = (\<Sum>k<rc_max_retries (generate_default_timeout_config total_time). delay k)
     in if total_time \<le> 511 then slept = 511
        else total_time \<le> slept + 88 \<and> slept < total_time + 512)"
proof -
  let ?n = "(total_time + 88) div 600"
  have slept: "(\<Sum>k<rc_max_retries (generate_default_timeout_config total_time). delay k) =
      511 + (if ?n = 0 then 0 else 600 * ?n - 88)"
    unfolding default_times_nat [OF assms(2)] using assms(1) backoff_sum by simp
  have config: "rc_backoff (generate_default_timeout_config total_time) = ExponentialBackoff 1 (Some 600)"
    by (simp add: generate_default_timeout_config_def)
  have n: "total_time + 88 = 600 * ?n + (total_time + 88) mod 600" "(total_time + 88) mod 600 < 600"
    by simp_all
  show ?thesis
  proof (cases "total_time \<le> 511")
    case True
    then have "?n = 0" by simp
    then show ?thesis using True by (simp add: slept config)
  next
    case False
    define q where "q = ?n"
    have q: "600 * q \<le> total_time + 88" "total_time < 600 * q + 512"
      using n unfolding q_def by linarith+
    then have "q \<noteq> 0" using False by simp
    then have "511 + (if ?n = 0 then 0 else 600 * ?n - 88) + 88 = 511 + 600 * q"
      unfolding q_def [symmetric] by simp
    then show ?thesis
      using False q unfolding slept config Let_def q_def [symmetric] by simp
  qed
qed

theorem default_retries_fill_time_witness:
  "(\<Sum>k<rc_max_retries (generate_default_timeout_config 60). min (2 ^ k) 600) = (511::nat)"
  using default_retries_fill_time [of "\<lambda>k. min (2 ^ k) 600" 60] by simp

text \<open>The fixed configuration fills the time from below with less than one sleep to spare, and it
  panics exactly when the sleep is zero or the number of retries does not fit 32 bits.\<close>

theorem fixed_retries_fill_time:
  "(case generate_fixed_timeout_config sleep_time total_time of
      Some config \<Rightarrow> rc_backoff config = FixedBackoff (unat sleep_time) \<and>
        rc_max_retries config * unat sleep_time \<le> unat total_time \<and>
        unat total_time < (rc_max_retries config + 1) * unat sleep_time
    | None \<Rightarrow> sleep_time = 0 \<or> unat total_time div unat sleep_time \<ge> 2 ^ 32)"
proof (cases "sleep_time = 0")
  case False
  then have pos: "0 < unat sleep_time" by (simp add: unat_gt_0)
  have div: "unat (total_time div sleep_time) = unat total_time div unat sleep_time"
    by (simp add: unat_div)
  have "unat total_time div unat sleep_time * unat sleep_time \<le> unat total_time"
    by simp
  moreover have "unat total_time < (unat total_time div unat sleep_time + 1) * unat sleep_time"
    using pos dividend_less_div_times by (simp add: add.commute)
  ultimately show ?thesis
    using False by (simp add: generate_fixed_timeout_config_def div)
qed (simp add: generate_fixed_timeout_config_def)

end
