(* ===== verification/Metrics_Format.thy ===== *)
theory Metrics_Format
  imports Bridge_State Staking Eth_Subscriber Ton_Subscriber
begin

text \<open>
  The text of the metrics: \<open>PrometheusFormatter\<close> of \<open>engine/metrics_exporter/mod.rs\<close> and the
  \<open>Display\<close> implementations of the four labelled metrics of \<open>engine/mod.rs\<close>.

  A \<open>Formatter\<close> is a sink that every write may refuse: writing a string returns whether it
  succeeded and the new sink. \<open>Display::fmt\<close> is a function on the sink with the same result.
\<close>

section \<open>Formatters\<close>

type_synonym 'w sink = "string \<Rightarrow> 'w \<Rightarrow> bool \<times> 'w"
type_synonym 'w display = "'w \<Rightarrow> bool \<times> 'w"

text \<open>A sequence of operations joined by \<open>?\<close>: the first failure ends it.\<close>

fun try_all :: "'w display list \<Rightarrow> 'w display" where
  "try_all [] out = (True, out)"
| "try_all (f # fs) out = (case f out of (True, out') \<Rightarrow> try_all fs out' | (False, out') \<Rightarrow> (False, out'))"

record 'w prometheus_formatter =
  pf_fmt :: 'w
  pf_result :: bool
  pf_has_labels :: bool

text \<open>\<open>PrometheusFormatter::new\<close>, which \<open>begin_metric\<close> calls.\<close>

definition begin_metric :: "'w sink \<Rightarrow> string \<Rightarrow> 'w \<Rightarrow> 'w prometheus_formatter" where
  "begin_metric write_str name fmt =
     (case write_str name fmt of (result, fmt) \<Rightarrow>
        \<lparr>pf_fmt = fmt, pf_result = result, pf_has_labels = False\<rparr>)"

definition pf_label ::
  "'w sink \<Rightarrow> string \<times> string \<Rightarrow> 'w prometheus_formatter \<Rightarrow> 'w prometheus_formatter" where
  "pf_label write_str = (\<lambda>(name, val) pf.
     (case (if pf_result pf
            then try_all [write_str (if pf_has_labels pf then '','' else ''{''), write_str name,
                   write_str ''=\"'', write_str val, write_str ''\"''] (pf_fmt pf)
            else (False, pf_fmt pf)) of
        (result, fmt) \<Rightarrow> \<lparr>pf_fmt = fmt, pf_result = result, pf_has_labels = True\<rparr>))"

definition pf_value :: "'w sink \<Rightarrow> string \<Rightarrow> 'w prometheus_formatter \<Rightarrow> bool \<times> 'w" where
  "pf_value write_str val pf =
     (if pf_result pf
      then try_all [write_str (if pf_has_labels pf then ''} '' else '' ''), write_str val,
             write_str [CHR 0x0A]] (pf_fmt pf)
      else (False, pf_fmt pf))"

text \<open>One chain \<open>f.begin_metric(name).label(..)...value(v)\<close>.\<close>

definition metric :: "'w sink \<Rightarrow> string \<Rightarrow> (string \<times> string) list \<Rightarrow> string \<Rightarrow> 'w display" where
  "metric write_str name labels val fmt =
     pf_value write_str val (fold (pf_label write_str) labels (begin_metric write_str name fmt))"

text \<open>\<open>to_string\<close> on a display: the sink is a \<open>String\<close>, whose writes succeed; an error of the
  display would be a panic (\<open>None\<close>).\<close>

definition string_sink :: "string sink" where
  "string_sink s out = (True, out @ s)"

definition to_string :: "string display \<Rightarrow> string option" where
  "to_string f = (case f [] of (True, s) \<Rightarrow> Some s | (False, _) \<Rightarrow> None)"

text \<open>\<open>Display\<close> of the integer types.\<close>

definition digit_char :: "nat \<Rightarrow> char" where
  "digit_char d = char_of (48 + d)"

fun show_nat :: "nat \<Rightarrow> string" where
  "show_nat n = (if n < 10 then [digit_char n] else show_nat (n div 10) @ [digit_char (n mod 10)])"

declare show_nat.simps [simp del]

definition show_int :: "int \<Rightarrow> string" where
  "show_int i = (if i < 0 then CHR ''-'' # show_nat (nat (- i)) else show_nat (nat i))"

abbreviation show_word :: "'a::len word \<Rightarrow> string" where
  "show_word w \<equiv> show_nat (unat w)"

text \<open>\<open>b as u8\<close>.\<close>

definition u8_of_bool :: "bool \<Rightarrow> u8" where
  "u8_of_bool b = (if b then 1 else 0)"

section \<open>The metrics of the engine\<close>

definition LABEL_STAKER :: string where "LABEL_STAKER = ''staker''"
definition LABEL_CHAIN_ID :: string where "LABEL_CHAIN_ID = ''chain_id''"
definition LABEL_ROUND_NUM :: string where "LABEL_ROUND_NUM = ''round_num''"

definition display_bridge_metrics :: "'w sink \<Rightarrow> string \<Rightarrow> bridge_metrics_data \<Rightarrow> 'w display" where
  "display_bridge_metrics w staker metrics = try_all [
     metric w ''bridge_pending_eth_event_count'' [(LABEL_STAKER, staker)]
       (show_word (pending_eth_event_count metrics)),
     metric w ''bridge_pending_ton_event_count'' [(LABEL_STAKER, staker)]
       (show_word (pending_ton_event_count metrics)),
     metric w ''bridge_total_active_eth_event_configurations'' [(LABEL_STAKER, staker)]
       (show_word (total_active_eth_event_configurations metrics)),
     metric w ''bridge_total_active_ton_event_configurations'' [(LABEL_STAKER, staker)]
       (show_word (total_active_ton_event_configurations metrics))]"

text \<open>The state of the elections writes its times and leaves the status for the next metric.\<close>

definition display_elections_times :: "'w sink \<Rightarrow> (string \<times> string) list \<Rightarrow> elections_state \<Rightarrow> 'w display" where
  "display_elections_times w labels state =
     (case state of
        NotStarted start_time \<Rightarrow>
          metric w ''staking_elections_start_time'' labels (show_word start_time)
      | Started start_time end_time \<Rightarrow> try_all [
          metric w ''staking_elections_start_time'' labels (show_word start_time),
          metric w ''staking_elections_end_time'' labels (show_word end_time)]
      | Finished \<Rightarrow> try_all [])"

definition elections_status :: "elections_state \<Rightarrow> int" where
  "elections_status state = (case state of NotStarted _ \<Rightarrow> 0 | Started _ _ \<Rightarrow> 1 | Finished \<Rightarrow> 2)"

definition display_flag ::
  "'w sink \<Rightarrow> string \<Rightarrow> (string \<times> string) list \<Rightarrow> bool option \<Rightarrow> 'w display" where
  "display_flag w name labels flag =
     (case flag of
        None \<Rightarrow> try_all []
      | Some b \<Rightarrow> metric w name labels (show_word (u8_of_bool b)))"

definition display_staking_metrics :: "'w sink \<Rightarrow> string \<Rightarrow> staking_metrics_data \<Rightarrow> 'w display" where
  "display_staking_metrics w staker metrics =
     (let labels = [(LABEL_STAKER, staker),
            (LABEL_ROUND_NUM, show_word (smt_current_relay_round metrics))]
      in try_all [
        metric w ''staking_user_data_tokens_balance'' labels
          (show_word (smt_user_data_tokens_balance metrics)),
        metric w ''staking_current_relay_round'' [(LABEL_STAKER, staker)]
          (show_word (smt_current_relay_round metrics)),
        display_elections_times w labels (smt_elections_state metrics),
        metric w ''staking_elections_status'' labels
          (show_int (elections_status (smt_elections_state metrics))),
        metric w ''staking_ignore_elections'' labels
          (show_word (u8_of_bool (smt_ignore_elections metrics))),
        display_flag w ''staking_participates_in_round'' labels (smt_participates_in_round metrics),
        display_flag w ''staking_elected'' labels (smt_elected metrics)])"

text \<open>The counters of the node belong to \<open>ton_indexer\<close>.\<close>

record indexer_metrics =
  im_mc_time_diff :: int
  im_shard_client_time_diff :: int
  im_last_mc_block_seqno :: u32
  im_last_shard_client_mc_block_seqno :: u32

text \<open>The clocks of the node, once a block was seen.\<close>

definition display_ton_clocks ::
  "'w sink \<Rightarrow> string \<Rightarrow> ton_subscriber_metrics_data \<Rightarrow> indexer_metrics \<Rightarrow> 'w display" where
  "display_ton_clocks w staker metrics indexer_metrics =
     (if tsm_current_utime metrics > 0 then try_all [
        metric w ''ton_subscriber_current_utime'' [(LABEL_STAKER, staker)]
          (show_word (tsm_current_utime metrics)),
        metric w ''ton_subscriber_time_diff'' [(LABEL_STAKER, staker)]
          (show_int (im_mc_time_diff indexer_metrics)),
        metric w ''ton_subscriber_shard_client_time_diff'' [(LABEL_STAKER, staker)]
          (show_int (im_shard_client_time_diff indexer_metrics)),
        metric w ''ton_subscriber_mc_block_seqno'' [(LABEL_STAKER, staker)]
          (show_word (im_last_mc_block_seqno indexer_metrics)),
        metric w ''ton_subscriber_shard_client_mc_block_seqno'' [(LABEL_STAKER, staker)]
          (show_word (im_last_shard_client_mc_block_seqno indexer_metrics))]
      else try_all [])"

definition display_ton_subscriber_metrics ::
  "'w sink \<Rightarrow> string \<Rightarrow> ton_subscriber_metrics_data \<Rightarrow> indexer_metrics \<Rightarrow> 'w display" where
  "display_ton_subscriber_metrics w staker metrics indexer_metrics = try_all [
     metric w ''ton_subscriber_ready'' [(LABEL_STAKER, staker)]
       (show_word (u8_of_bool (tsm_ready metrics))),
     display_ton_clocks w staker metrics indexer_metrics,
     metric w ''ton_subscriber_pending_message_count'' [(LABEL_STAKER, staker)]
       (show_word (tsm_pending_message_count metrics))]"

definition display_eth_subscriber_metrics ::
  "'w sink \<Rightarrow> string \<Rightarrow> (u32 \<times> eth_subscriber_metrics) list \<Rightarrow> 'w display" where
  "display_eth_subscriber_metrics w staker subscribers =
     try_all (map (\<lambda>(chain_id, metrics). try_all [
        metric w ''eth_subscriber_last_processed_block''
          [(LABEL_STAKER, staker), (LABEL_CHAIN_ID, show_word chain_id)]
          (show_word (esm_last_processed_block metrics)),
        metric w ''eth_subscriber_pending_confirmation_count''
          [(LABEL_STAKER, staker), (LABEL_CHAIN_ID, show_word chain_id)]
          (show_word (esm_pending_confirmation_count metrics))]) subscribers)"

text \<open>What the loop of \<open>Engine::start_metrics_exporter\<close> writes to the buffer: the subscribers'
  metrics, then those of the bridge and of staking once these are installed.\<close>

record engine_metrics =
  em_staker :: string
  em_eth :: "(u32 \<times> eth_subscriber_metrics) list"
  em_ton :: ton_subscriber_metrics_data
  em_indexer :: indexer_metrics
  em_bridge :: "bridge_metrics_data option"
  em_staking :: "staking_metrics_data option"

definition metrics_displays :: "'w sink \<Rightarrow> engine_metrics \<Rightarrow> 'w display list" where
  "metrics_displays w m =
     [display_eth_subscriber_metrics w (em_staker m) (em_eth m),
      display_ton_subscriber_metrics w (em_staker m) (em_ton m) (em_indexer m)] @
     (case em_bridge m of None \<Rightarrow> [] | Some bridge \<Rightarrow> [display_bridge_metrics w (em_staker m) bridge]) @
     (case em_staking m of None \<Rightarrow> [] | Some staking \<Rightarrow> [display_staking_metrics w (em_staker m) staking])"

text \<open>\<open>MetricsBuffer::write\<close>: the text of each display is appended to the buffer.\<close>

fun buffer_write_all :: "string display list \<Rightarrow> string \<Rightarrow> string option" where
  "buffer_write_all [] buffer = Some buffer"
| "buffer_write_all (f # fs) buffer =
     (case to_string f of None \<Rightarrow> None | Some s \<Rightarrow> buffer_write_all fs (buffer @ s))"

definition metrics_text :: "engine_metrics \<Rightarrow> string option" where
  "metrics_text m = buffer_write_all (metrics_displays string_sink m) []"

end
