(* ===== verification/Metrics_Props.thy ===== *)
theory Metrics_Props
  imports Metrics_Format
begin

text \<open>
  What a scraper reads from the metrics. \<open>scan\<close> is a reader of the exposition format, one
  character at a time, written from the format and not from the code; \<open>emits\<close> says which samples a
  display adds to what was read so far and is closed under sequencing.
\<close>

section \<open>A reader of the exposition format\<close>

type_synonym sample = "string \<times> (string \<times> string) list \<times> int"

datatype scanner =
    InName "sample list" string
  | InKey "sample list" string "(string \<times> string) list" string
  | AtQuote "sample list" string "(string \<times> string) list" string
  | InLabel "sample list" string "(string \<times> string) list" string string
  | AfterLabel "sample list" string "(string \<times> string) list"
  | AtSpace "sample list" string "(string \<times> string) list"
  | InNumber "sample list" string "(string \<times> string) list" string
  | Malformed

definition name_char :: "char \<Rightarrow> bool" where
  "name_char c \<longleftrightarrow> c \<in> set ''abcdefghijklmnopqrstuvwxyzABCDEFGHIJKLMNOPQRSTUVWXYZ0123456789_''"

definition label_char :: "char \<Rightarrow> bool" where
  "label_char c \<longleftrightarrow> c \<noteq> CHR 0x22 \<and> c \<noteq> CHR 0x5C \<and> c \<noteq> CHR 0x0A"

definition digit_of :: "char \<Rightarrow> nat option" where
  "digit_of c = (if 48 \<le> (of_char c :: nat) \<and> (of_char c :: nat) \<le> 57 then Some (of_char c - 48) else None)"

definition read_digit :: "nat option \<Rightarrow> char \<Rightarrow> nat option" where
  "read_digit n c = Option.bind n (\<lambda>n. map_option (\<lambda>d. 10 * n + d) (digit_of c))"

definition read_nat :: "string \<Rightarrow> nat option" where
  "read_nat s = (if s = [] then None else foldl read_digit (Some 0) s)"

definition read_int :: "string \<Rightarrow> int option" where
  "read_int s =
     (case s of
        [] \<Rightarrow> None
      | c # cs \<Rightarrow> if c = CHR ''-'' then map_option (\<lambda>n. - int n) (read_nat cs)
                 else map_option int (read_nat s))"

fun scan :: "scanner \<Rightarrow> char \<Rightarrow> scanner" where
  "scan (InName ss n) c =
     (if name_char c then InName ss (n @ [c])
      else if n = [] then Malformed
      else if c = CHR '' '' then InNumber ss n [] []
      else if c = CHR ''{'' then InKey ss n [] [] else Malformed)"
| "scan (InKey ss n ls k) c =
     (if name_char c then InKey ss n ls (k @ [c])
      else if c = CHR ''='' \<and> k \<noteq> [] then AtQuote ss n ls k else Malformed)"
| "scan (AtQuote ss n ls k) c = (if c = CHR 0x22 then InLabel ss n ls k [] else Malformed)"
| "scan (InLabel ss n ls k v) c =
     (if label_char c then InLabel ss n ls k (v @ [c])
      else if c = CHR 0x22 then AfterLabel ss n (ls @ [(k, v)]) else Malformed)"
| "scan (AfterLabel ss n ls) c =
     (if c = CHR '','' then InKey ss n ls [] else if c = CHR ''}'' then AtSpace ss n ls else Malformed)"
| "scan (AtSpace ss n ls) c = (if c = CHR '' '' then InNumber ss n ls [] else Malformed)"
| "scan (InNumber ss n ls v) c =
     (if c = CHR 0x0A
      then (case read_int v of None \<Rightarrow> Malformed | Some i \<Rightarrow> InName (ss @ [(n, ls, i)]) [])
      else InNumber ss n ls (v @ [c]))"
| "scan Malformed c = Malformed"

definition scrape :: "string \<Rightarrow> sample list option" where
  "scrape text = (case foldl scan (InName [] []) text of InName ss [] \<Rightarrow> Some ss | _ \<Rightarrow> None)"

text \<open>Two samples of one scrape must differ in name or labels.\<close>

definition sample_key :: "sample \<Rightarrow> string \<times> (string \<times> string) list" where
  "sample_key s = (fst s, fst (snd s))"

section \<open>Numbers\<close>

lemma digit_of_digit_char: "d < 10 \<Longrightarrow> digit_of (digit_char d) = Some d"
  by (simp add: digit_of_def digit_char_def)

lemma digit_char_not: "d < 10 \<Longrightarrow> digit_char d \<noteq> CHR ''-''" "d < 10 \<Longrightarrow> digit_char d \<noteq> CHR 0x0A"
  "d < 10 \<Longrightarrow> label_char (digit_char d)"
proof -
  assume "d < 10"
  then have "of_char (digit_char d) = 48 + d" by (simp add: digit_char_def)
  then have "digit_char d \<noteq> c" if "(of_char c :: nat) < 48 \<or> 57 < (of_char c :: nat)" for c
    using that \<open>d < 10\<close> by auto
  from this [of "CHR ''-''"] this [of "CHR 0x0A"] this [of "CHR 0x22"] this [of "CHR 0x5C"]
  show "digit_char d \<noteq> CHR ''-''" "digit_char d \<noteq> CHR 0x0A" "label_char (digit_char d)"
    by (simp_all add: label_char_def)
qed

lemma show_nat_not_Nil [simp]: "show_nat n \<noteq> []"
  by (subst show_nat.simps) simp

lemma foldl_read_digit_show_nat: "foldl read_digit (Some 0) (show_nat n) = Some n"
proof (induction n rule: show_nat.induct)
  case (1 n)
  show ?case
  proof (cases "n < 10")
    case True
    then show ?thesis
      by (subst show_nat.simps) (simp add: read_digit_def digit_of_digit_char)
  next
    case False
    with 1 have "foldl read_digit (Some 0) (show_nat (n div 10)) = Some (n div 10)" by blast
    with False show ?thesis
      by (subst show_nat.simps) (simp add: read_digit_def digit_of_digit_char)
  qed
qed

lemma read_show_nat: "read_nat (show_nat n) = Some n"
  by (simp add: read_nat_def foldl_read_digit_show_nat)

lemma show_nat_chars: "list_all (\<lambda>c. c \<noteq> CHR ''-'' \<and> c \<noteq> CHR 0x0A \<and> label_char c) (show_nat n)"
proof (induction n rule: show_nat.induct)
  case (1 n)
  then show ?case by (subst show_nat.simps) (auto simp: digit_char_not)
qed

lemma show_nat_inject [simp]: "show_nat m = show_nat n \<longleftrightarrow> m = n"
  by (metis option.inject read_show_nat)

lemma show_nat_label: "list_all label_char (show_nat n)"
  using show_nat_chars [of n] by (simp add: list_all_iff)

lemma read_int_show_nat: "read_int (show_nat n) = Some (int n)"
proof -
  obtain c cs where "show_nat n = c # cs" by (cases "show_nat n") auto
  moreover have "c \<noteq> CHR ''-''" using show_nat_chars [of n] calculation by simp
  ultimately have "read_int (show_nat n) = map_option int (read_nat (show_nat n))"
    by (simp add: read_int_def)
  then show ?thesis by (simp add: read_show_nat)
qed

lemma read_int_show_int: "read_int (show_int i) = Some i"
  by (auto simp: show_int_def read_int_show_nat) (simp add: read_int_def read_show_nat)

definition number_text :: "string \<Rightarrow> int \<Rightarrow> bool" where
  "number_text s i \<longleftrightarrow> read_int s = Some i \<and> list_all (\<lambda>c. c \<noteq> CHR 0x0A) s"

lemma number_text_nat [simp, intro]: "number_text (show_nat n) (int n)"
  using show_nat_chars [of n] by (simp add: number_text_def read_int_show_nat list_all_iff)

lemma number_text_int [simp, intro]: "number_text (show_int i) i"
proof -
  have "list_all (\<lambda>c. c \<noteq> CHR 0x0A) (show_nat n)" for n
    using number_text_nat [of n] by (simp add: number_text_def del: number_text_nat)
  then have "list_all (\<lambda>c. c \<noteq> CHR 0x0A) (show_int i)" by (simp add: show_int_def)
  then show ?thesis by (simp add: number_text_def read_int_show_int)
qed

section \<open>Scanning the parts of a sample\<close>

lemma scan_name: "list_all name_char s \<Longrightarrow> foldl scan (InName ss n) s = InName ss (n @ s)"
  by (induction s arbitrary: n) auto

lemma scan_key: "list_all name_char s \<Longrightarrow> foldl scan (InKey ss n ls k) s = InKey ss n ls (k @ s)"
  by (induction s arbitrary: k) auto

lemma scan_label: "list_all label_char s \<Longrightarrow> foldl scan (InLabel ss n ls k v) s = InLabel ss n ls k (v @ s)"
  by (induction s arbitrary: v) auto

lemma scan_number:
  "list_all (\<lambda>c. c \<noteq> CHR 0x0A) s \<Longrightarrow> foldl scan (InNumber ss n ls v) s = InNumber ss n ls (v @ s)"
  by (induction s arbitrary: v) auto

lemmas scan_parts = scan_name scan_key scan_label scan_number

lemma name_char_special [simp]:
  "\<not> name_char CHR '' ''" "\<not> name_char CHR ''{''" "\<not> name_char CHR ''=''" "\<not> label_char CHR 0x22"
  by (simp_all add: name_char_def label_char_def)

definition label_ok :: "string \<times> string \<Rightarrow> bool" where
  "label_ok l \<longleftrightarrow> fst l \<noteq> [] \<and> list_all name_char (fst l) \<and> list_all label_char (snd l)"

text \<open>The formatter over a string, at a point where the scanner has read the name and some labels.\<close>

definition formats :: "sample list \<Rightarrow> string \<Rightarrow> (string \<times> string) list \<Rightarrow> string \<Rightarrow> string prometheus_formatter \<Rightarrow> bool" where
  "formats ss name ls out pf \<longleftrightarrow> pf_result pf \<and> pf_has_labels pf = (ls \<noteq> []) \<and>
     (\<exists>written. pf_fmt pf = out @ written \<and>
        foldl scan (InName ss []) written = (if ls = [] then InName ss name else AfterLabel ss name ls))"

lemma formats_begin:
  "list_all name_char name \<Longrightarrow> formats ss name [] out (begin_metric string_sink name out)"
  by (simp add: formats_def begin_metric_def string_sink_def scan_parts)

lemma formats_label:
  assumes "formats ss name ls out pf" "label_ok l" "name \<noteq> []"
  shows "formats ss name (ls @ [l]) out (pf_label string_sink l pf)"
  using assms
  by (cases l)
    (auto simp: formats_def pf_label_def string_sink_def label_ok_def scan_parts)

lemma formats_labels:
  assumes "formats ss name ls out pf" "list_all label_ok ls'" "name \<noteq> []"
  shows "formats ss name (ls @ ls') out (fold (pf_label string_sink) ls' pf)"
  using assms
proof (induction ls' arbitrary: ls pf)
  case (Cons l ls')
  then have "formats ss name (ls @ [l]) out (pf_label string_sink l pf)"
    by (simp add: formats_label)
  from Cons.IH [OF this] Cons.prems show ?case by simp
qed simp

section \<open>What a display emits\<close>

definition emits :: "string display \<Rightarrow> sample list \<Rightarrow> bool" where
  "emits f samples \<longleftrightarrow> (\<forall>out. \<exists>written. f out = (True, out @ written) \<and>
     (\<forall>ss. foldl scan (InName ss []) written = InName (ss @ samples) []))"

lemma emits_metric:
  assumes "name \<noteq> []" "list_all name_char name" "list_all label_ok ls" "number_text val i"
  shows "emits (metric string_sink name ls val) [(name, ls, i)]"
  unfolding emits_def
proof
  fix out
  let ?pf = "fold (pf_label string_sink) ls (begin_metric string_sink name out)"
  have pf: "formats ss name ls out ?pf" for ss
    using formats_labels [OF formats_begin [OF assms(2)] assms(3,1)] by simp
  define written where "written = drop (length out) (pf_fmt ?pf)"
  have written: "pf_fmt ?pf = out @ written"
    using pf unfolding formats_def written_def by (metis append_eq_conv_conj)
  have scan_written: "foldl scan (InName ss []) written = (if ls = [] then InName ss name else AfterLabel ss name ls)"
    for ss using pf [of ss] written by (auto simp: formats_def)
  have "metric string_sink name ls val out =
      (True, out @ written @ (if ls = [] then '' '' else ''} '') @ val @ [CHR 0x0A])"
    using pf written by (simp add: metric_def pf_value_def string_sink_def formats_def)
  moreover have "foldl scan (InName ss [])
      (written @ (if ls = [] then '' '' else ''} '') @ val @ [CHR 0x0A]) = InName (ss @ [(name, ls, i)]) []" for ss
    using assms(1,4) by (simp add: scan_written scan_parts number_text_def)
  ultimately show "\<exists>written. metric string_sink name ls val out = (True, out @ written) \<and>
      (\<forall>ss. foldl scan (InName ss []) written = InName (ss @ [(name, ls, i)]) [])"
    by blast
qed

lemma emits_Nil: "emits (try_all []) []"
  by (simp add: emits_def)

lemma emits_Cons:
  assumes "emits f ss" "emits (try_all fs) ss'"
  shows "emits (try_all (f # fs)) (ss @ ss')"
  unfolding emits_def
proof
  fix out
  obtain written where f: "f out = (True, out @ written)"
    and written: "\<And>s. foldl scan (InName s []) written = InName (s @ ss) []"
    using assms(1) unfolding emits_def by blast
  obtain written' where fs: "try_all fs (out @ written) = (True, (out @ written) @ written')"
    and written': "\<And>s. foldl scan (InName s []) written' = InName (s @ ss') []"
    using assms(2) unfolding emits_def by blast
  show "\<exists>written. try_all (f # fs) out = (True, out @ written) \<and>
      (\<forall>s. foldl scan (InName s []) written = InName (s @ ss @ ss') [])"
    by (intro exI [of _ "written @ written'"]) (simp add: f fs written written')
qed

lemma emits_map:
  assumes "\<And>x. emits (f x) (g x)"
  shows "emits (try_all (map f xs)) (concat (map g xs))"
proof (induction xs)
  case Nil
  show ?case using emits_Nil by (simp add: emits_def)
next
  case (Cons x xs)
  show ?case using emits_Cons [OF assms Cons, of x] by (simp del: try_all.simps)
qed

lemma emits_buffer:
  assumes "list_all2 emits fs sss"
  shows "\<exists>written. buffer_write_all fs buffer = Some (buffer @ written) \<and>
    (\<forall>ss. foldl scan (InName ss []) written = InName (ss @ concat sss) [])"
  using assms
proof (induction fs sss arbitrary: buffer rule: list_all2_induct)
  case (Cons f fs ss sss)
  obtain written where f: "to_string f = Some written"
    and written: "\<And>s. foldl scan (InName s []) written = InName (s @ ss) []"
    using Cons.hyps(1) unfolding emits_def to_string_def by (force dest: spec [of _ "[]"])
  obtain written' where fs: "buffer_write_all fs (buffer @ written) = Some ((buffer @ written) @ written')"
    and written': "\<And>s. foldl scan (InName s []) written' = InName (s @ concat sss) []"
    using Cons.IH [of "buffer @ written"] by blast
  show ?case by (intro exI [of _ "written @ written'"]) (simp add: f fs written written')
qed simp


section \<open>The samples of the engine\<close>

definition bridge_samples :: "string \<Rightarrow> bridge_metrics_data \<Rightarrow> sample list" where
  "bridge_samples staker m =
     [(''bridge_pending_eth_event_count'', [(''staker'', staker)], uint (pending_eth_event_count m)),
      (''bridge_pending_ton_event_count'', [(''staker'', staker)], uint (pending_ton_event_count m)),
      (''bridge_total_active_eth_event_configurations'', [(''staker'', staker)],
        uint (total_active_eth_event_configurations m)),
      (''bridge_total_active_ton_event_configurations'', [(''staker'', staker)],
        uint (total_active_ton_event_configurations m))]"

definition staking_samples :: "string \<Rightarrow> staking_metrics_data \<Rightarrow> sample list" where
  "staking_samples staker m =
     (let labels = [(''staker'', staker), (''round_num'', show_word (smt_current_relay_round m))];
          flag = \<lambda>b. if b then 1 else 0
      in [(''staking_user_data_tokens_balance'', labels, uint (smt_user_data_tokens_balance m)),
          (''staking_current_relay_round'', [(''staker'', staker)], uint (smt_current_relay_round m))] @
         (case smt_elections_state m of
            NotStarted t \<Rightarrow> [(''staking_elections_start_time'', labels, uint t)]
          | Started t t' \<Rightarrow> [(''staking_elections_start_time'', labels, uint t),
                            (''staking_elections_end_time'', labels, uint t')]
          | Finished \<Rightarrow> []) @
         [(''staking_elections_status'', labels,
            case smt_elections_state m of NotStarted _ \<Rightarrow> 0 | Started _ _ \<Rightarrow> 1 | Finished \<Rightarrow> 2),
          (''staking_ignore_elections'', labels, flag (smt_ignore_elections m))] @
         (case smt_participates_in_round m of
            None \<Rightarrow> [] | Some b \<Rightarrow> [(''staking_participates_in_round'', labels, flag b)]) @
         (case smt_elected m of None \<Rightarrow> [] | Some b \<Rightarrow> [(''staking_elected'', labels, flag b)]))"

definition clock_samples :: "string \<Rightarrow> ton_subscriber_metrics_data \<Rightarrow> indexer_metrics \<Rightarrow> sample list" where
  "clock_samples staker m im =
     (if tsm_current_utime m = 0 then [] else
       [(''ton_subscriber_current_utime'', [(''staker'', staker)], uint (tsm_current_utime m)),
        (''ton_subscriber_time_diff'', [(''staker'', staker)], im_mc_time_diff im),
        (''ton_subscriber_shard_client_time_diff'', [(''staker'', staker)], im_shard_client_time_diff im),
        (''ton_subscriber_mc_block_seqno'', [(''staker'', staker)], uint (im_last_mc_block_seqno im)),
        (''ton_subscriber_shard_client_mc_block_seqno'', [(''staker'', staker)],
          uint (im_last_shard_client_mc_block_seqno im))])"

definition ton_samples :: "string \<Rightarrow> ton_subscriber_metrics_data \<Rightarrow> indexer_metrics \<Rightarrow> sample list" where
  "ton_samples staker m im =
     [(''ton_subscriber_ready'', [(''staker'', staker)], if tsm_ready m then 1 else 0)] @
     clock_samples staker m im @
     [(''ton_subscriber_pending_message_count'', [(''staker'', staker)],
        uint (tsm_pending_message_count m))]"

definition eth_samples :: "string \<Rightarrow> u32 \<times> eth_subscriber_metrics \<Rightarrow> sample list" where
  "eth_samples staker = (\<lambda>(chain_id, m).
     [(''eth_subscriber_last_processed_block'',
        [(''staker'', staker), (''chain_id'', show_word chain_id)], uint (esm_last_processed_block m)),
      (''eth_subscriber_pending_confirmation_count'',
        [(''staker'', staker), (''chain_id'', show_word chain_id)],
        uint (esm_pending_confirmation_count m))])"

definition engine_samples :: "engine_metrics \<Rightarrow> sample list" where
  "engine_samples m =
     concat (map (eth_samples (em_staker m)) (em_eth m)) @
     ton_samples (em_staker m) (em_ton m) (em_indexer m) @
     (case em_bridge m of None \<Rightarrow> [] | Some b \<Rightarrow> bridge_samples (em_staker m) b) @
     (case em_staking m of None \<Rightarrow> [] | Some s \<Rightarrow> staking_samples (em_staker m) s)"

lemma number_text_word: "number_text (show_word w) (uint w)"
  using number_text_nat [of "unat w"] by (simp del: number_text_nat)

lemma number_text_flag: "number_text (show_word (u8_of_bool b)) (if b then 1 else 0)"
  using number_text_word [of "u8_of_bool b"] by (simp add: u8_of_bool_def split: if_splits)

lemma emits_single: "emits f ss \<Longrightarrow> emits (try_all [f]) ss"
  using emits_Cons [OF _ emits_Nil, of f ss] by simp

lemma emits_list:
  assumes "list_all2 emits fs sss" "ss = concat sss"
  shows "emits (try_all fs) ss"
  using assms(1) unfolding assms(2)
proof (induction rule: list_all2_induct)
  case Nil
  show ?case using emits_Nil by (simp del: try_all.simps)
next
  case (Cons f fs ss sss)
  then show ?case using emits_Cons by (simp del: try_all.simps)
qed

lemma name_char_letters [simp]:
  "name_char CHR ''_''" "name_char CHR ''a''" "name_char CHR ''b''" "name_char CHR ''c''"
  "name_char CHR ''d''" "name_char CHR ''e''" "name_char CHR ''f''" "name_char CHR ''g''"
  "name_char CHR ''h''" "name_char CHR ''i''" "name_char CHR ''k''" "name_char CHR ''l''"
  "name_char CHR ''m''" "name_char CHR ''n''" "name_char CHR ''o''" "name_char CHR ''p''"
  "name_char CHR ''q''" "name_char CHR ''r''" "name_char CHR ''s''" "name_char CHR ''t''"
  "name_char CHR ''u''" "name_char CHR ''v''" "name_char CHR ''y''"
  by (simp_all add: name_char_def)

lemma emits_number:
  assumes "list_all name_char name" "name \<noteq> []" "list_all label_ok ls"
  shows "emits (metric string_sink name ls (show_word w)) [(name, ls, uint w)]"
    "emits (metric string_sink name ls (show_int i)) [(name, ls, i)]"
    "emits (metric string_sink name ls (show_word (u8_of_bool True))) [(name, ls, 1)]"
    "emits (metric string_sink name ls (show_word (u8_of_bool False))) [(name, ls, 0)]"
  using emits_metric [OF assms(2,1,3)] number_text_word number_text_int
    number_text_flag [of True] number_text_flag [of False] by (blast, blast, auto)

lemma labels_ok:
  assumes "list_all label_char staker"
  shows "label_ok (''staker'', staker)" "label_ok (''round_num'', show_nat n)"
    "label_ok (''chain_id'', show_nat n)"
  using assms by (simp_all add: label_ok_def show_nat_label)

lemmas label_names = LABEL_STAKER_def LABEL_CHAIN_ID_def LABEL_ROUND_NUM_def

lemma emits_bridge:
  assumes "list_all label_char staker"
  shows "emits (display_bridge_metrics string_sink staker m) (bridge_samples staker m)"
  unfolding display_bridge_metrics_def label_names bridge_samples_def
  by (rule emits_list [where sss = "map (\<lambda>s. [s]) (bridge_samples staker m)"])
    (simp_all add: bridge_samples_def emits_number labels_ok [OF assms])

lemma emits_clocks:
  assumes "list_all label_char staker"
  shows "emits (display_ton_clocks string_sink staker m im) (clock_samples staker m im)"
proof (cases "tsm_current_utime m = 0")
  case True
  then show ?thesis
    using emits_Nil by (simp add: display_ton_clocks_def clock_samples_def del: try_all.simps)
next
  case False
  then have "tsm_current_utime m > 0" by (simp add: word_gt_0)
  then show ?thesis
    unfolding display_ton_clocks_def label_names if_P [OF \<open>tsm_current_utime m > 0\<close>]
    by (intro emits_list [where sss = "map (\<lambda>s. [s]) (clock_samples staker m im)"])
      (simp_all add: clock_samples_def emits_number labels_ok [OF assms])
qed

lemma emits_ton:
  assumes "list_all label_char staker"
  shows "emits (display_ton_subscriber_metrics string_sink staker m im) (ton_samples staker m im)"
  unfolding display_ton_subscriber_metrics_def label_names ton_samples_def
  by (rule emits_list [where sss = "[[(''ton_subscriber_ready'', [(''staker'', staker)],
        if tsm_ready m then 1 else 0)], clock_samples staker m im,
        [(''ton_subscriber_pending_message_count'', [(''staker'', staker)],
          uint (tsm_pending_message_count m))]]"])
    (simp_all add: emits_number emits_clocks [OF assms] labels_ok [OF assms])

lemma emits_eth:
  assumes "list_all label_char staker"
  shows "emits (display_eth_subscriber_metrics string_sink staker subs)
    (concat (map (eth_samples staker) subs))"
  unfolding display_eth_subscriber_metrics_def
proof (rule emits_map, clarify)
  fix chain_id :: u32 and m
  show "emits (try_all [
      metric string_sink ''eth_subscriber_last_processed_block''
        [(LABEL_STAKER, staker), (LABEL_CHAIN_ID, show_word chain_id)]
        (show_word (esm_last_processed_block m)),
      metric string_sink ''eth_subscriber_pending_confirmation_count''
        [(LABEL_STAKER, staker), (LABEL_CHAIN_ID, show_word chain_id)]
        (show_word (esm_pending_confirmation_count m))]) (eth_samples staker (chain_id, m))"
    unfolding label_names eth_samples_def
    by (rule emits_list [where sss = "map (\<lambda>s. [s]) (eth_samples staker (chain_id, m))"])
      (simp_all add: eth_samples_def emits_number labels_ok [OF assms])
qed

lemma emits_flag:
  assumes "list_all name_char name" "name \<noteq> []" "list_all label_ok ls"
  shows "emits (display_flag string_sink name ls flag)
    (case flag of None \<Rightarrow> [] | Some b \<Rightarrow> [(name, ls, if b then 1 else 0)])"
  using emits_Nil emits_number(3,4) [OF assms]
  by (simp add: display_flag_def del: try_all.simps split: option.split)

lemma emits_elections_times:
  assumes "list_all label_ok ls"
  shows "emits (display_elections_times string_sink ls state)
    (case state of
       NotStarted t \<Rightarrow> [(''staking_elections_start_time'', ls, uint t)]
     | Started t t' \<Rightarrow> [(''staking_elections_start_time'', ls, uint t),
                       (''staking_elections_end_time'', ls, uint t')]
     | Finished \<Rightarrow> [])"
proof (cases state)
  case (Started t t')
  have "emits (try_all [metric string_sink ''staking_elections_start_time'' ls (show_word t),
      metric string_sink ''staking_elections_end_time'' ls (show_word t')])
      [(''staking_elections_start_time'', ls, uint t), (''staking_elections_end_time'', ls, uint t')]"
    by (rule emits_list [where sss = "[[(''staking_elections_start_time'', ls, uint t)],
        [(''staking_elections_end_time'', ls, uint t')]]"]) (simp_all add: emits_number assms)
  then show ?thesis by (simp add: Started display_elections_times_def del: try_all.simps)
qed (simp_all add: display_elections_times_def emits_number assms emits_Nil del: try_all.simps)

lemma elections_status_cases:
  "elections_status state = (case state of NotStarted _ \<Rightarrow> 0 | Started _ _ \<Rightarrow> 1 | Finished \<Rightarrow> 2)"
  by (simp add: elections_status_def)

lemma emits_staking:
  assumes "list_all label_char staker"
  shows "emits (display_staking_metrics string_sink staker m) (staking_samples staker m)"
proof -
  let ?ls = "[(''staker'', staker), (''round_num'', show_word (smt_current_relay_round m))]"
  let ?flag = "\<lambda>b. if b then 1 else 0 :: int"
  show ?thesis
    unfolding display_staking_metrics_def label_names Let_def
    by (rule emits_list [where sss = "[[(''staking_user_data_tokens_balance'', ?ls,
            uint (smt_user_data_tokens_balance m))],
          [(''staking_current_relay_round'', [(''staker'', staker)], uint (smt_current_relay_round m))],
          (case smt_elections_state m of
             NotStarted t \<Rightarrow> [(''staking_elections_start_time'', ?ls, uint t)]
           | Started t t' \<Rightarrow> [(''staking_elections_start_time'', ?ls, uint t),
                             (''staking_elections_end_time'', ?ls, uint t')]
           | Finished \<Rightarrow> []),
          [(''staking_elections_status'', ?ls, elections_status (smt_elections_state m))],
          [(''staking_ignore_elections'', ?ls, ?flag (smt_ignore_elections m))],
          (case smt_participates_in_round m of
             None \<Rightarrow> [] | Some b \<Rightarrow> [(''staking_participates_in_round'', ?ls, ?flag b)]),
          (case smt_elected m of None \<Rightarrow> [] | Some b \<Rightarrow> [(''staking_elected'', ?ls, ?flag b)])]"])
      (simp_all add: emits_number emits_flag emits_elections_times labels_ok [OF assms]
        staking_samples_def elections_status_cases Let_def)
qed

lemma emits_engine:
  assumes "list_all label_char (em_staker m)"
  shows "\<exists>written. metrics_text m = Some written \<and>
    (\<forall>ss. foldl scan (InName ss []) written = InName (ss @ engine_samples m) [])"
proof -
  have "list_all2 emits (metrics_displays string_sink m)
      ([concat (map (eth_samples (em_staker m)) (em_eth m)),
        ton_samples (em_staker m) (em_ton m) (em_indexer m)] @
       (case em_bridge m of None \<Rightarrow> [] | Some b \<Rightarrow> [bridge_samples (em_staker m) b]) @
       (case em_staking m of None \<Rightarrow> [] | Some s \<Rightarrow> [staking_samples (em_staker m) s]))"
    using assms
    by (auto simp: metrics_displays_def emits_eth emits_ton emits_bridge emits_staking
        split: option.split)
  from emits_buffer [OF this, of "[]"] show ?thesis
    by (auto simp: metrics_text_def engine_samples_def split: option.split)
qed


section \<open>No sample twice\<close>

definition metric_group :: "sample \<Rightarrow> string" where
  "metric_group s = take 4 (fst s)"

lemma groups:
  "s \<in> set (bridge_samples staker b) \<Longrightarrow> metric_group s = ''brid''"
  "s \<in> set (staking_samples staker st) \<Longrightarrow> metric_group s = ''stak''"
  "s \<in> set (ton_samples staker t im) \<Longrightarrow> metric_group s = ''ton_''"
  "s \<in> set (eth_samples staker e) \<Longrightarrow> metric_group s = ''eth_''"
  by (auto simp: metric_group_def bridge_samples_def staking_samples_def ton_samples_def clock_samples_def
      eth_samples_def Let_def case_prod_unfold split: if_splits option.splits elections_state.splits)

lemma sample_key_group: "sample_key s = sample_key s' \<Longrightarrow> metric_group s = metric_group s'"
  by (simp add: sample_key_def metric_group_def)

lemma distinct_keys_append:
  assumes "distinct (map sample_key xs)" "distinct (map sample_key ys)"
    "\<And>x y. x \<in> set xs \<Longrightarrow> y \<in> set ys \<Longrightarrow> metric_group x \<noteq> metric_group y"
  shows "distinct (map sample_key (xs @ ys))"
proof -
  have "sample_key x \<noteq> sample_key y" if "x \<in> set xs" "y \<in> set ys" for x y
    using assms(3) [OF that] sample_key_group by blast
  then have "set (map sample_key xs) \<inter> set (map sample_key ys) = {}" by fastforce
  with assms(1,2) show ?thesis by simp
qed

lemma distinct_bridge: "distinct (map sample_key (bridge_samples staker b))"
  by (simp add: bridge_samples_def sample_key_def)

lemma distinct_ton: "distinct (map sample_key (ton_samples staker t im))"
  by (simp add: ton_samples_def clock_samples_def sample_key_def)

lemma distinct_staking: "distinct (map sample_key (staking_samples staker s))"
  by (cases "smt_elections_state s"; cases "smt_participates_in_round s"; cases "smt_elected s")
    (simp_all add: staking_samples_def sample_key_def Let_def)

lemma distinct_eth:
  assumes "distinct (map fst subs)"
  shows "distinct (map sample_key (concat (map (eth_samples staker) subs)))"
  using assms
proof (induction subs)
  case (Cons e subs)
  have key: "fst e = fst e'" if "sample_key s = sample_key s'" "s \<in> set (eth_samples staker e)"
    "s' \<in> set (eth_samples staker e')" for s s' e'
    using that by (auto simp: eth_samples_def sample_key_def case_prod_unfold simp flip: word_unat_eq_iff)
  have "sample_key ` set (eth_samples staker e) \<inter>
      sample_key ` (\<Union>e'\<in>set subs. set (eth_samples staker e')) = {}"
  proof -
    have False if "s \<in> set (eth_samples staker e)" "e' \<in> set subs" "s' \<in> set (eth_samples staker e')"
      "sample_key s = sample_key s'" for s s' e'
      using key [OF that(4,1,3)] that(2) Cons.prems by auto
    then show ?thesis by (fastforce simp del: Un_iff)
  qed
  moreover have "distinct (map sample_key (eth_samples staker e))"
    by (cases e) (simp add: eth_samples_def sample_key_def)
  ultimately show ?case using Cons by (simp add: image_UN)
qed simp

lemma groups_of_parts:
  "s \<in> set (case b of None \<Rightarrow> [] | Some b \<Rightarrow> bridge_samples staker b) \<Longrightarrow> metric_group s = ''brid''"
  "s \<in> set (case st of None \<Rightarrow> [] | Some st \<Rightarrow> staking_samples staker st) \<Longrightarrow> metric_group s = ''stak''"
  "s \<in> set (concat (map (eth_samples staker) subs)) \<Longrightarrow> metric_group s = ''eth_''"
  by (auto simp: groups split: option.splits)

lemma distinct_engine:
  assumes "distinct (map fst (em_eth m))"
  shows "distinct (map sample_key (engine_samples m))"
proof -
  let ?bridge = "case em_bridge m of None \<Rightarrow> [] | Some b \<Rightarrow> bridge_samples (em_staker m) b"
  let ?staking = "case em_staking m of None \<Rightarrow> [] | Some s \<Rightarrow> staking_samples (em_staker m) s"
  let ?ton = "ton_samples (em_staker m) (em_ton m) (em_indexer m)"
  have "metric_group x \<noteq> metric_group y" if "x \<in> set ?bridge" "y \<in> set ?staking" for x y
    using groups_of_parts(1) [OF that(1)] groups_of_parts(2) [OF that(2)] by simp
  then have bs: "distinct (map sample_key (?bridge @ ?staking))"
    by (intro distinct_keys_append) (simp_all add: distinct_bridge distinct_staking split: option.split)
  have "metric_group x \<noteq> metric_group y" if "x \<in> set ?ton" "y \<in> set (?bridge @ ?staking)" for x y
  proof -
    from that(2) have "metric_group y \<in> {''brid'', ''stak''}"
      unfolding set_append Un_iff
      by (elim disjE) (simp_all only: groups_of_parts(1) groups_of_parts(2) insert_iff simp_thms)
    then show ?thesis using groups(3) [OF that(1)] by auto
  qed
  then have tbs: "distinct (map sample_key (?ton @ ?bridge @ ?staking))"
    by (intro distinct_keys_append distinct_ton bs)
  have "metric_group x \<noteq> metric_group y"
    if "x \<in> set (concat (map (eth_samples (em_staker m)) (em_eth m)))"
      "y \<in> set (?ton @ ?bridge @ ?staking)" for x y
  proof -
    from that(2) have "metric_group y \<in> {''brid'', ''stak'', ''ton_''}"
      unfolding set_append Un_iff
      by (elim disjE)
        (simp_all only: groups_of_parts(1) groups_of_parts(2) groups(3) insert_iff simp_thms)
    then show ?thesis using groups_of_parts(3) [OF that(1)] by auto
  qed
  then show ?thesis
    unfolding engine_samples_def by (intro distinct_keys_append distinct_eth [OF assms] tbs)
qed

section \<open>Property\<close>

text \<open>C36: The text the exporter publishes is never a panic and reads back: a reader of the exposition
  format finds in it exactly the samples of the engine's current metrics, labels and numbers
  included, and no name with the same labels twice.\<close>

theorem metrics_scrape_exact:
  assumes "list_all label_char (em_staker m)" "distinct (map fst (em_eth m))"
  shows "\<exists>written. metrics_text m = Some written \<and> scrape written = Some (engine_samples m) \<and>
    distinct (map sample_key (engine_samples m))"
  using emits_engine [OF assms(1)] distinct_engine [OF assms(2)]
  by (auto simp: scrape_def)

definition example_metrics :: engine_metrics where
  "example_metrics = \<lparr>em_staker = ''0:ab'',
     em_eth = [(1, \<lparr>esm_last_processed_block = 17, esm_pending_confirmation_count = 2\<rparr>)],
     em_ton = \<lparr>tsm_ready = True, tsm_current_utime = 0, tsm_pending_message_count = 5\<rparr>,
     em_indexer = \<lparr>im_mc_time_diff = - 3, im_shard_client_time_diff = 4,
       im_last_mc_block_seqno = 5, im_last_shard_client_mc_block_seqno = 6\<rparr>,
     em_bridge = None, em_staking = None\<rparr>"

theorem metrics_scrape_exact_witness:
  "\<exists>written. metrics_text example_metrics = Some written \<and> scrape written = Some
     [(''eth_subscriber_last_processed_block'', [(''staker'', ''0:ab''), (''chain_id'', ''1'')], 17),
      (''eth_subscriber_pending_confirmation_count'', [(''staker'', ''0:ab''), (''chain_id'', ''1'')], 2),
      (''ton_subscriber_ready'', [(''staker'', ''0:ab'')], 1),
      (''ton_subscriber_pending_message_count'', [(''staker'', ''0:ab'')], 5)]"
proof -
  have "(49::nat) = of_char CHR ''1''" by simp
  then have one: "char_of (49::nat) = CHR ''1''" by (simp only: char_of_char)
  have "engine_samples example_metrics =
     [(''eth_subscriber_last_processed_block'', [(''staker'', ''0:ab''), (''chain_id'', ''1'')], 17),
      (''eth_subscriber_pending_confirmation_count'', [(''staker'', ''0:ab''), (''chain_id'', ''1'')], 2),
      (''ton_subscriber_ready'', [(''staker'', ''0:ab'')], 1),
      (''ton_subscriber_pending_message_count'', [(''staker'', ''0:ab'')], 5)]"
    by (simp add: example_metrics_def engine_samples_def eth_samples_def ton_samples_def
        clock_samples_def show_nat.simps [of "Suc 0"] digit_char_def one)
  moreover have "list_all label_char (em_staker example_metrics)"
    "distinct (map fst (em_eth example_metrics))"
    by (simp_all add: example_metrics_def label_char_def)
  from metrics_scrape_exact [OF this] obtain written where
    "metrics_text example_metrics = Some written"
    "scrape written = Some (engine_samples example_metrics)" by blast
  ultimately show ?thesis by simp
qed

end
