(* ===== verification/Account_Cell.thy ===== *)
theory Account_Cell
  imports Prelude
begin

text \<open>
  \<open>read_code_hash\<close> of \<open>engine/bridge/mod.rs\<close>: the scan of all accounts reads the code hash of each one
  directly from its cell, without parsing the account. A slice is the bits and the references that
  are left; its operations are those of \<open>ton_types\<close>, and what skips a value of a foreign type is a
  parameter. The layout the code relies on is written down separately as an encoder of accounts.
\<close>

section \<open>Slices\<close>

record 'cell slice =
  sl_bits :: "bool list"
  sl_refs :: "'cell list"

type_synonym ('cell, 'a) slice_read = "'cell slice \<Rightarrow> ('a \<times> 'cell slice) result"

definition slice_bind ::
  "('cell, 'a) slice_read \<Rightarrow> ('a \<Rightarrow> ('cell, 'b) slice_read) \<Rightarrow> ('cell, 'b) slice_read" where
  "slice_bind p f s = and_then (p s) (\<lambda>(x, s'). f x s')"

definition slice_return :: "'a \<Rightarrow> ('cell, 'a) slice_read" where
  "slice_return x s = Inr (x, s)"

definition get_next_bit :: "('cell, bool) slice_read" where
  "get_next_bit s = (case sl_bits s of [] \<Rightarrow> Inl (Foreign ''CellUnderflow'')
     | b # bs \<Rightarrow> Inr (b, s\<lparr>sl_bits := bs\<rparr>))"

definition bits_value :: "bool list \<Rightarrow> nat" where
  "bits_value bs = foldl (\<lambda>n b. 2 * n + (if b then 1 else 0)) 0 bs"

definition get_next_int :: "nat \<Rightarrow> ('cell, nat) slice_read" where
  "get_next_int n s = (if length (sl_bits s) < n then Inl (Foreign ''CellUnderflow'')
     else Inr (bits_value (take n (sl_bits s)), s\<lparr>sl_bits := drop n (sl_bits s)\<rparr>))"

definition move_by :: "nat \<Rightarrow> ('cell, unit) slice_read" where
  "move_by n s = (if length (sl_bits s) < n then Inl (Foreign ''CellUnderflow'')
     else Inr ((), s\<lparr>sl_bits := drop n (sl_bits s)\<rparr>))"

definition checked_drain_reference :: "('cell, 'cell) slice_read" where
  "checked_drain_reference s = (case sl_refs s of [] \<Rightarrow> Inl (Foreign ''CellUnderflow'')
     | c # cs \<Rightarrow> Inr (c, s\<lparr>sl_refs := cs\<rparr>))"

section \<open>The reader\<close>

record 'cell skip_lib =
  skip_storage_used :: "('cell, unit) slice_read"
  skip_grams :: "('cell, unit) slice_read"
  skip_currency_collection :: "('cell, unit) slice_read"
  cell_repr_hash :: "'cell \<Rightarrow> uint256"

text \<open>\<open>if cell.get_next_bit()? { skip }\<close>.\<close>

definition skip_optional :: "('cell, unit) slice_read \<Rightarrow> ('cell, unit) slice_read" where
  "skip_optional skip =
     slice_bind get_next_bit (\<lambda>present. if present then skip else slice_return ())"

text \<open>The address: \<open>false\<close> when it is not a standard one without anycast. \<open>||\<close> reads the third bit only
  when the first two match.\<close>

definition read_standard_address :: "('cell, bool) slice_read" where
  "read_standard_address =
     slice_bind (get_next_int 2) (\<lambda>tag.
       if tag \<noteq> 2 then slice_return False
       else slice_bind get_next_bit (\<lambda>anycast. slice_return (\<not> anycast)))"

definition read_code :: "'cell skip_lib \<Rightarrow> ('cell, uint256 option) slice_read" where
  "read_code lib =
     slice_bind get_next_bit (\<lambda>active.
       if \<not> active then slice_return None
       else
         slice_bind (skip_optional (move_by 5)) (\<lambda>_.
         slice_bind (skip_optional (move_by 2)) (\<lambda>_.
         slice_bind get_next_bit (\<lambda>has_code.
           if \<not> has_code then slice_return None
           else slice_bind checked_drain_reference (\<lambda>code.
                  slice_return (Some (cell_repr_hash lib code)))))))"

definition read_code_hash :: "'cell skip_lib \<Rightarrow> 'cell slice \<Rightarrow> uint256 option result" where
  "read_code_hash lib cell =
     and_then (slice_bind get_next_bit (\<lambda>is_account.
       if \<not> is_account then slice_return None
       else slice_bind read_standard_address (\<lambda>standard.
         if \<not> standard then slice_return None
         else
           slice_bind (move_by (8 + 256)) (\<lambda>_.
           slice_bind (skip_storage_used lib) (\<lambda>_.
           slice_bind (move_by 32) (\<lambda>_.
           slice_bind (skip_optional (skip_grams lib)) (\<lambda>_.
           slice_bind (move_by 64) (\<lambda>_.
           slice_bind (skip_currency_collection lib) (\<lambda>_.
           read_code lib)))))))) cell) (\<lambda>(code_hash, _). Inr code_hash)"

section \<open>The layout of an account\<close>

text \<open>A piece of a cell: bits and references. \<open>account_layout\<close> has one field for each field of the
  account's scheme; foreign structures are pieces.\<close>

type_synonym 'cell piece = "bool list \<times> 'cell list"

definition piece_append :: "'cell piece \<Rightarrow> 'cell piece \<Rightarrow> 'cell piece" where
  "piece_append p q = (fst p @ fst q, snd p @ snd q)"

definition optional_piece :: "'cell piece option \<Rightarrow> 'cell piece" where
  "optional_piece p = (case p of None \<Rightarrow> ([False], []) | Some (bs, rs) \<Rightarrow> (True # bs, rs))"

datatype 'cell account_state_layout =
    NotActive "bool list" \<comment> \<open>uninitialised or frozen: what follows the first bit\<close>
  | Active "bool list option" "bool list option" "'cell option" "'cell piece"
      \<comment> \<open>split depth, tick-tock, code, data and libraries\<close>

datatype account_address_layout =
    Standard "bool list" \<comment> \<open>workchain and address\<close>
  | Anycast "bool list"
  | Variable "bool list"

record 'cell account_layout =
  al_address :: account_address_layout
  al_storage_used :: "'cell piece"
  al_last_paid :: "bool list"
  al_due_payment :: "'cell piece option"
  al_last_trans_lt :: "bool list"
  al_balance :: "'cell piece"
  al_state :: "'cell account_state_layout"

definition encode_address :: "account_address_layout \<Rightarrow> 'cell piece" where
  "encode_address a = (case a of
     Standard bs \<Rightarrow> ([True, False, False] @ bs, [])
   | Anycast bs \<Rightarrow> ([True, False, True] @ bs, [])
   | Variable bs \<Rightarrow> ([True, True] @ bs, []))"

definition encode_state :: "'cell account_state_layout \<Rightarrow> 'cell piece" where
  "encode_state s = (case s of
     NotActive bs \<Rightarrow> (False # bs, [])
   | Active depth special code rest \<Rightarrow>
       piece_append ([True], []) (
       piece_append (optional_piece (map_option (\<lambda>bs. (bs, [])) depth)) (
       piece_append (optional_piece (map_option (\<lambda>bs. (bs, [])) special)) (
       piece_append (optional_piece (map_option (\<lambda>c. ([], [c])) code)) rest))))"

definition encode_account :: "'cell account_layout option \<Rightarrow> 'cell slice" where
  "encode_account a = (case a of
     None \<Rightarrow> \<lparr>sl_bits = [False], sl_refs = []\<rparr>
   | Some a \<Rightarrow>
       (let p = piece_append ([True], []) (
                piece_append (encode_address (al_address a)) (
                piece_append (al_storage_used a) (
                piece_append (al_last_paid a, []) (
                piece_append (optional_piece (al_due_payment a)) (
                piece_append (al_last_trans_lt a, []) (
                piece_append (al_balance a) (encode_state (al_state a))))))))
        in \<lparr>sl_bits = fst p, sl_refs = snd p\<rparr>))"

text \<open>What the code relies on: a skip consumes exactly a piece of its type.\<close>

definition skips :: "('cell, unit) slice_read \<Rightarrow> 'cell piece \<Rightarrow> bool" where
  "skips skip p \<longleftrightarrow> (\<forall>bs rs. skip \<lparr>sl_bits = fst p @ bs, sl_refs = snd p @ rs\<rparr> =
     Inr ((), \<lparr>sl_bits = bs, sl_refs = rs\<rparr>))"

fun address_sized :: "account_address_layout \<Rightarrow> bool" where
  "address_sized (Standard bs) = (length bs = 8 + 256)"
| "address_sized _ = True"

fun state_sized :: "'cell account_state_layout \<Rightarrow> bool" where
  "state_sized (NotActive bs) = True"
| "state_sized (Active depth special code rest) =
     (list_all (\<lambda>bs. length bs = 5) (case depth of None \<Rightarrow> [] | Some d \<Rightarrow> [d]) \<and>
      list_all (\<lambda>bs. length bs = 2) (case special of None \<Rightarrow> [] | Some s \<Rightarrow> [s]))"

definition account_sized :: "'cell skip_lib \<Rightarrow> 'cell account_layout \<Rightarrow> bool" where
  "account_sized lib a \<longleftrightarrow>
     address_sized (al_address a) \<and> state_sized (al_state a) \<and>
     length (al_last_paid a) = 32 \<and> length (al_last_trans_lt a) = 64 \<and>
     skips (skip_storage_used lib) (al_storage_used a) \<and>
     (case al_due_payment a of None \<Rightarrow> True | Some p \<Rightarrow> skips (skip_grams lib) p) \<and>
     skips (skip_currency_collection lib) (al_balance a)"

fun layout_code :: "'cell account_layout \<Rightarrow> 'cell option" where
  "layout_code a = (case (al_address a, al_state a) of
     (Standard _, Active _ _ code _) \<Rightarrow> code | _ \<Rightarrow> None)"

section \<open>Facts\<close>

lemmas slice_ops = slice_bind_def slice_return_def get_next_bit_def get_next_int_def move_by_def
  checked_drain_reference_def

lemma move_by_prefix:
  "length bs = n \<Longrightarrow> move_by n \<lparr>sl_bits = bs @ bs', sl_refs = rs\<rparr> =
     Inr ((), \<lparr>sl_bits = bs', sl_refs = rs\<rparr>)"
  by (auto simp: move_by_def)

lemma skips_move_by: "length bs = n \<Longrightarrow> skips (move_by n) (bs, [])"
  by (simp add: skips_def move_by_prefix)

lemma optional_piece_simps [simp]:
  "optional_piece None = ([False], [])" "optional_piece (Some (bs, rs)) = (True # bs, rs)"
  by (simp_all add: optional_piece_def)

lemma skip_optional_piece:
  assumes "case p of None \<Rightarrow> True | Some q \<Rightarrow> skips skip q"
  shows "skip_optional skip \<lparr>sl_bits = fst (optional_piece p) @ bs, sl_refs = snd (optional_piece p) @ rs\<rparr> =
    Inr ((), \<lparr>sl_bits = bs, sl_refs = rs\<rparr>)"
proof (cases p)
  case (Some q)
  then show ?thesis
    using assms by (cases q) (simp add: skip_optional_def slice_ops skips_def)
qed (simp add: skip_optional_def slice_ops)

lemma read_code_state:
  fixes lib :: "'cell skip_lib"
  assumes "state_sized s"
  shows "\<exists>t. read_code lib \<lparr>sl_bits = fst (encode_state s), sl_refs = snd (encode_state s)\<rparr> =
    Inr (case s of Active _ _ (Some code) _ \<Rightarrow> Some (cell_repr_hash lib code) | _ \<Rightarrow> None, t)"
proof (cases s)
  case (NotActive bs)
  then show ?thesis by (simp add: read_code_def encode_state_def slice_ops)
next
  case (Active depth special code rest)
  have depth: "case map_option (\<lambda>bs. (bs, [] :: 'cell list)) depth of None \<Rightarrow> True | Some q \<Rightarrow> skips (move_by 5) q"
    and special: "case map_option (\<lambda>bs. (bs, [] :: 'cell list)) special of None \<Rightarrow> True | Some q \<Rightarrow> skips (move_by 2) q"
    using assms by (auto simp: Active skips_move_by split: option.splits)
  show ?thesis
    using skip_optional_piece [OF depth] skip_optional_piece [OF special]
    by (cases code)
      (simp_all add: Active read_code_def encode_state_def piece_append_def slice_bind_def
        get_next_bit_def checked_drain_reference_def slice_return_def)
qed

lemma read_code_hash_encoded:
  assumes "account_sized lib a"
  shows "read_code_hash lib (encode_account (Some a)) = Inr (map_option (cell_repr_hash lib) (layout_code a)) \<and>
    read_code_hash lib (encode_account None) = Inr None"
proof -
  have used: "skip_storage_used lib \<lparr>sl_bits = fst (al_storage_used a) @ bs, sl_refs = snd (al_storage_used a) @ rs\<rparr> =
      Inr ((), \<lparr>sl_bits = bs, sl_refs = rs\<rparr>)"
    and balance: "skip_currency_collection lib \<lparr>sl_bits = fst (al_balance a) @ bs, sl_refs = snd (al_balance a) @ rs\<rparr> =
      Inr ((), \<lparr>sl_bits = bs, sl_refs = rs\<rparr>)" for bs rs
    using assms by (simp_all add: account_sized_def skips_def)
  have due: "case al_due_payment a of None \<Rightarrow> True | Some p \<Rightarrow> skips (skip_grams lib) p"
    and sizes: "length (al_last_paid a) = 32" "length (al_last_trans_lt a) = 64"
      "address_sized (al_address a)" "state_sized (al_state a)"
    using assms by (simp_all add: account_sized_def)
  obtain t where code: "read_code lib \<lparr>sl_bits = fst (encode_state (al_state a)),
      sl_refs = snd (encode_state (al_state a))\<rparr> =
    Inr (case al_state a of Active _ _ (Some code) _ \<Rightarrow> Some (cell_repr_hash lib code) | _ \<Rightarrow> None, t)"
    using read_code_state [OF sizes(4)] by blast
  note steps = slice_bind_def get_next_bit_def get_next_int_def slice_return_def bits_value_def
    read_standard_address_def encode_address_def piece_append_def
  have "read_code_hash lib (encode_account (Some a)) = Inr (map_option (cell_repr_hash lib) (layout_code a))"
  proof (cases "al_address a")
    case (Standard bs)
    then have "length bs = 8 + 256" using sizes(3) by simp
    with Standard show ?thesis
      using skip_optional_piece [OF due] code
      by (auto simp: read_code_hash_def encode_account_def Let_def steps move_by_prefix used balance sizes
          split: account_state_layout.splits option.splits)
  qed (simp_all add: read_code_hash_def encode_account_def Let_def steps)
  moreover have "read_code_hash lib (encode_account None) = Inr None"
    by (simp add: read_code_hash_def encode_account_def steps)
  ultimately show ?thesis by blast
qed

section \<open>Property\<close>

text \<open>C17: The prefetch finds exactly the code hash of the account: for every account whose fields have the
  sizes of the scheme, whatever its optional parts, it returns the hash of the code cell if the
  account has a standard address, is active and has code, and nothing otherwise, without an error.\<close>

theorem read_code_hash_exact:
  assumes "account_sized lib a"
  shows "read_code_hash lib (encode_account (Some a)) = Inr (map_option (cell_repr_hash lib) (layout_code a)) \<and>
    read_code_hash lib (encode_account None) = Inr None"
  by (rule read_code_hash_encoded [OF assms])

definition example_skip_lib :: "nat skip_lib" where
  "example_skip_lib = \<lparr>skip_storage_used = move_by 3, skip_grams = move_by 4,
     skip_currency_collection = slice_bind (move_by 4) (\<lambda>_. slice_bind checked_drain_reference
       (\<lambda>_. slice_return ())),
     cell_repr_hash = of_nat\<rparr>"

definition example_account :: "nat account_layout" where
  "example_account = \<lparr>al_address = Standard (replicate 264 False),
     al_storage_used = ([True, True, False], []), al_last_paid = replicate 32 True,
     al_due_payment = Some (replicate 4 True, []), al_last_trans_lt = replicate 64 False,
     al_balance = (replicate 4 True, [11]),
     al_state = Active (Some (replicate 5 True)) None (Some 77) ([True], [12])\<rparr>"

lemma example_account_sized: "account_sized example_skip_lib example_account"
proof -
  have "skips (skip_currency_collection example_skip_lib) (replicate 4 True, [11])"
    by (simp add: skips_def example_skip_lib_def slice_ops)
  then show ?thesis
    by (simp add: account_sized_def example_account_def) (simp add: example_skip_lib_def skips_move_by)
qed

theorem read_code_hash_exact_witness:
  "read_code_hash example_skip_lib (encode_account (Some example_account)) = Inr (Some 77)"
  using read_code_hash_exact [OF example_account_sized]
  by (simp add: example_skip_lib_def example_account_def)

end
