(* ===== verification/Event_Scan.thy ===== *)
theory Event_Scan
  imports Bridge_Events_Props Account_Cell
begin

text \<open>
  \<open>Bridge::get_all_events\<close> of \<open>engine/bridge/mod.rs\<close>: on startup every account of every shard is looked
  at, and the events that need a vote are registered and updated. One account is \<open>scan_account\<close> of
  \<open>Bridge_Events\<close>, its code hash is read by \<open>Account_Cell\<close>. The shards are scanned by tasks that share
  the two locked registries; an account lies in one shard only, so the tasks are put in a row.
\<close>

record ('acc, 'cell) scanned_account =
  sca_hash :: uint256
  sca_cell :: "'cell slice"
  sca_shard_account :: "'acc shard_account"

text \<open>What all tasks share: the keys, the hashes of event codes and the active configurations.\<close>

record scan_context =
  scx_public_key :: uint256
  scx_hashes :: "(uint256, event_type) hmap"
  scx_eth_configurations :: "uint256 list"
  scx_ton_configurations :: "uint256 list"

definition scan_context_new :: "uint256 \<Rightarrow> ('abi, 'tabi, 'cell) bridge_state \<Rightarrow> scan_context" where
  "scan_context_new our_public_key s =
     \<lparr>scx_public_key = our_public_key, scx_hashes = br_event_code_hashes s,
      scx_eth_configurations = unique_eth_event_configurations s,
      scx_ton_configurations = unique_ton_event_configurations s\<rparr>"

definition scan_one ::
  "('acc, 'tok, 'c) ton_lib \<Rightarrow> 'cell skip_lib \<Rightarrow> scan_context \<Rightarrow> ('acc, 'cell) scanned_account \<Rightarrow>
   events_state \<times> events_state \<Rightarrow> unit result \<times> event_type option \<times> events_state \<times> events_state" where
  "scan_one ton lib ctx a sts =
     scan_account ton (scx_public_key ctx) (scx_hashes ctx) (scx_eth_configurations ctx)
       (scx_ton_configurations ctx) (sca_hash a) (read_code_hash lib (sca_cell a))
       (from_shard_account (sca_shard_account a)) sts"

text \<open>\<open>iterate_events\<close>: the first error ends the iteration over the shard. The result has the update
  tasks that were spawned.\<close>

fun iterate_events ::
  "('acc, 'tok, 'c) ton_lib \<Rightarrow> 'cell skip_lib \<Rightarrow> scan_context \<Rightarrow> ('acc, 'cell) scanned_account list \<Rightarrow>
   events_state \<times> events_state \<Rightarrow>
   unit result \<times> (event_type \<times> uint256) list \<times> events_state \<times> events_state" where
  "iterate_events ton lib ctx [] sts = (Inr (), [], sts)"
| "iterate_events ton lib ctx (a # accounts) sts =
     (case scan_one ton lib ctx a sts of
        (Inl e, _, sts) \<Rightarrow> (Inl e, [], sts)
      | (Inr _, spawned, sts) \<Rightarrow>
          (case iterate_events ton lib ctx accounts sts of
             (result, tasks, sts) \<Rightarrow>
               (result, (case spawned of None \<Rightarrow> [] | Some kind \<Rightarrow> [(kind, sca_hash a)]) @ tasks, sts)))"

text \<open>All shards: every task runs to its end, the first error received is the result.\<close>

fun scan_shards ::
  "('acc, 'tok, 'c) ton_lib \<Rightarrow> 'cell skip_lib \<Rightarrow> scan_context \<Rightarrow> ('acc, 'cell) scanned_account list list \<Rightarrow>
   events_state \<times> events_state \<Rightarrow>
   unit result \<times> (event_type \<times> uint256) list \<times> events_state \<times> events_state" where
  "scan_shards ton lib ctx [] sts = (Inr (), [], sts)"
| "scan_shards ton lib ctx (accounts # shards) sts =
     (case iterate_events ton lib ctx accounts sts of
        (result, tasks, sts) \<Rightarrow>
          (case scan_shards ton lib ctx shards sts of
             (result', tasks', sts) \<Rightarrow>
               (case result of Inl e \<Rightarrow> Inl e | Inr _ \<Rightarrow> result', tasks @ tasks', sts)))"

definition get_all_events ::
  "('acc, 'tok, 'c) ton_lib \<Rightarrow> 'cell skip_lib \<Rightarrow> uint256 \<Rightarrow> ('abi, 'tabi, 'd) bridge_state \<Rightarrow>
   ('acc, 'cell) scanned_account list list result \<Rightarrow> events_state \<times> events_state \<Rightarrow>
   unit result \<times> (event_type \<times> uint256) list \<times> events_state \<times> events_state" where
  "get_all_events ton lib our_public_key s shard_accounts sts =
     (case shard_accounts of
        Inl e \<Rightarrow> (Inl e, [], sts)
      | Inr shards \<Rightarrow>
          (case scan_shards ton lib (scan_context_new our_public_key s) shards sts of
             (result, tasks, sts) \<Rightarrow> (context_res ''Failed to find all events'' result, tasks, sts)))"

section \<open>Facts\<close>

text \<open>Whether an account holds an event to vote for, and of which kind, independent of what is
  registered already.\<close>

definition event_kind ::
  "('acc, 'tok, 'c) ton_lib \<Rightarrow> 'cell skip_lib \<Rightarrow> scan_context \<Rightarrow> ('acc, 'cell) scanned_account \<Rightarrow>
   event_type option" where
  "event_kind ton lib ctx a =
     (case (read_code_hash lib (sca_cell a), from_shard_account (sca_shard_account a)) of
        (Inr (Some h), Inr (Some c)) \<Rightarrow>
          (case hm_get (scx_hashes ctx) h of
             None \<Rightarrow> None
           | Some kind \<Rightarrow>
               if event_process ton c (scx_public_key ctx) (kind = Ton) \<in> {Inr Nop, Inr Vote} \<and>
                  (case kind of
                     Eth \<Rightarrow> \<exists>d. eth_event_get_init_data ton c = Inr d \<and>
                       eid_configuration d \<in> set (scx_eth_configurations ctx)
                   | Ton \<Rightarrow> \<exists>d. ton_event_get_init_data ton c = Inr d \<and>
                       tid_configuration d \<in> set (scx_ton_configurations ctx))
               then Some kind else None)
      | _ \<Rightarrow> None)"

definition register :: "event_type option \<Rightarrow> uint256 \<Rightarrow> events_state \<times> events_state \<Rightarrow> events_state \<times> events_state" where
  "register kind account sts =
     (case kind of
        None \<Rightarrow> sts
      | Some Eth \<Rightarrow> (snd (add_pending_event account (fst sts)), snd sts)
      | Some Ton \<Rightarrow> (fst sts, snd (add_pending_event account (snd sts))))"

definition known :: "event_type \<Rightarrow> uint256 \<Rightarrow> events_state \<times> events_state \<Rightarrow> bool" where
  "known kind account sts \<longleftrightarrow>
     hm_contains account (ev_pending (case kind of Eth \<Rightarrow> fst sts | Ton \<Rightarrow> snd sts))"

lemma add_pending_event_known:
  "fst (add_pending_event account st) \<longleftrightarrow> \<not> hm_contains account (ev_pending st)"
  "hm_contains x (ev_pending (snd (add_pending_event account st))) \<longleftrightarrow>
     x = account \<or> hm_contains x (ev_pending st)"
  by (auto simp: add_pending_event_def insert_entry_def count_add_def Let_def hm_contains_def
      hm_get_insert split: option.splits)

lemma known_register:
  "known k x (register kind account sts) \<longleftrightarrow> known k x sts \<or> kind = Some k \<and> x = account"
proof (cases kind)
  case (Some k')
  then show ?thesis
    by (cases k'; cases k) (auto simp: known_def register_def add_pending_event_known)
qed (simp add: register_def)

lemma scan_one_ok:
  assumes "scan_one ton lib ctx a sts = (Inr u, spawned, sts')"
  shows "sts' = register (event_kind ton lib ctx a) (sca_hash a) sts \<and>
    spawned = (case event_kind ton lib ctx a of
      None \<Rightarrow> None | Some k \<Rightarrow> if known k (sca_hash a) sts then None else Some k)"
proof -
  note d = scan_one_def scan_account_def event_kind_def register_def
  consider e where "read_code_hash lib (sca_cell a) = Inl e"
    | "read_code_hash lib (sca_cell a) = Inr None"
    | h where "read_code_hash lib (sca_cell a) = Inr (Some h)"
    by (metis obj_sumE not_None_eq)
  then show ?thesis
  proof cases
    case (3 h)
    consider "hm_get (scx_hashes ctx) h = None"
      | kind e where "hm_get (scx_hashes ctx) h = Some kind" "from_shard_account (sca_shard_account a) = Inl e"
      | kind where "hm_get (scx_hashes ctx) h = Some kind" "from_shard_account (sca_shard_account a) = Inr None"
      | kind c where "hm_get (scx_hashes ctx) h = Some kind" "from_shard_account (sca_shard_account a) = Inr (Some c)"
      by (metis obj_sumE not_None_eq)
    then show ?thesis
    proof cases
      case (4 kind c)
      note hc = 3 4
      show ?thesis
      proof (cases "event_process ton c (scx_public_key ctx) (kind = Ton) \<in> {Inr Nop, Inr Vote}")
        case False
        then show ?thesis
          using assms hc by (auto simp: d split: sum.splits event_action.splits)
      next
        case process: True
        show ?thesis
        proof (cases kind)
          case Eth
          then show ?thesis
            using assms hc process
            by (cases "eth_event_get_init_data ton c")
              (auto simp: d known_def add_pending_event_known(1) Let_def case_prod_unfold
                split: if_splits)
        next
          case Ton
          then show ?thesis
            using assms hc process
            by (cases "ton_event_get_init_data ton c")
              (auto simp: d known_def add_pending_event_known(1) Let_def case_prod_unfold
                split: if_splits)
        qed
      qed
    qed (use 3 assms in \<open>auto simp: d split: sum.splits option.splits\<close>)
  qed (use assms in \<open>auto simp: d\<close>)
qed


lemma iterate_events_ok:
  assumes "iterate_events ton lib ctx accounts sts = (Inr u, tasks, sts')"
  shows "(known k x sts' \<longleftrightarrow> known k x sts \<or>
      (\<exists>a \<in> set accounts. sca_hash a = x \<and> event_kind ton lib ctx a = Some k)) \<and>
    count_list tasks (k, x) = (if known k x sts' \<and> \<not> known k x sts then 1 else 0)"
  using assms
proof (induction accounts arbitrary: sts tasks)
  case (Cons a accounts)
  obtain u' spawned sts1 where one: "scan_one ton lib ctx a sts = (Inr u', spawned, sts1)"
    using Cons.prems by (auto split: prod.splits sum.splits)
  obtain tasks1 where rec: "iterate_events ton lib ctx accounts sts1 = (Inr u, tasks1, sts')"
    and tasks: "tasks = (case spawned of None \<Rightarrow> [] | Some kind \<Rightarrow> [(kind, sca_hash a)]) @ tasks1"
    using Cons.prems one by (auto split: prod.splits)
  have known1: "known k x sts1 \<longleftrightarrow> known k x sts \<or> event_kind ton lib ctx a = Some k \<and> x = sca_hash a"
    using scan_one_ok [OF one] by (simp add: known_register)
  have spawned: "count_list (case spawned of None \<Rightarrow> [] | Some kind \<Rightarrow> [(kind, sca_hash a)]) (k, x) =
      (if known k x sts1 \<and> \<not> known k x sts then 1 else 0)"
    using scan_one_ok [OF one] known1 by (auto split: option.splits)
  show ?case
    using Cons.IH [OF rec] known1 spawned by (auto simp: tasks)
qed simp

lemma scan_shards_ok:
  assumes "scan_shards ton lib ctx shards sts = (Inr u, tasks, sts')"
  shows "(known k x sts' \<longleftrightarrow> known k x sts \<or>
      (\<exists>a \<in> set (concat shards). sca_hash a = x \<and> event_kind ton lib ctx a = Some k)) \<and>
    count_list tasks (k, x) = (if known k x sts' \<and> \<not> known k x sts then 1 else 0)"
  using assms
proof (induction shards arbitrary: sts tasks u)
  case (Cons accounts shards)
  obtain u1 tasks1 sts1 where one: "iterate_events ton lib ctx accounts sts = (Inr u1, tasks1, sts1)"
    using Cons.prems by (auto split: prod.splits sum.splits)
  obtain tasks2 where rec: "scan_shards ton lib ctx shards sts1 = (Inr u, tasks2, sts')"
    and tasks: "tasks = tasks1 @ tasks2"
    using Cons.prems one by (auto split: prod.splits)
  show ?case
    using Cons.IH [OF rec] iterate_events_ok [OF one, of k x] by (auto simp: tasks)
qed simp

section \<open>Property\<close>

text \<open>C16: The scan on startup misses no event and starts none twice: when it succeeds, the registry of each
  kind has gained exactly the accounts whose code hash is registered for that kind, whose contract
  still asks for a vote or may later, and whose configuration is active; and exactly one update task
  is spawned for each of them, none for an event that a handler had registered before.\<close>

theorem startup_scan_exact:
  assumes "get_all_events ton lib our_public_key s (Inr shards) sts = (Inr u, tasks, sts')"
  shows "(known k x sts' \<longleftrightarrow> known k x sts \<or>
      (\<exists>a \<in> set (concat shards). sca_hash a = x \<and>
         event_kind ton lib (scan_context_new our_public_key s) a = Some k)) \<and>
    count_list tasks (k, x) = (if known k x sts' \<and> \<not> known k x sts then 1 else 0)"
proof -
  have "scan_shards ton lib (scan_context_new our_public_key s) shards sts = (Inr u, tasks, sts')"
    using assms by (auto simp: get_all_events_def split: prod.splits)
  from scan_shards_ok [OF this, of k x] show ?thesis .
qed


definition example_bridge :: "(unit, unit, uint256) bridge_state" where
  "example_bridge = bridge_state_default\<lparr>br_event_code_hashes := [(77, Eth)],
     br_eth_configurations := [(20, \<lparr>ecs_details = example_eth_configuration, ecs_event_abi = (),
       ecs_observer = 1\<rparr>)]\<rparr>"

definition example_scanned :: "(nat, nat) scanned_account" where
  "example_scanned = \<lparr>sca_hash = 5, sca_cell = encode_account (Some example_account),
     sca_shard_account = \<lparr>read_account = Inr (Account 5), last_trans_lt = 0, last_trans_hash = 0\<rparr>\<rparr>"

lemma example_scan_parts:
  "read_code_hash example_skip_lib (sca_cell example_scanned) = Inr (Some 77)"
  "from_shard_account (sca_shard_account example_scanned) = Inr (Some (example_contract 5))"
  "eth_event_get_init_data example_ton_lib (example_contract 5) = Inr example_eth_event"
proof -
  show "read_code_hash example_skip_lib (sca_cell example_scanned) = Inr (Some 77)"
    using read_code_hash_encoded [OF example_account_sized]
    by (simp add: example_scanned_def) (simp add: example_skip_lib_def example_account_def)
qed (simp_all add: example_scanned_def from_shard_account_def example_contract_def getter_defs
    flip: example_contract_def)

theorem startup_scan_exact_witness:
  "\<exists>tasks sts'. get_all_events example_ton_lib example_skip_lib 42 example_bridge (Inr [[], [example_scanned]])
     (events_new, events_new) = (Inr (), tasks, sts') \<and>
   known Eth 5 sts' \<and> \<not> known Ton 5 sts' \<and> count_list tasks (Eth, 5) = 1"
proof -
  let ?ctx = "scan_context_new 42 example_bridge"
  have ctx: "scx_hashes ?ctx = [(77, Eth)]" "scx_eth_configurations ?ctx = [20]" "scx_public_key ?ctx = 42"
    by (simp_all add: scan_context_new_def example_bridge_def unique_eth_event_configurations_def)
  have process: "event_process example_ton_lib (example_contract 5) 42 False = Inr Vote"
    using example_process by simp
  have config: "eid_configuration example_eth_event = 20" by (simp add: example_eth_event_def)
  have kind: "event_kind example_ton_lib example_skip_lib ?ctx example_scanned = Some Eth"
    by (simp add: event_kind_def example_scan_parts ctx process config)
  have run: "scan_one example_ton_lib example_skip_lib ?ctx example_scanned sts =
      (Inr (), (if fst (add_pending_event (sca_hash example_scanned) (fst sts)) then Some Eth else None),
       snd (add_pending_event (sca_hash example_scanned) (fst sts)), snd sts)" for sts
    by (simp add: scan_one_def scan_account_def example_scan_parts ctx process config Let_def case_prod_unfold)
  obtain tasks sts' where all: "get_all_events example_ton_lib example_skip_lib 42 example_bridge
      (Inr [[], [example_scanned]]) (events_new, events_new) = (Inr (), tasks, sts')"
    by (simp add: get_all_events_def run)
  have hash: "sca_hash example_scanned = 5" by (simp add: example_scanned_def)
  have new: "\<not> known k 5 (events_new, events_new)" for k
    by (cases k) (simp_all add: known_def events_new_def hm_contains_def)
  from startup_scan_exact [OF all, of Eth 5] startup_scan_exact [OF all, of Ton 5]
  show ?thesis using all by (simp add: kind hash new)
qed

end
