(* ===== verification/Delivery_System.thy ===== *)
theory Delivery_System
  imports Delivery
begin

text \<open>
  All delivery loops of the relay at once: every \<open>EngineContext::deliver_message\<close> that runs, over the one
  queue of pending messages, while the TON subscriber reports blocks. A loop alone is in \<open>Delivery\<close>,
  the queue alone in \<open>Message_Queue\<close>; here they interleave, and what a loop receives is what its own
  channel of the queue got. \<open>dl_sent\<close> is a history: the channels of a loop with the expiration times.
\<close>

section \<open>The system\<close>

datatype delivery_phase =
    Deciding
  | Awaiting nat
  | Ended "unit result"

record deliverer =
  dl_message :: unsigned_message
  dl_phase :: delivery_phase
  dl_sent :: "(nat \<times> u32) list"

record delivery_system =
  dsy_queue :: queue_sys
  dsy_deliverers :: "deliverer list"

abbreviation dsy_pending :: "delivery_system \<Rightarrow> pending_messages_queue" where
  "dsy_pending v \<equiv> qsys_queue (dsy_queue v)"

text \<open>\<open>becomes\<close> updates the loop \<open>i\<close> and the queue.\<close>

definition becomes :: "nat \<Rightarrow> deliverer \<Rightarrow> pending_messages_queue \<Rightarrow> delivery_system \<Rightarrow> delivery_system" where
  "becomes i d q v =
     v\<lparr>dsy_queue := (dsy_queue v)\<lparr>qsys_queue := q\<rparr>, dsy_deliverers := (dsy_deliverers v)[i := d]\<rparr>"

text \<open>\<open>encode_message\<close> makes the message that is sent; \<open>time\<close> is the clock of the turn.\<close>

inductive delivery_step ::
  "u64 \<Rightarrow> ('ton, 'body) encoder \<Rightarrow> uint256 \<Rightarrow> 'ton \<Rightarrow> ('body signed_message \<Rightarrow> out_message) \<Rightarrow>
   delivery_system \<Rightarrow> delivery_system \<Rightarrow> bool"
  for SHARD_FULL encode_input public_key keypair encode_message where
  Queue: "queue_step SHARD_FULL (dsy_queue v) ev q \<Longrightarrow>
    delivery_step SHARD_FULL encode_input public_key keypair encode_message v (v\<lparr>dsy_queue := q\<rparr>)"
| Begin: "delivery_step SHARD_FULL encode_input public_key keypair encode_message v
    (v\<lparr>dsy_deliverers := dsy_deliverers v @
       [\<lparr>dl_message = message, dl_phase = Deciding, dl_sent = []\<rparr>]\<rparr>)"
| Stop: "i < length (dsy_deliverers v) \<Longrightarrow> d = dsy_deliverers v ! i \<Longrightarrow> dl_phase d = Deciding \<Longrightarrow>
    delivery_step SHARD_FULL encode_input public_key keypair encode_message v
      (becomes i (d\<lparr>dl_phase := Ended (Inr ())\<rparr>) (dsy_pending v) v)"
| Sign_failed: "i < length (dsy_deliverers v) \<Longrightarrow> d = dsy_deliverers v ! i \<Longrightarrow> dl_phase d = Deciding \<Longrightarrow>
    ton_sign encode_input public_key keypair time (dl_message d) = Inl e \<Longrightarrow>
    delivery_step SHARD_FULL encode_input public_key keypair encode_message v
      (becomes i (d\<lparr>dl_phase := Ended (Inl e)\<rparr>) (dsy_pending v) v)"
| Refused: "i < length (dsy_deliverers v) \<Longrightarrow> d = dsy_deliverers v ! i \<Longrightarrow> dl_phase d = Deciding \<Longrightarrow>
    ton_sign encode_input public_key keypair time (dl_message d) = Inr m \<Longrightarrow>
    send_ton_message_enqueue (sm_account m) (encode_message m) (sm_expire_at m) (dsy_pending v) = (Inl e, q) \<Longrightarrow>
    delivery_step SHARD_FULL encode_input public_key keypair encode_message v
      (becomes i (d\<lparr>dl_phase := Ended (Inl e)\<rparr>) q v)"
| Broadcast: "i < length (dsy_deliverers v) \<Longrightarrow> d = dsy_deliverers v ! i \<Longrightarrow> dl_phase d = Deciding \<Longrightarrow>
    ton_sign encode_input public_key keypair time (dl_message d) = Inr m \<Longrightarrow>
    send_ton_message_enqueue (sm_account m) (encode_message m) (sm_expire_at m) (dsy_pending v) = (Inr rx, q) \<Longrightarrow>
    ph = Awaiting rx \<or> (\<exists>e. ph = Ended (Inl e)) \<Longrightarrow>
    delivery_step SHARD_FULL encode_input public_key keypair encode_message v
      (becomes i (d\<lparr>dl_phase := ph, dl_sent := dl_sent d @ [(rx, sm_expire_at m)]\<rparr>) q v)"
| Retry: "i < length (dsy_deliverers v) \<Longrightarrow> d = dsy_deliverers v ! i \<Longrightarrow> dl_phase d = Awaiting rx \<Longrightarrow>
    queue_stat (dsy_pending v) rx = Some Expired \<Longrightarrow>
    delivery_step SHARD_FULL encode_input public_key keypair encode_message v
      (becomes i (d\<lparr>dl_phase := Deciding\<rparr>) (dsy_pending v) v)"
| Deliver: "i < length (dsy_deliverers v) \<Longrightarrow> d = dsy_deliverers v ! i \<Longrightarrow> dl_phase d = Awaiting rx \<Longrightarrow>
    queue_stat (dsy_pending v) rx = Some Delivered \<Longrightarrow>
    delivery_step SHARD_FULL encode_input public_key keypair encode_message v
      (becomes i (d\<lparr>dl_phase := Ended (Inr ())\<rparr>) (dsy_pending v) v)"

inductive delivery_reachable ::
  "u64 \<Rightarrow> ('ton, 'body) encoder \<Rightarrow> uint256 \<Rightarrow> 'ton \<Rightarrow> ('body signed_message \<Rightarrow> out_message) \<Rightarrow>
   delivery_system \<Rightarrow> bool"
  for SHARD_FULL encode_input public_key keypair encode_message where
  Start: "delivery_reachable SHARD_FULL encode_input public_key keypair encode_message
    \<lparr>dsy_queue = \<lparr>qsys_queue = queue_new, qsys_waiting = []\<rparr>, dsy_deliverers = []\<rparr>"
| Step: "delivery_reachable SHARD_FULL encode_input public_key keypair encode_message v \<Longrightarrow>
    delivery_step SHARD_FULL encode_input public_key keypair encode_message v w \<Longrightarrow>
    delivery_reachable SHARD_FULL encode_input public_key keypair encode_message w"

section \<open>One channel over time\<close>

text \<open>A channel of a message is in the queue with the account and the expiration, or answered.\<close>

definition tracked :: "pending_messages_queue \<Rightarrow> uint256 \<Rightarrow> nat \<times> u32 \<Rightarrow> bool" where
  "tracked q account x \<longleftrightarrow>
     (\<exists>h. queue_pend q account h = Some x) \<or> queue_stat q (fst x) \<noteq> None"

lemma queue_stat_sent: "queue_stat q c = map_of (sent q) c"
  by (simp add: queue_stat_def queue_abs_def)

lemma queue_step_stat:
  assumes "queue_step f s ev s'" "queue_inv (qsys_queue s)" "queue_stat (qsys_queue s) c = Some x"
  shows "queue_stat (qsys_queue s') c = Some x"
  using mqs.answer_final [OF r_into_rtranclp assms(2)] assms(1,3) unfolding queue_stat_sent by blast

lemma tracked_locked:
  assumes "queue_inv q" "tracked q a (c, e)"
  shows "tracked (queue_update_locked f shard t q) a (c, e)"
proof -
  have "tracked (queue_update f shard t q) a (c, e)"
  proof (cases "\<exists>h. queue_pend q a h = Some (c, e)")
    case True
    then obtain h where h: "queue_pend q a h = Some (c, e)" ..
    show ?thesis
    proof (cases "e < t \<and> contains_account f shard a")
      case True
      with h show ?thesis by (auto simp: tracked_def queue_stat_update [OF assms(1)])
    next
      case False
      with h have "queue_pend (queue_update f shard t q) a h = Some (c, e)"
        by (simp add: queue_pend_update [OF assms(1)])
      then show ?thesis by (auto simp: tracked_def)
    qed
  next
    case False
    with assms(2) show ?thesis by (auto simp: tracked_def queue_stat_update [OF assms(1)])
  qed
  then show ?thesis by (simp only: queue_update_eq_locked [OF assms(1)])
qed

lemma tracked_step:
  assumes "queue_step f s ev s'" "queue_inv (qsys_queue s)" "tracked (qsys_queue s) a x"
  shows "tracked (qsys_queue s') a x"
  using assms(1)
proof cases
  case (step_add a' h' e')
  show ?thesis
  proof (cases "queue_pend (qsys_queue s) a' h'")
    case None
    from queue_add_new [OF assms(2) None, of e'] step_add have
      new: "queue_stat (qsys_queue s') = queue_stat (qsys_queue s)"
      "\<And>h. (a, h) \<noteq> (a', h') \<Longrightarrow> queue_pend (qsys_queue s') a h = queue_pend (qsys_queue s) a h"
      by auto
    have "(a, h) \<noteq> (a', h')" if "queue_pend (qsys_queue s) a h = Some x" for h using None that by auto
    with assms(3) show ?thesis unfolding tracked_def new(1) using new(2) by metis
  next
    case (Some y)
    from queue_add_dup [OF assms(2) Some, of e'] step_add assms(3) show ?thesis by simp
  qed
next
  case (step_deliver a' h')
  then show ?thesis
    using assms(2,3) by (cases x) (auto simp: tracked_def queue_pend_deliver queue_stat_deliver)
next
  case (step_locked shard t)
  then show ?thesis using tracked_locked [OF assms(2)] assms(3) by (cases x) simp
qed (use assms(3) in simp_all)

lemma tracked_expires:
  assumes "queue_inv q" "tracked q a (c, e)" "e < t" "contains_account f shard a"
  shows "queue_stat (queue_update f shard t q) c \<noteq> None"
  using assms by (auto simp: tracked_def queue_stat_update)

lemma queue_step_next: "queue_step f s ev s' \<Longrightarrow> next_channel (qsys_queue s) \<le> next_channel (qsys_queue s')"
  by (induction rule: queue_step.induct)
    (auto simp: add_message_def deliver_message_def queue_update_locked_def Let_def
      split: option.splits prod.splits)

section \<open>The invariant\<close>

text \<open>What may happen to the queue between two looks of a loop at it.\<close>

definition evolves :: "pending_messages_queue \<Rightarrow> pending_messages_queue \<Rightarrow> bool" where
  "evolves q q' \<longleftrightarrow> queue_inv q' \<and> next_channel q \<le> next_channel q' \<and>
     (\<forall>a x. tracked q a x \<longrightarrow> tracked q' a x) \<and>
     (\<forall>c st. queue_stat q c = Some st \<longrightarrow> queue_stat q' c = Some st)"

lemma evolves_refl: "queue_inv q \<Longrightarrow> evolves q q"
  by (simp add: evolves_def)

lemma evolves_step:
  assumes "queue_step f s ev s'" "queue_inv (qsys_queue s)"
  shows "evolves (qsys_queue s) (qsys_queue s')"
  using assms queue_step_inv queue_step_next tracked_step queue_step_stat
  unfolding evolves_def by blast

lemma evolves_add:
  assumes "queue_inv q" "add_message a h e q = (r, q')"
  shows "evolves q q'"
proof -
  let ?s = "\<lparr>qsys_queue = q, qsys_waiting = []\<rparr>"
  have "queue_step f ?s (EvAdd a h e) (?s\<lparr>qsys_queue := snd (add_message a h e (qsys_queue ?s))\<rparr>)" for f
    by (rule step_add)
  from evolves_step [OF this] show ?thesis using assms by simp
qed

text \<open>What \<open>send_ton_message\<close> did before the broadcast.\<close>

lemma enqueue_cases:
  assumes "send_ton_message_enqueue account m e q = (r, q')"
  shows "(\<exists>h. add_message account h e q = (r, q')) \<or> q' = q"
  using assms by (auto simp: send_ton_message_enqueue_def split: ton_header.splits sum.splits)

lemma enqueue_evolves:
  assumes "queue_inv q" "send_ton_message_enqueue account m e q = (r, q')"
  shows "evolves q q'"
  using enqueue_cases [OF assms(2)] evolves_add [OF assms(1)] evolves_refl [OF assms(1)] by blast

lemma enqueue_accepted:
  assumes "queue_inv q" "send_ton_message_enqueue account m e q = (Inr rx, q')"
  shows "rx = next_channel q \<and> next_channel q' = Suc rx \<and> tracked q' account (rx, e)"
proof -
  obtain h where add: "add_message account h e q = (Inr rx, q')"
    using assms(2) by (auto simp: send_ton_message_enqueue_def split: ton_header.splits sum.splits)
  then have "queue_pend q account h = None"
    using queue_add_dup [OF assms(1)] by (cases "queue_pend q account h") auto
  from queue_add_new [OF assms(1) this, of e] add show ?thesis
    by (auto simp: tracked_def add_message_def Let_def split: option.splits)
qed

abbreviation expired :: "pending_messages_queue \<Rightarrow> nat \<times> u32 \<Rightarrow> bool" where
  "expired q x \<equiv> queue_stat q (fst x) = Some Expired"

definition phase_ok :: "pending_messages_queue \<Rightarrow> deliverer \<Rightarrow> bool" where
  "phase_ok q d =
     (case dl_phase d of
        Deciding \<Rightarrow> list_all (expired q) (dl_sent d)
      | Awaiting c \<Rightarrow> dl_sent d \<noteq> [] \<and> fst (last (dl_sent d)) = c
      | Ended (Inr _) \<Rightarrow> list_all (expired q) (dl_sent d) \<or>
          (dl_sent d \<noteq> [] \<and> queue_stat q (fst (last (dl_sent d))) = Some Delivered)
      | Ended (Inl e) \<Rightarrow> True)"

definition deliverer_ok :: "pending_messages_queue \<Rightarrow> deliverer \<Rightarrow> bool" where
  "deliverer_ok q d \<longleftrightarrow>
     list_all (tracked q (um_account (dl_message d))) (dl_sent d) \<and>
     list_all (expired q) (butlast (dl_sent d)) \<and> phase_ok q d"

definition deliverer_channels :: "deliverer list \<Rightarrow> nat list" where
  "deliverer_channels ds = concat (map (\<lambda>d. map fst (dl_sent d)) ds)"

definition delivery_inv :: "delivery_system \<Rightarrow> bool" where
  "delivery_inv v \<longleftrightarrow>
     queue_inv (dsy_pending v) \<and> list_all (deliverer_ok (dsy_pending v)) (dsy_deliverers v) \<and>
     distinct (deliverer_channels (dsy_deliverers v)) \<and>
     list_all (\<lambda>c. c < next_channel (dsy_pending v)) (deliverer_channels (dsy_deliverers v))"

lemma deliverer_ok_evolves:
  assumes "evolves q q'" "deliverer_ok q d"
  shows "deliverer_ok q' d"
proof -
  have "expired q x \<Longrightarrow> expired q' x" "tracked q a x \<Longrightarrow> tracked q' a x"
    "queue_stat q c = Some st \<Longrightarrow> queue_stat q' c = Some st" for x a c st
    using assms(1) unfolding evolves_def by blast+
  then show ?thesis
    using assms(2) unfolding deliverer_ok_def phase_ok_def
    by (auto simp: list_all_iff split: delivery_phase.splits sum.splits)
qed

lemma delivery_inv_queue:
  assumes "delivery_inv v" "evolves (dsy_pending v) (qsys_queue q)"
  shows "delivery_inv (v\<lparr>dsy_queue := q\<rparr>)"
  using assms deliverer_ok_evolves [OF assms(2)] unfolding delivery_inv_def
  by (auto simp: evolves_def list_all_iff dest: order.strict_trans2)

lemma deliverer_channels_update:
  assumes "i < length ds"
  shows "mset (deliverer_channels (ds[i := d])) + mset (map fst (dl_sent (ds ! i))) =
    mset (deliverer_channels ds) + mset (map fst (dl_sent d))"
proof -
  have "deliverer_channels (ds[i := d]) = deliverer_channels (take i ds) @ map fst (dl_sent d) @
      deliverer_channels (drop (Suc i) ds)"
    by (simp add: deliverer_channels_def upd_conv_take_nth_drop [OF assms])
  moreover have "deliverer_channels ds = deliverer_channels (take i ds) @ map fst (dl_sent (ds ! i)) @
      deliverer_channels (drop (Suc i) ds)"
    by (subst id_take_nth_drop [OF assms]) (simp add: deliverer_channels_def)
  ultimately show ?thesis by simp
qed

text \<open>A loop makes a turn: it may have got one new channel.\<close>

lemma delivery_inv_becomes:
  assumes inv: "delivery_inv v" and i: "i < length (dsy_deliverers v)"
    and q: "evolves (dsy_pending v) q" and ok: "deliverer_ok q d"
    and sent: "dl_sent d = dl_sent (dsy_deliverers v ! i) @ new"
    and new: "new = [] \<or> (\<exists>e. new = [(next_channel (dsy_pending v), e)] \<and>
      next_channel (dsy_pending v) < next_channel q)"
  shows "delivery_inv (becomes i d q v)"
proof -
  let ?ds = "dsy_deliverers v"
  have "mset (deliverer_channels (?ds[i := d])) = mset (deliverer_channels ?ds @ map fst new)"
    using deliverer_channels_update [OF i, of d] by (simp add: sent)
  from mset_eq_imp_distinct_iff [OF this] mset_eq_setD [OF this]
  have "distinct (deliverer_channels (?ds[i := d]))"
    "list_all (\<lambda>c. c < next_channel q) (deliverer_channels (?ds[i := d]))"
    using inv new q by (auto simp: delivery_inv_def evolves_def list_all_iff dest: order.strict_trans2)
  moreover have "list_all (deliverer_ok q) (?ds[i := d])"
    using inv ok deliverer_ok_evolves [OF q] set_update_subset_insert [of ?ds i d]
    by (auto simp: delivery_inv_def list_all_iff)
  ultimately show ?thesis
    using q by (simp add: delivery_inv_def becomes_def evolves_def)
qed

lemma deliverer_ok_Nil: "deliverer_ok q \<lparr>dl_message = message, dl_phase = Deciding, dl_sent = []\<rparr>"
  by (simp add: deliverer_ok_def phase_ok_def)

lemma expired_butlast_last:
  "list_all P (butlast xs) \<Longrightarrow> xs \<noteq> [] \<Longrightarrow> P (last xs) \<Longrightarrow> list_all P xs"
  by (cases xs rule: rev_cases) simp_all

lemma ton_sign_account: "ton_sign encode_input key keypair time m = Inr x \<Longrightarrow> sm_account x = um_account m"
  by (auto simp: ton_sign_def Let_def and_then_Inr_iff)

lemma delivery_inv_step:
  assumes "delivery_inv v" "delivery_step f enc key kp out v w"
  shows "delivery_inv w"
proof -
  have queue: "queue_inv (dsy_pending v)" using assms(1) by (simp add: delivery_inv_def)
  have ok: "deliverer_ok (dsy_pending v) (dsy_deliverers v ! i)" if "i < length (dsy_deliverers v)" for i
    using assms(1) that by (simp add: delivery_inv_def list_all_length)
  note same = delivery_inv_becomes [OF assms(1) _ _ _ _ disjI1, where new = "[]", simplified]
  from assms(2) show ?thesis
  proof cases
    case (Queue ev q)
    then show ?thesis
      using delivery_inv_queue [OF assms(1)] evolves_step assms(1) by (auto simp: delivery_inv_def)
  next
    case (Begin message)
    then show ?thesis
      using assms(1) deliverer_ok_Nil by (auto simp: delivery_inv_def deliverer_channels_def)
  next
    case (Stop i d)
    then show ?thesis
      using same [of i] ok [of i] evolves_refl [OF queue]
      by (simp add: deliverer_ok_def phase_ok_def)
  next
    case (Sign_failed i d time e)
    then show ?thesis
      using same [of i] ok [of i] evolves_refl [OF queue]
      by (simp add: deliverer_ok_def phase_ok_def)
  next
    case (Refused i d time m e q)
    then have "evolves (dsy_pending v) q" by (blast intro: enqueue_evolves queue)
    then show ?thesis
      using Refused same [of i q] deliverer_ok_evolves [OF _ ok, of q i]
      by (simp add: deliverer_ok_def phase_ok_def)
  next
    case (Broadcast i d time m rx q ph)
    have ev: "evolves (dsy_pending v) q"
      using Broadcast by (blast intro: enqueue_evolves queue)
    note acc = enqueue_accepted [OF queue Broadcast(6)]
    have "deliverer_ok q d" using deliverer_ok_evolves [OF ev ok] Broadcast by simp
    moreover have "list_all (expired q) (dl_sent d)"
      using \<open>deliverer_ok q d\<close> Broadcast by (simp add: deliverer_ok_def phase_ok_def)
    ultimately have "deliverer_ok q (d\<lparr>dl_phase := ph, dl_sent := dl_sent d @ [(rx, sm_expire_at m)]\<rparr>)"
      using acc Broadcast(5,7) ton_sign_account [OF Broadcast(5)]
      by (auto simp: deliverer_ok_def phase_ok_def)
    then show ?thesis
      unfolding Broadcast(1)
      by (rule delivery_inv_becomes [OF assms(1) Broadcast(2) ev]) (use Broadcast(3) acc in auto)
  next
    case (Retry i d rx)
    then show ?thesis
      using same [of i] ok [of i] evolves_refl [OF queue]
        expired_butlast_last [of "expired (dsy_pending v)" "dl_sent d"]
      by (simp add: deliverer_ok_def phase_ok_def)
  next
    case (Deliver i d rx)
    then show ?thesis
      using same [of i] ok [of i] evolves_refl [OF queue]
      by (simp add: deliverer_ok_def phase_ok_def)
  qed
qed

lemma delivery_reachable_inv: "delivery_reachable f enc key kp out v \<Longrightarrow> delivery_inv v"
  by (induction rule: delivery_reachable.induct)
    (simp add: delivery_inv_def queue_inv_new deliverer_channels_def, rule delivery_inv_step)

section \<open>Property\<close>

text \<open>C8: Deliveries never overlap and never hang, over all interleavings of all delivery loops, the blocks
  and the expirations: a loop has sent a message again only after each one before expired, so at most
  one of its messages can still be accepted; it ends successfully only when its last message was
  delivered or none is left pending; no channel belongs to two messages; and the one a loop waits
  for is answered at the latest by the first update of its shard past the expiration.\<close>

theorem deliveries_never_overlap:
  assumes "delivery_reachable SHARD_FULL encode_input public_key keypair encode_message v"
    and "d \<in> set (dsy_deliverers v)"
  shows "list_all (expired (dsy_pending v)) (butlast (dl_sent d)) \<and>
    (dl_phase d = Ended (Inr ()) \<longrightarrow> list_all (expired (dsy_pending v)) (dl_sent d) \<or>
       queue_stat (dsy_pending v) (fst (last (dl_sent d))) = Some Delivered) \<and>
    distinct (deliverer_channels (dsy_deliverers v)) \<and>
    (\<forall>c. dl_phase d = Awaiting c \<longrightarrow> c = fst (last (dl_sent d)) \<and>
       (\<forall>shard t. snd (last (dl_sent d)) < t \<and>
          contains_account SHARD_FULL shard (um_account (dl_message d)) \<longrightarrow>
          queue_stat (queue_update SHARD_FULL shard t (dsy_pending v)) c \<noteq> None))"
proof -
  have inv: "delivery_inv v" by (rule delivery_reachable_inv [OF assms(1)])
  then have queue: "queue_inv (dsy_pending v)" and ok: "deliverer_ok (dsy_pending v) d"
    using assms(2) by (simp_all add: delivery_inv_def list_all_iff)
  have "queue_stat (queue_update SHARD_FULL shard t (dsy_pending v)) c \<noteq> None"
    if c: "dl_phase d = Awaiting c" and t: "snd (last (dl_sent d)) < t"
      "contains_account SHARD_FULL shard (um_account (dl_message d))" for c shard t
  proof -
    have "dl_sent d \<noteq> []" "fst (last (dl_sent d)) = c"
      using ok c by (simp_all add: deliverer_ok_def phase_ok_def)
    then have "tracked (dsy_pending v) (um_account (dl_message d)) (c, snd (last (dl_sent d)))"
      using ok by (auto simp: deliverer_ok_def list_all_iff)
    from tracked_expires [OF queue this t] show ?thesis .
  qed
  then show ?thesis
    using ok inv by (auto simp: deliverer_ok_def phase_ok_def delivery_inv_def)
qed

section \<open>Witness\<close>

text \<open>A loop whose first message expired and whose second one waits.\<close>

definition example_out :: "unit signed_message \<Rightarrow> out_message" where
  "example_out m = \<lparr>om_header = ExtInHeader (Inr ()), om_cell = Inr (ucast (sm_expire_at m)), om_serialized = Inr ()\<rparr>"

definition example_vote :: unsigned_message where
  "example_vote = unsigned_message_new abi_eth_event_confirm 5"

abbreviation example_delivery :: "delivery_system \<Rightarrow> bool" where
  "example_delivery \<equiv> delivery_reachable (2 ^ 63) (\<lambda>_ _ _ _. Inr ()) 7 () example_out"

definition example_full_shard :: shard_ident where
  "example_full_shard = \<lparr>workchain_id = 0, shard_prefix_with_tag = 2 ^ 63, prefix_len = 0\<rparr>"

definition example_first :: pending_messages_queue where
  "example_first = snd (add_message 5 61 61 queue_new)"

definition example_expired :: pending_messages_queue where
  "example_expired = queue_update_locked (2 ^ 63) example_full_shard 62 example_first"

definition example_second :: pending_messages_queue where
  "example_second = snd (add_message 5 130 130 example_expired)"

definition example_loop :: "delivery_phase \<Rightarrow> (nat \<times> u32) list \<Rightarrow> deliverer" where
  "example_loop ph xs = \<lparr>dl_message = example_vote, dl_phase = ph, dl_sent = xs\<rparr>"

definition example_deliveries ::
  "pending_messages_queue \<Rightarrow> (shard_ident \<times> u32) list \<Rightarrow> deliverer \<Rightarrow> delivery_system" where
  "example_deliveries q waiting d =
     \<lparr>dsy_queue = \<lparr>qsys_queue = q, qsys_waiting = waiting\<rparr>, dsy_deliverers = [d]\<rparr>"

lemma example_expired_eq:
  "example_expired = \<lparr>min_expire_at = u32_MAX, entries = [], entry_count = 0, next_channel = 1,
     sent = [(0, Expired)]\<rparr>"
  by (simp add: example_expired_def example_first_def queue_update_locked_def add_message_def queue_new_def
      contains_account_def example_full_shard_def send_status_def Let_def)

lemma example_signs:
  "ton_sign (\<lambda>_ _ _ _. Inr ()) 7 () 1000 example_vote =
     Inr \<lparr>sm_account = 5, sm_dst_workchain = 0, sm_body = (), sm_expire_at = 61\<rparr>"
  "ton_sign (\<lambda>_ _ _ _. Inr ()) 7 () 70000 example_vote =
     Inr \<lparr>sm_account = 5, sm_dst_workchain = 0, sm_body = (), sm_expire_at = 130\<rparr>"
  by (simp_all add: ton_sign_def example_vote_def unsigned_message_new_def MESSAGE_TTL_SEC_def)

lemma example_sends:
  "send_ton_message_enqueue 5 (example_out \<lparr>sm_account = 5, sm_dst_workchain = 0, sm_body = (), sm_expire_at = 61\<rparr>)
     61 queue_new = (Inr 0, example_first)"
  "send_ton_message_enqueue 5 (example_out \<lparr>sm_account = 5, sm_dst_workchain = 0, sm_body = (), sm_expire_at = 130\<rparr>)
     130 example_expired = (Inr 1, example_second)"
  by (simp_all add: send_ton_message_enqueue_def example_out_def example_first_def example_second_def
      example_expired_eq add_message_def queue_new_def Let_def)

lemma example_delivery_first:
  "example_delivery (example_deliveries example_first [] (example_loop (Awaiting 0) [(0, 61)]))"
proof -
  have begun: "example_delivery (example_deliveries queue_new [] (example_loop Deciding []))"
    using delivery_reachable.Step [OF delivery_reachable.Start delivery_step.Begin [where message = example_vote]]
    by (simp add: example_deliveries_def example_loop_def)
  show ?thesis
    using delivery_reachable.Step [OF begun delivery_step.Broadcast [OF _ refl _ _ _ disjI1 [OF refl],
        where i = 0 and time = 1000 and rx = 0 and q = example_first]]
    by (simp add: example_deliveries_def example_loop_def example_signs example_sends becomes_def)
qed

lemma example_delivery_second:
  "example_delivery (example_deliveries example_second [] (example_loop (Awaiting 1) [(0, 61), (1, 130)]))"
proof -
  let ?d = "example_loop (Awaiting 0) [(0, 61)]"
  have "\<not> 62 \<le> min_expire_at example_first"
    by (simp add: example_first_def add_message_def queue_new_def)
  then have entered: "example_delivery (example_deliveries example_first [(example_full_shard, 62)] ?d)"
    using delivery_reachable.Step [OF example_delivery_first delivery_step.Queue
        [OF step_enter [where shard = example_full_shard and t = 62]]]
    by (simp add: example_deliveries_def)
  then have "example_delivery (example_deliveries example_expired [] ?d)"
    using delivery_reachable.Step [OF entered delivery_step.Queue
        [OF step_locked [where shard = example_full_shard and t = 62]]]
    by (simp add: example_deliveries_def example_expired_def)
  from delivery_reachable.Step [OF this delivery_step.Retry [OF _ refl, where i = 0 and rx = 0]]
  have retry: "example_delivery (example_deliveries example_expired [] (example_loop Deciding [(0, 61)]))"
    by (simp add: example_deliveries_def example_loop_def becomes_def queue_stat_sent example_expired_eq)
  show ?thesis
    using delivery_reachable.Step [OF retry delivery_step.Broadcast [OF _ refl _ _ _ disjI1 [OF refl],
        where i = 0 and time = 70000 and rx = 1 and q = example_second]]
    by (simp add: example_deliveries_def example_loop_def example_signs example_sends becomes_def)
qed

theorem deliveries_never_overlap_witness:
  "queue_stat example_second 0 = Some Expired \<and>
   queue_stat (queue_update (2 ^ 63) example_full_shard 131 example_second) 1 \<noteq> None"
  using deliveries_never_overlap [OF example_delivery_second,
      where d = "example_loop (Awaiting 1) [(0, 61), (1, 130)]"]
  by (simp add: example_deliveries_def example_loop_def contains_account_def example_full_shard_def)

end
