(* ===== verification/Eth_Update.thy ===== *)
theory Eth_Update
  imports Eth_Properties
begin

text \<open>
  One call of \<open>EthSubscriber::update\<close> from its first request to its end, and the loop of
  \<open>EthSubscriber::start\<close> that calls it for ever: the composition of the phases of \<open>Eth_Subscriber\<close>,
  its place among the interleavings of \<open>Eth_Properties\<close>, and how long it takes to catch up.

  \<open>node_replies\<close> is what the node answers during one call, each request with all its attempts.
\<close>

record node_replies =
  nr_height :: "u64 result"
  nr_get_logs :: "log_filter \<Rightarrow> web3_log list result option"
  nr_transaction_receipt :: "h256 \<Rightarrow> web3_receipt option result"
  nr_completion :: "eth_event_id list \<Rightarrow> eth_event_id list"

text \<open>The result is \<open>None\<close> when the call panics, before it has done anything.\<close>

definition eth_update ::
  "(32 word \<Rightarrow> string) \<Rightarrow> ('abi, 'cell) eth_abi_lib \<Rightarrow> node_replies \<Rightarrow>
   ('abi, 'cell) eth_subscriber \<times> (u32, u64) hmap \<Rightarrow>
   unit result option \<times> ('abi, 'cell) eth_subscriber \<times> (u32, u64) hmap" where
  "eth_update show_i32 lib r x =
     (case x of (s, last_block_numbers) \<Rightarrow>
        (case update_prepare show_i32 (nr_height r) s of
           Panicked \<Rightarrow> (None, s, last_block_numbers)
         | Return result \<Rightarrow> (Some result, s, last_block_numbers)
         | Range last_processed_block current_block \<Rightarrow>
             (case process_blocks (nr_get_logs r) (es_topics s) last_processed_block current_block of
                None \<Rightarrow> (Some (Inr ()), s, last_block_numbers)
              | Some (Inl e) \<Rightarrow>
                  (Some (Inl (Context ''Failed processing EVM block in the time range'' e)), s,
                   last_block_numbers)
              | Some (Inr events) \<Rightarrow>
                  (Some (Inr ()), update_commit current_block
                     (update_locked lib (nr_transaction_receipt r) (nr_completion r) current_block
                        events s) last_block_numbers))))"

text \<open>The loop of \<open>start\<close>: an error is logged and the next call follows; a panic ends the task.\<close>

fun eth_run ::
  "(32 word \<Rightarrow> string) \<Rightarrow> ('abi, 'cell) eth_abi_lib \<Rightarrow> node_replies list \<Rightarrow>
   ('abi, 'cell) eth_subscriber \<times> (u32, u64) hmap \<Rightarrow> ('abi, 'cell) eth_subscriber \<times> (u32, u64) hmap"
where
  "eth_run show_i32 lib [] x = x"
| "eth_run show_i32 lib (r # rs) x =
     (case eth_update show_i32 lib r x of
        (None, x') \<Rightarrow> x'
      | (Some result, x') \<Rightarrow> eth_run show_i32 lib rs x')"

section \<open>One call among the interleavings\<close>

text \<open>A call that nothing interrupts is a sequence of steps of the system, from idle to idle.\<close>

lemma eth_update_reachable:
  fixes y :: "('abi, 'cell) eth_system"
  assumes y: "sys_reachable show_i32 lib config start y" "sys_phase y = Idle"
    and r: "nr_height r = Inr height" "height < 2 ^ 63" "completion_order (nr_completion r)"
    and run: "eth_update show_i32 lib r (sys_sub y, sys_last_block_numbers y) = (result, s', lbn')"
  shows "\<exists>windows. sys_reachable show_i32 lib config start
    \<lparr>sys_sub = s', sys_last_block_numbers = lbn', sys_phase = Idle, sys_windows = windows\<rparr>"
proof (cases "update_prepare show_i32 (nr_height r) (sys_sub y)")
  case Panicked
  then have "\<lparr>sys_sub = s', sys_last_block_numbers = lbn', sys_phase = Idle,
      sys_windows = sys_windows y\<rparr> = y"
    using run y(2) by (simp add: eth_update_def)
  with y(1) show ?thesis by metis
next
  case (Return res)
  then have "\<lparr>sys_sub = s', sys_last_block_numbers = lbn', sys_phase = Idle,
      sys_windows = sys_windows y\<rparr> = y"
    using run y(2) by (simp add: eth_update_def)
  with y(1) show ?thesis by metis
next
  case (Range f t)
  have fetching: "sys_reachable show_i32 lib config start (y\<lparr>sys_phase := Fetching f t\<rparr>)"
    using sys_reachable.Step [OF y(1) sys_step.Poll [OF y(2) r(2)]] Range r(1) by simp
  show ?thesis
  proof (cases "\<exists>events. process_blocks (nr_get_logs r) (es_topics (sys_sub y)) f t = Some (Inr events)")
    case False
    then have same: "s' = sys_sub y" "lbn' = sys_last_block_numbers y"
      using run by (auto simp: eth_update_def Range split: option.splits sum.splits)
    have "sys_reachable show_i32 lib config start (y\<lparr>sys_phase := Idle\<rparr>)"
      using sys_reachable.Step [OF fetching sys_step.Fetch_failed] by simp
    moreover have "y\<lparr>sys_phase := Idle\<rparr> = \<lparr>sys_sub = s', sys_last_block_numbers = lbn',
        sys_phase = Idle, sys_windows = sys_windows y\<rparr>"
      by (simp add: same)
    ultimately show ?thesis by metis
  next
    case True
    then obtain events where
      events: "process_blocks (nr_get_logs r) (es_topics (sys_sub y)) f t = Some (Inr events)" by blast
    let ?q = "\<lparr>bq_from = f, bq_to = t, bq_topics = es_topics (sys_sub y),
      bq_get_logs = nr_get_logs r, bq_events = events\<rparr>"
    let ?s = "update_locked lib (nr_transaction_receipt r) (nr_completion r) t events (sys_sub y)"
    have fetched: "sys_reachable show_i32 lib config start (y\<lparr>sys_phase := Fetched ?q\<rparr>)"
      using sys_reachable.Step [OF fetching sys_step.Fetch] events by simp
    have "sys_reachable show_i32 lib config start (y\<lparr>sys_sub := ?s, sys_phase := Resolved ?q\<rparr>)"
      using sys_reachable.Step [OF fetched sys_step.Resolve [OF _ r(3)],
          of ?q "nr_transaction_receipt r"] by simp
    moreover have "update_commit t ?s (sys_last_block_numbers y) = (s', lbn')"
      using run by (simp add: eth_update_def Range events)
    ultimately have "sys_reachable show_i32 lib config start
        \<lparr>sys_sub = s', sys_last_block_numbers = lbn', sys_phase = Idle,
         sys_windows = sys_windows y @ [?q]\<rparr>"
      using sys_reachable.Step [OF _ sys_step.Commit,
          of show_i32 lib config start "y\<lparr>sys_sub := ?s, sys_phase := Resolved ?q\<rparr>" ?q s' lbn']
      by (cases y) simp
    then show ?thesis by blast
  qed
qed

section \<open>Catching up\<close>

text \<open>The node answers: its height is \<open>h\<close> and every request for logs succeeds.\<close>

definition replies_at :: "u64 \<Rightarrow> node_replies \<Rightarrow> bool" where
  "replies_at h r \<longleftrightarrow>
     nr_height r = Inr h \<and> (\<forall>f. \<exists>logs. nr_get_logs r f = Some (Inr logs)) \<and>
     completion_order (nr_completion r)"

definition receipts_available :: "node_replies \<Rightarrow> bool" where
  "receipts_available r \<longleftrightarrow> (\<forall>h. \<exists>receipt. nr_transaction_receipt r h = Inr receipt)"

text \<open>How far one round goes at most.\<close>

definition stride :: "eth_config \<Rightarrow> u64 \<Rightarrow> nat" where
  "stride config h = (case ec_max_block_range config of None \<Rightarrow> unat h | Some m \<Rightarrow> unat m)"

definition registered :: "('abi, 'cell) eth_subscriber \<times> (u32, u64) hmap \<Rightarrow> bool" where
  "registered x \<longleftrightarrow> hm_contains (es_chain_id (fst x)) (snd x)"

lemma eth_update_idle:
  assumes "retry_config_ok (es_config s)" "nr_height r = Inr h" "h \<le> es_last_processed_block s"
  shows "eth_update show_i32 lib r (s, lbn) = (Some (Inr ()), s, lbn)"
  using assms
  by (auto simp: eth_update_def update_prepare_def retry_config_ok_iff split: option.splits)

text \<open>A configuration that panics: the task dies in its first call and leaves all as it was.\<close>

lemma eth_update_panics:
  "\<not> retry_config_ok (es_config s) \<Longrightarrow> eth_update show_i32 lib r (s, lbn) = (None, s, lbn)"
  by (simp add: eth_update_def update_prepare_Panicked [THEN iffD2])

lemma eth_run_panics:
  "\<not> retry_config_ok (es_config s) \<Longrightarrow> eth_run show_i32 lib rs (s, lbn) = (s, lbn)"
  by (cases rs) (simp_all add: eth_update_panics)

lemma eth_update_config: "es_config (fst (snd (eth_update show_i32 lib r x))) = es_config (fst x)"
  by (cases x) (auto simp: eth_update_def update_commit_def
      split: update_start.splits option.splits sum.splits)

lemma eth_run_config: "es_config (fst (eth_run show_i32 lib rs x)) = es_config (fst x)"
proof (induction rs arbitrary: x)
  case (Cons r rs)
  then show ?case
    using eth_update_config [of show_i32 lib r x] by (auto split: prod.splits option.splits)
qed simp

text \<open>A round with something to do moves to the next block of the stride and resolves there.\<close>

lemma eth_update_moves:
  assumes r: "replies_at h r" and cfg: "range_config_ok (es_config s)" "h < 2 ^ 63"
    and retry: "retry_config_ok (es_config s)"
    and behind: "es_last_processed_block s < h" and reg: "registered (s, lbn)"
  obtains events t where
    "unat t = min (unat h) (unat (es_last_processed_block s) + stride (es_config s) h)"
    "eth_update show_i32 lib r (s, lbn) =
      (Some (Inr ()), (update_locked lib (nr_transaction_receipt r) (nr_completion r) t events s)
         \<lparr>es_last_processed_block := t\<rparr>, hm_insert (es_chain_id s) t lbn)"
proof -
  let ?last = "es_last_processed_block s"
  define t where "t = (case ec_max_block_range (es_config s) of
      Some m \<Rightarrow> if ?last + m < h then ?last + m else h | None \<Rightarrow> h)"
  have prep: "update_prepare show_i32 (nr_height r) s = Range ?last t"
    using r retry behind by (simp add: update_prepare_Range replies_at_def t_def not_le)
  obtain events where events: "process_blocks (nr_get_logs r) (es_topics s) ?last t = Some (Inr events)"
  proof (cases "make_filter (es_topics s) ?last t")
    case None
    then show ?thesis using that by (simp add: process_blocks_def)
  next
    case (Some f)
    moreover obtain logs where "nr_get_logs r f = Some (Inr logs)"
      using r by (auto simp: replies_at_def)
    ultimately show ?thesis using that by (simp add: process_blocks_def)
  qed
  have "unat t = min (unat h) (unat ?last + stride (es_config s) h)"
  proof (cases "ec_max_block_range (es_config s)")
    case None
    then show ?thesis by (simp add: t_def stride_def)
  next
    case (Some m)
    then have "m < 2 ^ 63" using cfg by (simp add: range_config_ok_def)
    moreover have "?last < 2 ^ 63" using behind cfg(2) by (rule order.strict_trans)
    ultimately have "unat ?last + unat m < 2 ^ 64"
      by (simp add: word_less_nat_alt)
    then have "unat (?last + m) = unat ?last + unat m"
      by (intro unat_add_nowrap) simp
    then show ?thesis
      by (simp add: Some t_def stride_def word_less_nat_alt)
  qed
  moreover have "eth_update show_i32 lib r (s, lbn) =
      (Some (Inr ()), (update_locked lib (nr_transaction_receipt r) (nr_completion r) t events s)
         \<lparr>es_last_processed_block := t\<rparr>, hm_insert (es_chain_id s) t lbn)"
    using reg by (simp add: eth_update_def prep events update_commit_def registered_def)
  ultimately show ?thesis by (rule that)
qed

lemma eth_run_height:
  assumes "range_config_ok (es_config s)" "h < 2 ^ 63" "es_last_processed_block s \<le> h"
    and "registered (s, lbn)" "list_all (replies_at h) rs" "retry_config_ok (es_config s)"
  shows "unat (es_last_processed_block (fst (eth_run show_i32 lib rs (s, lbn)))) =
    min (unat h) (unat (es_last_processed_block s) + length rs * stride (es_config s) h)"
  using assms
proof (induction rs arbitrary: s lbn)
  case Nil
  then show ?case by (simp add: word_le_nat_alt)
next
  case (Cons r rs)
  show ?case
  proof (cases "es_last_processed_block s < h")
    case False
    then have "es_last_processed_block s = h" using Cons.prems(3) by simp
    then show ?thesis
      using Cons eth_update_idle [of s r h] by (simp add: replies_at_def)
  next
    case True
    from Cons.prems(5) have r: "replies_at h r" by simp
    obtain events t where
      t: "unat t = min (unat h) (unat (es_last_processed_block s) + stride (es_config s) h)" and
      step: "eth_update show_i32 lib r (s, lbn) =
        (Some (Inr ()), (update_locked lib (nr_transaction_receipt r) (nr_completion r) t events s)
           \<lparr>es_last_processed_block := t\<rparr>, hm_insert (es_chain_id s) t lbn)" (is "_ = (_, ?s, ?lbn)")
      using eth_update_moves [OF r Cons.prems(1,2,6) True Cons.prems(4)] by metis
    have "unat (es_last_processed_block (fst (eth_run show_i32 lib rs (?s, ?lbn)))) =
        min (unat h) (unat t + length rs * stride (es_config s) h)"
      using Cons.IH [of ?s ?lbn] Cons.prems t
      by (simp add: registered_def hmap_simps word_le_nat_alt)
    then show ?thesis
      using t step by simp
  qed
qed

section \<open>Answering\<close>











section \<open>Properties\<close>

text \<open>C11: The update loop catches up and then rests, when the retry configuration of its requests can
  be built: while the node stays at one height, the last processed block after \<open>n\<close> calls is the start
  plus \<open>n\<close> strides, cut at that height; so it reaches the height after finitely many calls, and from
  there on a call asks for no logs and changes nothing. When the configuration cannot be built (no
  whole seconds of timeout, or too many retries for 32 bits) the first call panics: the task ends
  and the loop never processes a block.\<close>

theorem update_catches_up:
  assumes "range_config_ok (es_config s)" "h < 2 ^ 63" "es_last_processed_block s \<le> h"
    and "registered (s, lbn)" "list_all (replies_at h) rs"
  shows "if retry_config_ok (es_config s)
    then unat (es_last_processed_block (fst (eth_run show_i32 lib rs (s, lbn)))) =
        min (unat h) (unat (es_last_processed_block s) + length rs * stride (es_config s) h) \<and>
      (unat h - unat (es_last_processed_block s) \<le> length rs * stride (es_config s) h \<and>
       replies_at h r \<longrightarrow>
        eth_update show_i32 lib r (eth_run show_i32 lib rs (s, lbn)) =
          (Some (Inr ()), eth_run show_i32 lib rs (s, lbn)))
    else fst (eth_update show_i32 lib r (s, lbn)) = None \<and>
      eth_run show_i32 lib rs (s, lbn) = (s, lbn)"
proof (cases "retry_config_ok (es_config s)")
  case True
  obtain s' lbn' where run: "eth_run show_i32 lib rs (s, lbn) = (s', lbn')"
    by (cases "eth_run show_i32 lib rs (s, lbn)")
  note height = eth_run_height [OF assms True, of show_i32 lib, unfolded run fst_conv]
  have "h \<le> es_last_processed_block s'"
    if "unat h - unat (es_last_processed_block s) \<le> length rs * stride (es_config s) h"
    using height that by (simp add: word_le_nat_alt)
  moreover have "retry_config_ok (es_config s')"
    using eth_run_config [of show_i32 lib rs "(s, lbn)"] True by (simp add: run)
  ultimately show ?thesis
    using True height eth_update_idle [of s' r h show_i32 lib lbn'] by (auto simp: run replies_at_def)
qed (simp add: eth_run_panics eth_update_panics)


section \<open>Witnesses\<close>

definition example_replies :: node_replies where
  "example_replies = \<lparr>nr_height = Inr 9, nr_get_logs = \<lambda>_. Some (Inr []),
     nr_transaction_receipt = example_receipt, nr_completion = rev\<rparr>"

lemma example_replies_ok: "replies_at 9 example_replies" "receipts_available example_replies"
  by (simp_all add: replies_at_def receipts_available_def example_replies_def example_completion_order
      example_receipt_def)

lemma example_stride: "stride example_config h = 2"
  by (simp add: stride_def example_config_def)

lemma example_config_ok: "range_config_ok example_config"
  by (simp add: range_config_ok_def example_config_def)

lemma example_retry_config_ok: "retry_config_ok example_config"
  by (simp add: retry_config_ok_def example_config_def)

theorem update_catches_up_witness:
  "unat (es_last_processed_block (fst (eth_run (\<lambda>_. []) example_lib [example_replies]
     (example_subscriber, [(1, 5)])))) = 7"
  using update_catches_up [of example_subscriber 9 "[(1, 5)]" "[example_replies]" "\<lambda>_. []" example_lib
      example_replies]
  by (simp add: example_replies_ok example_config_ok example_retry_config_ok example_stride registered_def hm_contains_def
      example_subscriber_def)


end
