(* ===== verification/Eth_Votes.thy ===== *)
theory Eth_Votes
  imports Eth_Properties Bridge_Events_Props
begin

text \<open>
  Votes for ETH events from end to end: the tasks of \<open>Bridge::update_eth_event\<close>, each of which waits in
  \<open>EthSubscriber::verify\<close>, composed with the subscriber of their chain and with the configurations
  that the bridge keeps. Three histories are recorded and never read by the code: the configurations
  so far, the rounds of the subscriber, and the messages handed to \<open>deliver_message\<close>.
\<close>

section \<open>The composed system\<close>

text \<open>A task holds what \<open>update_eth_event\<close> has read before it waits.\<close>

record ('acc, 'abi, 'cell) eth_task =
  et_account :: uint256
  et_contract :: "'acc existing_contract"
  et_vote_data :: "'cell eth_event_vote_data"
  et_event_emitter :: h160
  et_event_abi :: 'abi
  et_blocks_to_confirm :: u16
  et_channel :: channel

record evm_round =
  rd_block :: u64
  rd_events :: "parsed_eth_event list"
  rd_receipt :: "h256 \<Rightarrow> web3_receipt option result"

type_synonym ('abi, 'cell) eth_configurations =
  "(uint256, ('abi, 'cell) eth_event_configuration_state) hmap"

record ('acc, 'abi, 'cell) vote_system =
  vs_evm :: "('abi, 'cell) eth_system"
  vs_configurations :: "('abi, 'cell) eth_configurations list" \<comment> \<open>the current ones first\<close>
  vs_tasks :: "('acc, 'abi, 'cell) eth_task list"
  vs_rounds :: "evm_round list"
  vs_messages :: "(('acc, 'abi, 'cell) eth_task \<times> unsigned_message option) list"

abbreviation vs_subscriber :: "('acc, 'abi, 'cell) vote_system \<Rightarrow> ('abi, 'cell) eth_subscriber" where
  "vs_subscriber v \<equiv> sys_sub (vs_evm v)"

text \<open>The end of a task: the message, unless verification failed or the event is gone.\<close>

definition task_result ::
  "('acc, 'abi, 'cell) eth_task \<Rightarrow> observer option \<Rightarrow> verification_status result \<Rightarrow>
   (('acc, 'abi, 'cell) eth_task \<times> unsigned_message option) list" where
  "task_result task eth_event_observer verification =
     (case (update_eth_event_message (et_account task) verification, eth_event_observer) of
        (Some message, Some _) \<Rightarrow> [(task, message)]
      | _ \<Rightarrow> [])"

inductive vote_step ::
  "(32 word \<Rightarrow> string) \<Rightarrow> ('abi, 'cell) eth_abi_lib \<Rightarrow> ('acc, 'tok, 'cell) ton_lib \<Rightarrow> uint256 \<Rightarrow>
   ('acc, 'abi, 'cell) vote_system \<Rightarrow> ('acc, 'abi, 'cell) vote_system \<Rightarrow> bool"
  for show_i32 lib ton our_public_key where
  Other: "sys_step show_i32 lib (vs_evm v) y \<Longrightarrow>
    es_pending_confirmations (sys_sub y) = es_pending_confirmations (vs_subscriber v) \<Longrightarrow>
    es_answers (sys_sub y) = es_answers (vs_subscriber v) \<Longrightarrow>
    es_next_channel (sys_sub y) = es_next_channel (vs_subscriber v) \<Longrightarrow>
    vote_step show_i32 lib ton our_public_key v (v\<lparr>vs_evm := y\<rparr>)"
| Round: "sys_phase (vs_evm v) = Fetched q \<Longrightarrow> completion_order order \<Longrightarrow>
    vote_step show_i32 lib ton our_public_key v
      (v\<lparr>vs_evm := (vs_evm v)\<lparr>sys_sub :=
             update_locked lib receipt order (bq_to q) (bq_events q) (vs_subscriber v),
           sys_phase := Resolved q\<rparr>,
         vs_rounds := vs_rounds v @
           [\<lparr>rd_block = bq_to q, rd_events = bq_events q, rd_receipt = receipt\<rparr>]\<rparr>)"
| Configure: "vote_step show_i32 lib ton our_public_key v
    (v\<lparr>vs_configurations := configurations # vs_configurations v\<rparr>)"
| Verify: "update_eth_event_decide ton our_public_key (\<lambda>chain. chain = es_chain_id (vs_subscriber v))
      (hd (vs_configurations v)) (Inr contract) = EthVerify chain vd em abi n \<Longrightarrow>
    verify vd em abi n (vs_subscriber v) = (s', ch) \<Longrightarrow>
    vote_step show_i32 lib ton our_public_key v
      (v\<lparr>vs_evm := (vs_evm v)\<lparr>sys_sub := s'\<rparr>,
         vs_tasks := vs_tasks v @ [\<lparr>et_account = account, et_contract = contract, et_vote_data = vd,
           et_event_emitter = em, et_event_abi = abi, et_blocks_to_confirm = n, et_channel = ch\<rparr>]\<rparr>)"
| Finish: "task \<in> set (vs_tasks v) \<Longrightarrow> receive (vs_subscriber v) (et_channel task) = Some status \<Longrightarrow>
    vote_step show_i32 lib ton our_public_key v
      (v\<lparr>vs_tasks := remove1 task (vs_tasks v),
         vs_messages := vs_messages v @ task_result task eth_event_observer status\<rparr>)"

inductive vote_reachable ::
  "(32 word \<Rightarrow> string) \<Rightarrow> ('abi, 'cell) eth_abi_lib \<Rightarrow> ('acc, 'tok, 'cell) ton_lib \<Rightarrow> uint256 \<Rightarrow>
   eth_config \<Rightarrow> u64 \<Rightarrow> ('acc, 'abi, 'cell) vote_system \<Rightarrow> bool"
  for show_i32 lib ton our_public_key config start where
  Start: "start < 2 ^ 63 \<Longrightarrow> range_config_ok config \<Longrightarrow>
    eth_subscriber_new lbn config (Inr start) = Inr (s, lbn') \<Longrightarrow>
    vote_reachable show_i32 lib ton our_public_key config start
      \<lparr>vs_evm = \<lparr>sys_sub = s, sys_last_block_numbers = lbn', sys_phase = Idle, sys_windows = []\<rparr>,
       vs_configurations = [[]], vs_tasks = [], vs_rounds = [], vs_messages = []\<rparr>"
| Step: "vote_reachable show_i32 lib ton our_public_key config start v \<Longrightarrow>
    vote_step show_i32 lib ton our_public_key v w \<Longrightarrow>
    vote_reachable show_i32 lib ton our_public_key config start w"

text \<open>Seen from the subscriber alone, the composed system is one of its own interleavings.\<close>

lemma vote_reachable_sys:
  "vote_reachable show_i32 lib ton key config start v \<Longrightarrow>
   sys_reachable show_i32 lib config start (vs_evm v)"
proof (induction rule: vote_reachable.induct)
  case (Start lbn s lbn')
  then show ?case using sys_reachable.Start [OF Start] by simp
next
  case (Step v w)
  from Step(2) show ?case
  proof cases
    case (Other y)
    then show ?thesis using sys_reachable.Step [OF Step(3)] by simp
  next
    case (Round q order receipt)
    then show ?thesis using sys_reachable.Step [OF Step(3) sys_step.Resolve] by simp
  next
    case (Verify contract chain vd em abi n s' ch account)
    then show ?thesis
      using sys_reachable.Step [OF Step(3) sys_step.Verify, of vd em abi n] by (simp add: prod_eq_iff)
  qed (use Step(3) in simp_all)
qed

section \<open>What justifies a vote\<close>

text \<open>The conditions are written out over the event, the task and the configuration; \<open>evidence\<close> is a
  log of a successful receipt that was read in a round at or after the target block.\<close>

definition task_event_id :: "('acc, 'abi, 'cell) eth_task \<Rightarrow> eth_event_id" where
  "task_event_id task =
     (evd_event_transaction (et_vote_data task), evd_event_index (et_vote_data task))"

definition event_agrees ::
  "('abi, 'cell) eth_abi_lib \<Rightarrow> ('acc, 'abi, 'cell) eth_task \<Rightarrow> received_eth_event \<Rightarrow> bool" where
  "event_agrees lib task ev \<longleftrightarrow>
     rc_address ev = et_event_emitter task \<and>
     rc_topic_hash ev = get_eth_topic_hash lib (et_event_abi task) \<and>
     rc_transaction_hash ev = evd_event_transaction (et_vote_data task) \<and>
     rc_event_index ev = evd_event_index (et_vote_data task) \<and>
     unat (rc_block_number ev) = unat (evd_event_block_number (et_vote_data task)) \<and>
     rc_block_hash ev = evd_event_block (et_vote_data task) \<and>
     (\<exists>data. decode_and_map lib (et_event_abi task) (rc_data ev) = Inr data \<and>
        repr_hash lib data = repr_hash lib (evd_event_data (et_vote_data task)))"

definition block_reached :: "('acc, 'abi, 'cell) eth_task \<Rightarrow> evm_round \<Rightarrow> bool" where
  "block_reached task rd \<longleftrightarrow>
     unat (evd_event_block_number (et_vote_data task)) + unat (et_blocks_to_confirm task)
       \<le> unat (rd_block rd)"

definition evidence ::
  "('abi, 'cell) eth_abi_lib \<Rightarrow> ('acc, 'abi, 'cell) eth_task \<Rightarrow> evm_round \<Rightarrow> bool" where
  "evidence lib task rd \<longleftrightarrow> block_reached task rd \<and>
     (\<exists>receipt log ev. rd_receipt rd (evd_event_transaction (et_vote_data task)) = Inr (Some receipt) \<and>
        receipt_status receipt = Some 1 \<and> log \<in> set (receipt_logs receipt) \<and>
        parsed_eth_event_try_from log = Inr (Received ev) \<and> event_agrees lib task ev)"

text \<open>An event of a block range, or the receipt at its time, that speaks against the vote.\<close>

definition disputes ::
  "('abi, 'cell) eth_abi_lib \<Rightarrow> ('acc, 'abi, 'cell) eth_task \<Rightarrow> parsed_eth_event \<Rightarrow> bool" where
  "disputes lib task e \<longleftrightarrow>
     event_id e = task_event_id task \<and> (\<forall>ev. e = Received ev \<longrightarrow> \<not> event_agrees lib task ev)"

definition disputed ::
  "('abi, 'cell) eth_abi_lib \<Rightarrow> ('acc, 'abi, 'cell) eth_task \<Rightarrow> evm_round \<Rightarrow> bool" where
  "disputed lib task rd \<longleftrightarrow> list_ex (disputes lib task) (rd_events rd)"

definition contradicted ::
  "('abi, 'cell) eth_abi_lib \<Rightarrow> ('acc, 'abi, 'cell) eth_task \<Rightarrow> evm_round \<Rightarrow> bool" where
  "contradicted lib task rd \<longleftrightarrow> block_reached task rd \<and>
     (\<exists>found. find_event (rd_receipt rd) (task_event_id task) = Inr found \<and>
        (\<forall>ev. found = Some (Received ev) \<longrightarrow> \<not> event_agrees lib task ev))"

fun justified ::
  "('abi, 'cell) eth_abi_lib \<Rightarrow> evm_round list \<Rightarrow> ('acc, 'abi, 'cell) eth_task \<Rightarrow>
   verification_status \<Rightarrow> bool" where
  "justified lib rounds task Exists = list_ex (evidence lib task) rounds"
| "justified lib rounds task NotExists =
     (list_ex (disputed lib task) rounds \<or> list_ex (contradicted lib task) rounds)"

lemma justified_mono: "justified lib rounds task st \<Longrightarrow> justified lib (rounds @ later) task st"
  by (cases st) auto

text \<open>What the contract and a configuration of the bridge said when the task began.\<close>

definition decided ::
  "('acc, 'tok, 'cell) ton_lib \<Rightarrow> uint256 \<Rightarrow> u32 \<Rightarrow> ('abi, 'cell) eth_configurations list \<Rightarrow>
   ('acc, 'abi, 'cell) eth_task \<Rightarrow> bool" where
  "decided ton key chain history task \<longleftrightarrow>
     event_process ton (et_contract task) key False = Inr Vote \<and>
     (\<exists>data configurations configuration.
        eth_event_get_init_data ton (et_contract task) = Inr data \<and>
        configurations \<in> set history \<and>
        hm_get configurations (eid_configuration data) = Some configuration \<and>
        et_vote_data task = eid_vote_data data \<and> et_event_abi task = ecs_event_abi configuration \<and>
        (let network = ecd_network_configuration (ecs_details configuration)
         in eec_chain_id network = chain \<and> eec_event_emitter network = et_event_emitter task \<and>
            eec_event_blocks_to_confirm network = et_blocks_to_confirm task))"

section \<open>The invariant\<close>

definition conforms ::
  "('abi, 'cell) eth_abi_lib \<Rightarrow> evm_round list \<Rightarrow> ('acc, 'abi, 'cell) eth_task \<Rightarrow> eth_event_id \<Rightarrow>
   ('abi, 'cell) pending_confirmation \<Rightarrow> bool" where
  "conforms lib rounds task k c \<longleftrightarrow>
     k = task_event_id task \<and> pc_vote_data c = et_vote_data task \<and>
     pc_event_emitter c = et_event_emitter task \<and> pc_event_abi c = et_event_abi task \<and>
     unat (pc_target_block c) =
       unat (evd_event_block_number (et_vote_data task)) + unat (et_blocks_to_confirm task) \<and>
     (pc_status c = Invalid \<longrightarrow> list_ex (disputed lib task) rounds)"

definition task_ok ::
  "('abi, 'cell) eth_abi_lib \<Rightarrow> evm_round list \<Rightarrow> ('abi, 'cell) eth_subscriber \<Rightarrow>
   ('acc, 'abi, 'cell) eth_task \<Rightarrow> bool" where
  "task_ok lib rounds s task \<longleftrightarrow>
     et_channel task < es_next_channel s \<and>
     (\<forall>k c. hm_get (es_pending_confirmations s) k = Some c \<longrightarrow>
        pc_status_tx c = Some (et_channel task) \<longrightarrow> conforms lib rounds task k c) \<and>
     (\<forall>st. (et_channel task, Some st) \<in> set (es_answers s) \<longrightarrow> justified lib rounds task st)"

definition vote_message :: "verification_status \<Rightarrow> uint256 \<Rightarrow> unsigned_message option" where
  "vote_message st account =
     (case st of Exists \<Rightarrow> eth_event_confirm_message account
      | NotExists \<Rightarrow> eth_event_reject_message account)"

definition message_ok ::
  "('abi, 'cell) eth_abi_lib \<Rightarrow> evm_round list \<Rightarrow>
   ('acc, 'abi, 'cell) eth_task \<times> unsigned_message option \<Rightarrow> bool" where
  "message_ok lib rounds x \<longleftrightarrow>
     (\<exists>st. justified lib rounds (fst x) st \<and> snd x = vote_message st (et_account (fst x)))"

lemma message_ok_mono: "message_ok lib rounds x \<Longrightarrow> message_ok lib (rounds @ later) x"
  by (auto simp: message_ok_def intro: justified_mono)

definition vote_inv ::
  "('abi, 'cell) eth_abi_lib \<Rightarrow> ('acc, 'tok, 'cell) ton_lib \<Rightarrow> uint256 \<Rightarrow> u32 \<Rightarrow>
   ('acc, 'abi, 'cell) vote_system \<Rightarrow> bool" where
  "vote_inv lib ton key chain v \<longleftrightarrow>
     vs_configurations v \<noteq> [] \<and> es_chain_id (vs_subscriber v) = chain \<and>
     distinct (map et_channel (vs_tasks v @ map fst (vs_messages v))) \<and>
     (\<forall>task \<in> set (vs_tasks v). task_ok lib (vs_rounds v) (vs_subscriber v) task \<and>
        decided ton key chain (vs_configurations v) task) \<and>
     (\<forall>x \<in> set (vs_messages v).
        et_channel (fst x) < es_next_channel (vs_subscriber v) \<and>
        decided ton key chain (vs_configurations v) (fst x) \<and> message_ok lib (vs_rounds v) x)"

lemma decided_mono:
  "decided ton key chain history task \<Longrightarrow> decided ton key chain (configurations # history) task"
  unfolding decided_def by (meson list.set_intros(2))

lemma pc_check_agrees:
  "conforms lib rounds task k c \<Longrightarrow> pc_check lib c ev = Exists \<longleftrightarrow> event_agrees lib task ev"
  by (simp add: check_exact event_agrees_def conforms_def)

lemma event_sets_status_Invalid:
  assumes "conforms lib rounds task k c" "event_id e = k" "event_sets_status lib c e = Invalid"
  shows "disputes lib task e"
proof (cases e)
  case (Received ev)
  then have "pc_check lib c ev \<noteq> Exists" using assms(3) by (auto simp: event_sets_status_def)
  then show ?thesis
    using assms(1,2) pc_check_agrees [OF assms(1), of ev] Received
    by (simp add: disputes_def conforms_def)
next
  case (Removed r)
  then show ?thesis using assms(1,2) by (simp add: disputes_def conforms_def)
qed

lemma conforms_with_status:
  assumes "conforms lib rounds task k c" "rd_events rd = events"
  shows "conforms lib (rounds @ [rd]) task k (with_status lib events k c)"
proof -
  have "list_ex (disputed lib task) (rounds @ [rd])" if invalid: "status_after lib events k c = Invalid"
  proof (cases "List.find (\<lambda>e. event_id e = k) (rev events)")
    case None
    then have "pc_status c = Invalid" using invalid by (simp add: status_after_def)
    then show ?thesis using assms(1) by (simp add: conforms_def)
  next
    case (Some e)
    then have "e \<in> set events" "event_id e = k" by (auto dest: find_SomeD)
    moreover have "event_sets_status lib c e = Invalid"
      using invalid Some by (simp add: status_after_def)
    ultimately have "disputed lib task rd"
      using event_sets_status_Invalid [OF assms(1)] assms(2) by (auto simp: disputed_def list_ex_iff)
    then show ?thesis by simp
  qed
  then show ?thesis
    using assms(1) by (auto simp: conforms_def with_status_def)
qed

text \<open>The resolution of a conforming confirmation is justified by the round that made it.\<close>

lemma resolution_justified:
  assumes c: "conforms lib rounds task k (with_status lib events k c)"
    and res: "resolution lib (rd_receipt rd) (rd_block rd) k (with_status lib events k c) = Some st"
    and rd: "rd \<in> set rounds"
  shows "justified lib rounds task st"
proof -
  let ?c = "with_status lib events k c"
  have "pc_target_block ?c \<le> rd_block rd"
    using res by (auto simp: resolution_def not_less split: if_splits)
  moreover have "unat (pc_target_block ?c) =
      unat (evd_event_block_number (et_vote_data task)) + unat (et_blocks_to_confirm task)"
    using c unfolding conforms_def by blast
  ultimately have reached: "block_reached task rd"
    by (simp add: block_reached_def word_le_nat_alt)
  have k: "k = task_event_id task" "fst k = evd_event_transaction (et_vote_data task)"
    using c by (simp_all add: conforms_def task_event_id_def)
  show ?thesis
  proof (cases st)
    case Exists
    from resolution_Exists [OF res [unfolded Exists]] obtain receipt log ev where
      "rd_receipt rd (fst k) = Inr (Some receipt)" "receipt_status receipt = Some 1"
      "log \<in> set (receipt_logs receipt)" "parsed_eth_event_try_from log = Inr (Received ev)"
      "pc_check lib ?c ev = Exists"
      by (auto simp: with_status_def)
    then have "evidence lib task rd"
      using reached pc_check_agrees [OF c] by (auto simp: evidence_def k(2))
    then show ?thesis using rd Exists by (auto simp: list_ex_iff)
  next
    case NotExists
    show ?thesis
    proof (cases "pc_status ?c = Invalid")
      case True
      then show ?thesis using c NotExists by (simp add: conforms_def)
    next
      case False
      then have "verdict lib ?c (find_event (rd_receipt rd) k) = Some NotExists"
        using res NotExists by (auto simp: resolution_def split: if_splits)
      then obtain found where "find_event (rd_receipt rd) k = Inr found"
        "\<forall>ev. found = Some (Received ev) \<longrightarrow> pc_check lib ?c ev = NotExists"
        by (auto simp: verdict_def split: sum.splits option.splits parsed_eth_event.splits)
      moreover from this have "\<forall>ev. found = Some (Received ev) \<longrightarrow> \<not> event_agrees lib task ev"
        using pc_check_agrees [OF c] by (metis verification_status.distinct(1))
      ultimately have "contradicted lib task rd"
        using reached by (auto simp: contradicted_def k(1))
      then show ?thesis using rd NotExists by (auto simp: list_ex_iff)
    qed
  qed
qed

lemma task_ok_round:
  fixes t :: u64 and events :: "parsed_eth_event list" and receipt :: "h256 \<Rightarrow> web3_receipt option result"
  assumes ok: "task_ok lib rounds s task" and wf: "hm_wf (es_pending_confirmations s)"
    and order: "completion_order order"
  defines "rd \<equiv> \<lparr>rd_block = t, rd_events = events, rd_receipt = receipt\<rparr>"
  shows "task_ok lib (rounds @ [rd]) (update_locked lib receipt order t events s) task"
  unfolding task_ok_def
proof (intro conjI allI impI)
  let ?s = "update_locked lib receipt order t events s"
  show "et_channel task < es_next_channel ?s"
    using ok by (simp add: task_ok_def update_locked_eq(4) [OF wf order])
  show "conforms lib (rounds @ [rd]) task k c"
    if "hm_get (es_pending_confirmations ?s) k = Some c" "pc_status_tx c = Some (et_channel task)" for k c
  proof -
    from that obtain c' where "hm_get (es_pending_confirmations s) k = Some c'"
      "c = with_status lib events k c'"
      by (auto simp: update_locked_get [OF wf order] split: option.splits if_splits)
    moreover from this have "pc_status_tx c' = Some (et_channel task)" using that(2) by simp
    ultimately have "conforms lib rounds task k c'" "c = with_status lib events k c'"
      using ok unfolding task_ok_def by blast+
    then show ?thesis
      using conforms_with_status [of lib rounds task k c' rd events] by (simp add: rd_def)
  qed
  show "justified lib (rounds @ [rd]) task st"
    if ans: "(et_channel task, Some st) \<in> set (es_answers ?s)" for st
  proof (cases "(et_channel task, Some st) \<in> set (es_answers s)")
    case True
    then show ?thesis using ok by (auto simp: task_ok_def intro: justified_mono)
  next
    case False
    from new_answer_resolution [OF wf order ans False] obtain k c where
      kc: "hm_get (es_pending_confirmations s) k = Some c" "pc_status_tx c = Some (et_channel task)"
      "resolution lib receipt t k (with_status lib events k c) = Some st" by auto
    have "conforms lib rounds task k c" using ok kc(1,2) unfolding task_ok_def by blast
    then have "conforms lib (rounds @ [rd]) task k (with_status lib events k c)"
      by (rule conforms_with_status) (simp add: rd_def)
    then show ?thesis
      by (rule resolution_justified [where rd = rd]) (use kc(3) in \<open>simp_all add: rd_def\<close>)
  qed
qed

lemma verify_unfold:
  assumes "verify vd em abi n s = (s', ch)"
  shows "ch = es_next_channel s" "es_next_channel s' = Suc ch"
    "es_pending_confirmations s' = hm_insert (evd_event_transaction vd, evd_event_index vd)
       \<lparr>pc_vote_data = vd, pc_status_tx = Some ch, pc_event_emitter = em, pc_event_abi = abi,
        pc_target_block = ucast (evd_event_block_number vd) + ucast n, pc_status = InProcess\<rparr>
       (es_pending_confirmations s)"
    "(x, Some st) \<in> set (es_answers s') \<longleftrightarrow> (x, Some st) \<in> set (es_answers s)"
    "es_chain_id s' = es_chain_id s"
  using assms by (auto simp: verify_def Let_def split: option.splits)

lemma task_ok_verify:
  assumes ok: "task_ok lib rounds s task" and v: "verify vd em abi n s = (s', ch)"
  shows "task_ok lib rounds s' task"
  using ok verify_unfold [OF v] by (auto simp: task_ok_def hm_get_insert split: if_splits)

lemma unat_target_block:
  "unat (ucast (b :: u32) + ucast (n :: u16) :: u64) = unat b + unat n"
proof -
  have "unat b < 2 ^ 32" "unat n < 2 ^ 16" by (rule unat_u32_bound unat_u16_bound)+
  then have "unat b + unat n < 2 ^ 32 + 2 ^ 16" by (rule add_strict_mono)
  then have "unat b + unat n < 2 ^ 64" by simp
  then show ?thesis
    using unat_add_nowrap [of "ucast b :: u64" "ucast n"] by (simp add: unat_ucast_up)
qed

lemma task_ok_new:
  assumes inv: "subscriber_inv s" and v: "verify vd em abi n s = (s', ch)"
    and task: "et_vote_data task = vd" "et_event_emitter task = em" "et_event_abi task = abi"
      "et_blocks_to_confirm task = n" "et_channel task = ch"
  shows "task_ok lib rounds s' task"
proof -
  note u = verify_unfold [OF v]
  note channels = subscriber_inv_channels [OF inv]
  have old: "pc_status_tx c \<noteq> Some ch" if "hm_get (es_pending_confirmations s) k = Some c" for k c
  proof
    assume "pc_status_tx c = Some ch"
    then have "ch \<in> set (waiting_channels (es_pending_confirmations s))"
      using hm_get_in_set [OF that] by (force simp: waiting_channels_def)
    then show False using channels(3) u(1) by auto
  qed
  have "(ch, Some st) \<notin> set (es_answers s')" for st
  proof
    assume "(ch, Some st) \<in> set (es_answers s')"
    then have "ch \<in> fst ` set (es_answers s)" by (force simp: u(4))
    then show False using channels(3) u(1) by auto
  qed
  then show ?thesis
    using old by (auto simp: task_ok_def u(2,3) task hm_get_insert conforms_def
        task_event_id_def unat_target_block split: if_splits)
qed

lemma task_ok_same:
  assumes "task_ok lib rounds s task"
    and "es_pending_confirmations s' = es_pending_confirmations s" "es_answers s' = es_answers s"
    and "es_next_channel s' = es_next_channel s"
  shows "task_ok lib rounds s' task"
  using assms by (simp add: task_ok_def)

lemma sys_step_chain_id: "sys_step show_i32 lib y z \<Longrightarrow> es_chain_id (sys_sub z) = es_chain_id (sys_sub y)"
  by (induction rule: sys_step.induct)
    (auto simp: eth_subscribe_def eth_unsubscribe_def update_commit_def split: if_splits)

lemma decided_verify:
  assumes "update_eth_event_decide ton key (\<lambda>c. c = chain) (hd history) (Inr contract) =
      EthVerify chain' vd em abi n" "history \<noteq> []"
    and "et_contract task = contract" "et_vote_data task = vd" "et_event_emitter task = em"
      "et_event_abi task = abi" "et_blocks_to_confirm task = n"
  shows "decided ton key chain history task"
proof -
  from assms(1) obtain data configuration where
    "event_process ton contract key False = Inr Vote"
    "eth_event_get_init_data ton contract = Inr data"
    "hm_get (hd history) (eid_configuration data) = Some configuration" "vd = eid_vote_data data"
    "chain' = eec_chain_id (ecd_network_configuration (ecs_details configuration))" "chain' = chain"
    "em = eec_event_emitter (ecd_network_configuration (ecs_details configuration))"
    "abi = ecs_event_abi configuration"
    "n = eec_event_blocks_to_confirm (ecd_network_configuration (ecs_details configuration))"
    unfolding eth_vote_follows_configuration by blast
  then show ?thesis
    unfolding decided_def Let_def using assms(2-) by (intro conjI exI [of _ data]
        exI [of _ "hd history"] exI [of _ configuration]) simp_all
qed

lemma task_result_cases:
  assumes "(task', message) \<in> set (task_result task ob verification)"
  shows "task' = task \<and> (\<exists>st. verification = Inr st \<and> message = vote_message st (et_account task))"
  using assms
  by (auto simp: task_result_def update_eth_event_message_def vote_message_def
      split: option.splits sum.splits verification_status.splits)

lemma task_result_tasks: "map fst (task_result task ob verification) \<in> {[], [task]}"
  by (auto simp: task_result_def split: option.splits)

lemma receive_Inr: "receive s ch = Some (Inr st) \<Longrightarrow> (ch, Some st) \<in> set (es_answers s)"
  by (auto simp: receive_def split: option.splits dest: map_of_SomeD)

lemma vote_inv_Round:
  assumes inv: "vote_inv lib ton key chain v" and wf: "subscriber_inv (vs_subscriber v)"
    and order: "completion_order order"
  shows "vote_inv lib ton key chain
    (v\<lparr>vs_evm := (vs_evm v)\<lparr>sys_sub := update_locked lib receipt order t events (vs_subscriber v),
         sys_phase := ph\<rparr>,
       vs_rounds := vs_rounds v @ [\<lparr>rd_block = t, rd_events = events, rd_receipt = receipt\<rparr>]\<rparr>)"
proof -
  have wf': "hm_wf (es_pending_confirmations (vs_subscriber v))"
    using wf by (simp add: subscriber_inv_def)
  show ?thesis
    using inv task_ok_round [OF _ wf' order, where lib = lib and rounds = "vs_rounds v" and t = t
        and events = events and receipt = receipt]
    by (auto simp: vote_inv_def update_locked_eq(4) [OF wf' order] intro: message_ok_mono)
qed

lemma vote_inv_Verify:
  fixes v :: "('acc, 'abi, 'cell) vote_system" and task :: "('acc, 'abi, 'cell) eth_task"
  assumes inv: "vote_inv lib ton key chain v" and wf: "subscriber_inv (vs_subscriber v)"
    and dec: "update_eth_event_decide ton key (\<lambda>c. c = es_chain_id (vs_subscriber v))
      (hd (vs_configurations v)) (Inr contract) = EthVerify chain' vd em abi n"
    and ver: "verify vd em abi n (vs_subscriber v) = (s', ch)"
    and task_def: "task = \<lparr>et_account = account, et_contract = contract, et_vote_data = vd,
    et_event_emitter = em, et_event_abi = abi, et_blocks_to_confirm = n, et_channel = ch\<rparr>"
  shows "vote_inv lib ton key chain
    (v\<lparr>vs_evm := (vs_evm v)\<lparr>sys_sub := s'\<rparr>, vs_tasks := vs_tasks v @ [task]\<rparr>)"
proof -
  have new: "task_ok lib (vs_rounds v) s' task"
    by (rule task_ok_new [OF wf ver]) (simp_all add: task_def)
  have "decided ton key chain (vs_configurations v) task"
    using inv dec by (intro decided_verify [where contract = contract and chain' = chain' and vd = vd
        and em = em and abi = abi and n = n]) (auto simp: task_def vote_inv_def)
  moreover have "et_channel x < ch" if "x \<in> set (vs_tasks v @ map fst (vs_messages v))" for x
    using that inv verify_unfold(1) [OF ver] by (auto simp: vote_inv_def task_ok_def)
  then have "ch \<notin> et_channel ` set (vs_tasks v @ map fst (vs_messages v))" by fastforce
  moreover have "et_channel task = ch" by (simp add: task_def)
  moreover have "task_ok lib (vs_rounds v) s' x" if "x \<in> set (vs_tasks v)" for x
    by (rule task_ok_verify [OF _ ver]) (use inv that in \<open>simp add: vote_inv_def\<close>)
  ultimately show ?thesis
    using inv new verify_unfold(1,2,5) [OF ver] by (auto simp: vote_inv_def)
qed

lemma vote_inv_Finish:
  assumes inv: "vote_inv lib ton key chain v" and task: "task \<in> set (vs_tasks v)"
    and rec: "receive (vs_subscriber v) (et_channel task) = Some verification"
  shows "vote_inv lib ton key chain
    (v\<lparr>vs_tasks := remove1 task (vs_tasks v),
       vs_messages := vs_messages v @ task_result task ob verification\<rparr>)"
proof -
  let ?result = "task_result task ob verification"
  have dist: "distinct (map et_channel (vs_tasks v @ map fst (vs_messages v)))"
    using inv by (simp add: vote_inv_def)
  have "distinct (map et_channel (remove1 task (vs_tasks v) @ map fst (vs_messages v @ ?result)))"
  proof -
    have "mset (map et_channel (task # remove1 task (vs_tasks v) @ map fst (vs_messages v))) =
        mset (map et_channel (vs_tasks v @ map fst (vs_messages v)))"
      using task by (simp add: image_mset_Diff mset_remove1)
    then have "distinct (map et_channel (task # remove1 task (vs_tasks v) @ map fst (vs_messages v)))"
      using dist mset_eq_imp_distinct_iff by blast
    then show ?thesis
      using task_result_tasks [of task ob verification] by (elim insertE) (fastforce simp: image_iff)+
  qed
  moreover have "et_channel (fst x) < es_next_channel (vs_subscriber v) \<and>
      decided ton key chain (vs_configurations v) (fst x) \<and> message_ok lib (vs_rounds v) x"
    if x: "x \<in> set ?result" for x
  proof -
    obtain st where st: "fst x = task" "verification = Inr st"
      "snd x = vote_message st (et_account task)"
      using task_result_cases [of "fst x" "snd x" task ob verification] x by auto
    have ok: "task_ok lib (vs_rounds v) (vs_subscriber v) task"
      "decided ton key chain (vs_configurations v) task"
      using inv task by (simp_all add: vote_inv_def)
    have "justified lib (vs_rounds v) task st"
      using ok(1) receive_Inr [of "vs_subscriber v" "et_channel task" st] rec st(2)
      by (simp add: task_ok_def)
    then have "message_ok lib (vs_rounds v) x" using st by (auto simp: message_ok_def)
    then show ?thesis using ok st(1) by (simp add: task_ok_def)
  qed
  ultimately show ?thesis
    using inv by (auto simp: vote_inv_def dest: in_set_remove1 [THEN iffD1] notin_set_remove1
        set_remove1_subset [THEN subsetD])
qed

lemma vote_reachable_inv:
  "vote_reachable show_i32 lib ton key config start v \<Longrightarrow>
   vote_inv lib ton key (ec_chain_id config) v"
proof (induction rule: vote_reachable.induct)
  case (Start lbn s lbn')
  then show ?case
    by (auto simp: vote_inv_def eth_subscriber_new_def and_then_Inr_iff)
next
  case (Step v w)
  have sub: "subscriber_inv (vs_subscriber v)"
    using sys_reachable_inv [OF vote_reachable_sys [OF Step(1)]] by (simp add: sys_inv_def)
  note inv = Step(3)
  from Step(2) show ?case
  proof cases
    case (Other y)
    then show ?thesis
      using inv task_ok_same [of lib "vs_rounds v" "vs_subscriber v" _ "sys_sub y"]
        sys_step_chain_id [OF Other(2)]
      by (auto simp: vote_inv_def)
  next
    case (Round q order receipt)
    then show ?thesis using vote_inv_Round [OF inv sub] by simp
  next
    case (Configure configurations)
    then show ?thesis using inv by (auto simp: vote_inv_def intro: decided_mono)
  next
    case (Verify contract chain vd em abi n s' ch account)
    then show ?thesis using vote_inv_Verify [OF inv sub] by simp
  next
    case (Finish task verification ob)
    then show ?thesis using vote_inv_Finish [OF inv] by simp
  qed
qed

section \<open>Property\<close>

text \<open>C1: Every vote for an ETH event is justified, over all interleavings of the update loop, the tasks
  and changes of configurations: its contract was pending, had the supported version and missed the
  relay's vote, and the request follows the configuration that the contract named; a confirmation
  rests on a successful receipt, read when the target block was reached, with a log that agrees with
  the voted event in every field and in the hash of its data; a rejection rests on an answer of the
  node that shows otherwise, never on a failed request; and no verification leads to two votes.\<close>

theorem eth_votes_justified:
  assumes "vote_reachable show_i32 lib ton our_public_key config start v"
    and "(task, message) \<in> set (vs_messages v)"
  shows "decided ton our_public_key (ec_chain_id config) (vs_configurations v) task \<and>
    (message = eth_event_confirm_message (et_account task) \<and>
       list_ex (evidence lib task) (vs_rounds v) \<or>
     message = eth_event_reject_message (et_account task) \<and>
       (list_ex (disputed lib task) (vs_rounds v) \<or> list_ex (contradicted lib task) (vs_rounds v))) \<and>
    distinct (map (\<lambda>x. et_channel (fst x)) (vs_messages v))"
proof -
  have inv: "vote_inv lib ton our_public_key (ec_chain_id config) v"
    by (rule vote_reachable_inv [OF assms(1)])
  then have "message_ok lib (vs_rounds v) (task, message)"
    "decided ton our_public_key (ec_chain_id config) (vs_configurations v) task"
    using assms(2) by (auto simp: vote_inv_def)
  moreover from this obtain st where "justified lib (vs_rounds v) task st"
    "message = vote_message st (et_account task)" by (auto simp: message_ok_def)
  ultimately show ?thesis
    using inv by (cases st) (auto simp: vote_message_def vote_inv_def comp_def)
qed

section \<open>Witness\<close>

definition example_wide_config :: eth_config where
  "example_wide_config = example_config\<lparr>ec_max_block_range := None\<rparr>"

definition example_wide :: "(unit, uint256) eth_subscriber" where
  "example_wide = example_subscriber\<lparr>es_config := example_wide_config\<rparr>"

definition example_task :: "(nat, unit, uint256) eth_task" where
  "example_task = \<lparr>et_account = 5, et_contract = example_contract 5, et_vote_data = example_vote,
     et_event_emitter = 1, et_event_abi = (), et_blocks_to_confirm = 3, et_channel = 0\<rparr>"

definition example_voted :: "(unit, uint256) eth_subscriber" where
  "example_voted = fst (verify example_vote 1 () 3 example_wide)"

definition example_bridge_configurations :: "(unit, uint256) eth_configurations" where
  "example_bridge_configurations =
     [(20, \<lparr>ecs_details = example_eth_configuration, ecs_event_abi = (), ecs_observer = 1\<rparr>)]"

definition example_vote_system ::
  "(unit, uint256) eth_subscriber \<Rightarrow> phase \<Rightarrow> (nat, unit, uint256) eth_task list \<Rightarrow> evm_round list \<Rightarrow>
   (nat, unit, uint256) vote_system" where
  "example_vote_system s ph tasks rounds =
     \<lparr>vs_evm = \<lparr>sys_sub = s, sys_last_block_numbers = [(1, 5)], sys_phase = ph, sys_windows = []\<rparr>,
      vs_configurations = [example_bridge_configurations, []], vs_tasks = tasks, vs_rounds = rounds,
      vs_messages = []\<rparr>"

abbreviation example_vote_reachable :: "(nat, unit, uint256) vote_system \<Rightarrow> bool" where
  "example_vote_reachable \<equiv>
     vote_reachable (\<lambda>_. []) example_lib example_ton_lib 42 example_wide_config 5"

lemma example_voted_fields:
  "es_config example_voted = example_wide_config" "es_last_processed_block example_voted = 5"
  "es_topics example_voted = topics_default" "es_answers example_voted = []"
  "es_pending_confirmations example_voted = es_pending_confirmations example_pending"
  by (simp_all add: example_voted_def example_wide_def)
    (simp_all add: example_subscriber_def verify_def example_pending_def)

lemma example_vote_start: "example_vote_reachable (example_vote_system example_wide Idle [] [])"
proof -
  have new: "eth_subscriber_new [] example_wide_config (Inr 5) = Inr (example_wide, [(1, 5)])"
    by (simp add: eth_subscriber_new_def example_wide_def example_wide_config_def example_defs)
  from vote_reachable.Step [OF vote_reachable.Start [OF _ _ new] vote_step.Configure,
      of "\<lambda>_. []" example_lib example_ton_lib 42 example_bridge_configurations]
  show ?thesis
    by (simp add: example_vote_system_def range_config_ok_def example_wide_config_def)
qed

lemma example_decide:
  "update_eth_event_decide example_ton_lib 42 (\<lambda>chain. chain = 1) example_bridge_configurations
     (Inr (example_contract 5)) = EthVerify 1 example_vote 1 () 3"
  unfolding eth_vote_follows_configuration
  by (simp add: example_process example_bridge_configurations_def getter_defs)
    (simp add: example_eth_event_def example_vote_def example_eth_configuration_def)

lemma example_vote_verified:
  "example_vote_reachable (example_vote_system example_voted Idle [example_task] [])"
proof -
  let ?v = "example_vote_system example_wide Idle [] []"
  have chain: "es_chain_id example_wide = 1" "es_next_channel example_wide = 0"
    by (simp_all add: example_wide_def example_subscriber_def)
  have "verify example_vote 1 () 3 example_wide = (example_voted, 0)"
    by (simp add: example_voted_def prod_eq_iff verify_def Let_def chain)
  moreover have "update_eth_event_decide example_ton_lib 42 (\<lambda>c. c = es_chain_id (vs_subscriber ?v))
      (hd (vs_configurations ?v)) (Inr (example_contract 5)) = EthVerify 1 example_vote 1 () 3"
    using example_decide by (simp add: example_vote_system_def chain)
  ultimately show ?thesis
    using vote_reachable.Step [OF example_vote_start vote_step.Verify, of "example_contract 5" 1
        example_vote 1 "()" 3 example_voted 0 5]
    by (simp add: example_vote_system_def example_task_def)
qed

definition example_empty_request :: block_request where
  "example_empty_request = \<lparr>bq_from = 5, bq_to = 9, bq_topics = topics_default,
     bq_get_logs = \<lambda>_. None, bq_events = []\<rparr>"

lemma example_vote_fetched:
  "example_vote_reachable
     (example_vote_system example_voted (Fetched example_empty_request) [example_task] [])"
proof -
  let ?y = "\<lambda>ph. \<lparr>sys_sub = example_voted, sys_last_block_numbers = [(1, 5)], sys_phase = ph,
      sys_windows = []\<rparr>"
  have "update_prepare (\<lambda>_. []) (Inr 9) example_voted = Range 5 9"
    by (simp add: update_prepare_Range example_voted_fields)
      (simp add: example_voted_fields example_wide_config_def example_config_def retry_config_ok_def)
  then have "sys_step (\<lambda>_. []) example_lib (?y Idle) (?y (Fetching 5 9))"
    using sys_step.Poll [of "?y Idle" 9 "\<lambda>_. []" 5 9] by simp
  then have fetching:
    "example_vote_reachable (example_vote_system example_voted (Fetching 5 9) [example_task] [])"
    using vote_reachable.Step [OF example_vote_verified vote_step.Other, of "?y (Fetching 5 9)"]
    by (simp add: example_vote_system_def)
  have "process_blocks (\<lambda>_. None) (es_topics example_voted) 5 9 = Some (Inr [])"
    by (simp add: process_blocks_def make_filter_def example_voted_fields topics_default_def)
  then have "sys_step (\<lambda>_. []) example_lib (?y (Fetching 5 9)) (?y (Fetched example_empty_request))"
    using sys_step.Fetch [of "?y (Fetching 5 9)" 5 9 "\<lambda>_. None" "[]"]
    by (simp add: example_empty_request_def example_voted_fields)
  then show ?thesis
    using vote_reachable.Step [OF fetching vote_step.Other, of "?y (Fetched example_empty_request)"]
    by (simp add: example_vote_system_def)
qed

lemma example_task_account: "et_account example_task = 5"
  by (simp add: example_task_def)

lemma confirm_is_not_reject: "eth_event_confirm_message account \<noteq> eth_event_reject_message account"
  by (simp add: eth_event_confirm_message_def eth_event_reject_message_def unsigned_message_new_def
      arg_def Let_def abi_defs)

theorem eth_votes_justified_witness:
  "\<exists>v. example_vote_reachable v \<and>
     vs_messages v = [(example_task, eth_event_confirm_message 5)] \<and>
     list_ex (evidence example_lib example_task) (vs_rounds v)"
proof -
  let ?s = "update_locked example_lib example_receipt rev 9 [] example_voted"
  let ?rd = "\<lparr>rd_block = 9, rd_events = [], rd_receipt = example_receipt\<rparr>"
  let ?w = "example_vote_system ?s (Resolved example_empty_request) [example_task] [?rd]"
  have w: "example_vote_reachable ?w"
    using vote_reachable.Step [OF example_vote_fetched vote_step.Round [OF _ example_completion_order],
        of example_empty_request example_receipt]
    by (simp add: example_vote_system_def) (simp add: example_empty_request_def)
  have "es_answers ?s = [(0, Some Exists)]"
    by (simp add: update_locked_def example_voted_fields example_pending_map example_receipt_event
        send_to_def) (simp add: pc_check_def example_defs)
  then have answer: "receive (vs_subscriber ?w) (et_channel example_task) = Some (Inr Exists)"
    by (simp add: receive_def example_vote_system_def example_task_def)
  have task: "example_task \<in> set (vs_tasks ?w)" by (simp add: example_vote_system_def)
  let ?v = "?w\<lparr>vs_tasks := remove1 example_task (vs_tasks ?w),
      vs_messages := vs_messages ?w @ task_result example_task (Some 0) (Inr Exists)\<rparr>"
  have messages: "vs_messages ?v = [(example_task, eth_event_confirm_message 5)]"
    by (simp add: example_vote_system_def task_result_def update_eth_event_message_def example_task_def)
  have v: "example_vote_reachable ?v"
    by (rule vote_reachable.Step [OF w vote_step.Finish [OF task answer]])
  have "(example_task, eth_event_confirm_message 5) \<in> set (vs_messages ?v)"
    unfolding messages by simp
  from eth_votes_justified [OF v this] have
    "list_ex (evidence example_lib example_task) (vs_rounds ?v) \<or>
     eth_event_confirm_message 5 = eth_event_reject_message 5"
    unfolding example_task_account by blast
  then have "list_ex (evidence example_lib example_task) (vs_rounds ?v)"
    using confirm_is_not_reject by blast
  with v messages show ?thesis by blast
qed

end
