(* ===== verification/Bridge_Start.thy ===== *)
theory Bridge_Start
  imports Event_Scan Bridge_State_Props Ton_Subscriber
begin

text \<open>
  \<open>Bridge::new\<close> of \<open>engine/bridge/mod.rs\<close>: the bridge subscribes its own account, loads all
  configurations, scans all events and starts the collector of expired configurations. The effects are
  recorded in the order of the code; \<open>LoadConfigurations\<close> and \<open>ScanEvents\<close> are the calls of
  \<open>get_all_configurations\<close> and \<open>get_all_events\<close>, each of which takes its view of the shards. The
  listeners run from the beginning, but the handler of bridge events needs the lock that the loading
  takes first: the events that come before it find the default state, and all later ones queue up.
\<close>

datatype bridge_effect =
    Listen string
  | SubscribeBridge uint256
  | LoadConfigurations
  | ScanEvents
  | UpdateEvent event_type uint256
  | StartCollector

record ('abi, 'tabi, 'cell) bridge =
  bg_account :: uint256
  bg_state :: "('abi, 'tabi, 'cell) bridge_state"
  bg_events :: "events_state \<times> events_state"

text \<open>What \<open>Bridge::new\<close> gets from the engine's context.\<close>

record ('acc, 'cell) bridge_context =
  bcx_public_key :: uint256
  bcx_has_subscriber :: "u32 \<Rightarrow> bool"
  bcx_current_utime :: u32
  bcx_find_account :: "(uint256 \<Rightarrow> 'acc existing_contract option result) result"
  bcx_shards :: "('acc, 'cell) scanned_account list list result"

text \<open>The calls of \<open>start_listening_events\<close>, and the subscription of the bridge.\<close>

definition bridge_listeners :: "bridge_effect list" where
  "bridge_listeners =
     [Listen ''BridgeContract'', Listen ''ConnectorContract'', Listen ''EthEventConfigurationContract'',
      Listen ''TonEventConfigurationContract'', Listen ''EthEventContract'', Listen ''TonEventContract'']"

definition bridge_prepared :: "uint256 \<Rightarrow> bridge_effect list" where
  "bridge_prepared bridge_account = bridge_listeners @ [SubscribeBridge bridge_account]"

text \<open>\<open>locked_state\<close> is the state that the loading finds when it has taken the lock.\<close>

definition bridge_new ::
  "('acc, 'tok, 'd) ton_lib \<Rightarrow> ('abi, 'tabi, 'd) bridge_abi_lib \<Rightarrow> 'cell skip_lib \<Rightarrow>
   ('acc, 'cell) bridge_context \<Rightarrow> ('abi, 'tabi, 'd) bridge_state \<Rightarrow> uint256 \<Rightarrow>
   ('abi, 'tabi, 'd) bridge result \<times> bridge_effect list" where
  "bridge_new ton abi skip context locked_state bridge_account =
     (let loading = bridge_prepared bridge_account @ [LoadConfigurations]
      in case get_all_configurations ton abi (bcx_has_subscriber context) (bcx_current_utime context)
             (bcx_find_account context) bridge_account locked_state of
        (Inl e, _) \<Rightarrow> (Inl e, loading)
      | (Inr _, state) \<Rightarrow>
          (case get_all_events ton skip (bcx_public_key context) state (bcx_shards context)
                  (events_new, events_new) of
             (result, tasks, events) \<Rightarrow>
               (let effects = loading @ ScanEvents #
                      map (\<lambda>(kind, account). UpdateEvent kind account) tasks
                in case result of
                     Inl e \<Rightarrow> (Inl e, effects)
                   | Inr _ \<Rightarrow>
                       (Inr \<lparr>bg_account = bridge_account, bg_state = state, bg_events = events\<rparr>,
                        effects @ [StartCollector]))))"

text \<open>The listener of bridge events as \<open>start_listening_events\<close> runs it; the log has the connectors for
  which \<open>check_connector_contract\<close> is spawned.\<close>

definition bridge_event_handler ::
  "bridge_event \<Rightarrow> ('abi, 'tabi, 'd) bridge_state \<times> uint256 list \<Rightarrow>
   unit result \<times> ('abi, 'tabi, 'd) bridge_state \<times> uint256 list" where
  "bridge_event_handler event x =
     (case process_bridge_event event (fst x) of
        (spawned, s) \<Rightarrow>
          (Inr (), s, snd x @ (if spawned then (case event of ConnectorDeployed d \<Rightarrow> [cde_connector d])
                               else [])))"

section \<open>Facts\<close>

text \<open>Every known connector has the subscription of its observer.\<close>

definition connectors_subscribed :: "('abi, 'tabi, 'cell) bridge_state \<Rightarrow> bool" where
  "connectors_subscribed s \<longleftrightarrow>
     (\<forall>a ob. hm_get (br_connectors s) a = Some ob \<longrightarrow> (a, ob) \<in> set (br_subscriptions s))"

lemma connectors_subscribed_default: "connectors_subscribed bridge_state_default"
  by (simp add: connectors_subscribed_def bridge_state_default_def)

lemma process_event_configuration_keeps:
  assumes "s' = snd (process_event_configuration ton abi has utime ca ea c s)"
  shows "br_connectors s' = br_connectors s"
    and "set (br_subscriptions s) \<subseteq> set (br_subscriptions s')"
  by (auto simp: assms process_event_configuration_def add_eth_event_configuration_def
      add_ton_event_configuration_def Let_def subscribe_observer_def split: sum.splits prod.splits
      event_type.splits)

text \<open>The connectors that the loading adds: those it can read.\<close>

definition readable_connector ::
  "('acc, 'tok, 'd) ton_lib \<Rightarrow> (uint256 \<Rightarrow> 'acc existing_contract option result) \<Rightarrow> uint256 \<Rightarrow> bool" where
  "readable_connector ton find_acc a \<longleftrightarrow>
     (case find_acc a of
        Inr (Some c) \<Rightarrow> (case connector_get_details ton c of Inr _ \<Rightarrow> True | Inl _ \<Rightarrow> False)
      | _ \<Rightarrow> False)"

lemma load_connector_unreadable:
  assumes "load_connector ton abi has utime find_acc bridge i s = (Inr u, s')"
    and "bridge_derive_connector_address ton bridge i = Inr a"
    and "\<not> readable_connector ton find_acc a"
  shows "s' = s"
  using assms
  by (auto simp: load_connector_def readable_connector_def Let_def
      split: sum.splits option.splits if_splits)

lemma load_connector_readable:
  assumes "load_connector ton abi has utime find_acc bridge i s = (Inr u, s')"
    and "bridge_derive_connector_address ton bridge i = Inr a"
    and "readable_connector ton find_acc a"
    and "connectors_subscribed s"
  shows "(hm_contains x (br_connectors s') \<longleftrightarrow> x = a \<or> hm_contains x (br_connectors s)) \<and>
    connectors_subscribed s'"
proof -
  obtain c details where c: "find_acc a = Inr (Some c)" "connector_get_details ton c = Inr details"
    using assms(3) unfolding readable_connector_def
    by (cases "find_acc a"; cases "connector_get_details ton (the (projr (find_acc a)))")
      (auto split: option.splits sum.splits)
  define s1 where "s1 = subscribe_observer a (br_next_observer s)
    (s\<lparr>br_next_observer := br_next_observer s + 1,
       br_connectors := hm_insert a (br_next_observer s) (br_connectors s)\<rparr>)"
  have s1: "hm_contains x (br_connectors s1) \<longleftrightarrow> x = a \<or> hm_contains x (br_connectors s)"
    "connectors_subscribed s1"
    using assms(4) by (auto simp: s1_def hmap_simps connectors_subscribed_def hm_get_insert
        subscribe_observer_def)
  let ?ea = "cd_event_configuration details"
  have "s' = s1 \<or> (\<exists>c'. s' = snd (process_event_configuration ton abi has utime a ?ea c' s1))"
  proof (cases "cd_enabled details \<and> (\<exists>c'. find_acc ?ea = Inr (Some c'))")
    case True
    then obtain c' where "find_acc ?ea = Inr (Some c')" by blast
    then have "s' = snd (process_event_configuration ton abi has utime a ?ea c' s1)"
      using assms(1,2) c True by (simp add: load_connector_def Let_def s1_def)
    then show ?thesis by blast
  next
    case False
    then have "s' = s1"
      using assms(1,2) c by (cases "find_acc ?ea")
        (auto simp: load_connector_def Let_def s1_def split: if_splits option.splits)
    then show ?thesis by simp
  qed
  then show ?thesis
  proof (elim disjE exE)
    fix c' assume p: "s' = snd (process_event_configuration ton abi has utime a ?ea c' s1)"
    show ?thesis
      using s1 process_event_configuration_keeps [OF p] unfolding connectors_subscribed_def by auto
  qed (use s1 in simp)
qed

lemma load_connector_known:
  assumes "load_connector ton abi has utime find_acc bridge i s = (Inr u, s')"
    and "bridge_derive_connector_address ton bridge i = Inr a"
    and "connectors_subscribed s"
  shows "(hm_contains x (br_connectors s') \<longleftrightarrow>
      x = a \<and> readable_connector ton find_acc a \<or> hm_contains x (br_connectors s)) \<and>
    connectors_subscribed s'"
  using load_connector_unreadable [OF assms(1,2)] load_connector_readable [OF assms(1,2) _ assms(3), of x]
    assms(3)
  by (cases "readable_connector ton find_acc a") auto

lemma load_connectors_known:
  assumes "load_connectors ton abi has utime find_acc bridge (map of_nat [m..<n]) s = (Inr u, s')"
    and "connectors_subscribed s"
    and "\<And>i. i < n \<Longrightarrow> bridge_derive_connector_address ton bridge (of_nat i) = Inr (addr i)"
  shows "(hm_contains x (br_connectors s') \<longleftrightarrow>
      hm_contains x (br_connectors s) \<or> readable_connector ton find_acc x \<and> x \<in> addr ` {m..<n}) \<and>
    connectors_subscribed s'"
  using assms
proof (induction "n - m" arbitrary: m s)
  case (Suc k)
  then have "m < n" by simp
  then have ids: "[m..<n] = m # [Suc m..<n]" and range: "{m..<n} = insert m {Suc m..<n}"
    by (auto simp: upt_conv_Cons)
  obtain u1 s1 where one: "load_connector ton abi has utime find_acc bridge (of_nat m) s = (Inr u1, s1)"
    and rest: "load_connectors ton abi has utime find_acc bridge (map of_nat [Suc m..<n]) s1 = (Inr u, s')"
    using Suc.prems(1) unfolding ids by (auto split: prod.splits sum.splits)
  have "(hm_contains y (br_connectors s1) \<longleftrightarrow>
      y = addr m \<and> readable_connector ton find_acc (addr m) \<or> hm_contains y (br_connectors s)) \<and>
      connectors_subscribed s1" for y
    by (rule load_connector_known [OF one Suc.prems(3) Suc.prems(2)]) (rule \<open>m < n\<close>)
  moreover have "k = n - Suc m" using Suc.hyps(2) by simp
  ultimately show ?case
    using Suc.hyps(1) [of "Suc m" s1] rest Suc.prems(3) by (auto simp: range)
qed simp

lemma process_bridge_event_known:
  assumes "process_bridge_event (ConnectorDeployed d) s = (spawned, s')" "connectors_subscribed s"
  shows "(hm_contains x (br_connectors s') \<longleftrightarrow>
      x = cde_connector d \<or> hm_contains x (br_connectors s)) \<and>
    connectors_subscribed s' \<and> (spawned \<longleftrightarrow> \<not> hm_contains (cde_connector d) (br_connectors s))"
  using assms
  by (auto simp: process_bridge_event_def Let_def hmap_simps connectors_subscribed_def hm_get_insert
      subscribe_observer_def split: if_splits)

lemma listener_known:
  assumes "start_listening_events bridge_event_handler (map (\<lambda>d. (ConnectorDeployed d, True)) ds) (s, log) =
      (s', log')"
    and "connectors_subscribed s" "distinct (map cde_connector ds)"
  shows "(hm_contains x (br_connectors s') \<longleftrightarrow>
      x \<in> cde_connector ` set ds \<or> hm_contains x (br_connectors s)) \<and> connectors_subscribed s' \<and>
    log' = log @ filter (\<lambda>a. \<not> hm_contains a (br_connectors s)) (map cde_connector ds)"
  using assms
proof (induction ds arbitrary: s log)
  case (Cons d ds)
  obtain spawned s1 where one: "process_bridge_event (ConnectorDeployed d) s = (spawned, s1)"
    by (cases "process_bridge_event (ConnectorDeployed d) s")
  note known = process_bridge_event_known [OF one Cons.prems(2)]
  let ?log = "log @ (if spawned then [cde_connector d] else [])"
  have rest: "start_listening_events bridge_event_handler (map (\<lambda>d. (ConnectorDeployed d, True)) ds)
      (s1, ?log) = (s', log')"
    using Cons.prems(1)
    by (cases spawned) (simp_all add: bridge_event_handler_def [of "ConnectorDeployed d" "(s, log)"] one)
  have "filter (\<lambda>a. \<not> hm_contains a (br_connectors s1)) (map cde_connector ds) =
      filter (\<lambda>a. \<not> hm_contains a (br_connectors s)) (map cde_connector ds)"
  proof (intro filter_cong refl)
    fix a assume "a \<in> set (map cde_connector ds)"
    moreover have "cde_connector d \<notin> set (map cde_connector ds)" using Cons.prems(3) by simp
    ultimately have "a \<noteq> cde_connector d" by blast
    then show "(\<not> hm_contains a (br_connectors s1)) = (\<not> hm_contains a (br_connectors s))"
      using known by simp
  qed
  with Cons.IH [OF rest] Cons.prems(3) known show ?case by auto
qed simp

lemma bridge_new_Inr:
  assumes "bridge_new ton abi skip context locked account = (Inr b, effects)"
  shows "get_all_configurations ton abi (bcx_has_subscriber context) (bcx_current_utime context)
      (bcx_find_account context) account locked = (Inr (), bg_state b) \<and>
    (\<exists>rest. effects = bridge_listeners @ SubscribeBridge account # LoadConfigurations # rest)"
  using assms by (auto simp: bridge_new_def bridge_prepared_def Let_def split: prod.splits sum.splits)

section \<open>When the chain stood where\<close>

text \<open>\<open>heights\<close> tells how many of the deployments \<open>ds\<close> the chain had at each effect. The listener is told
  of those that come after the subscription, and the view has those before the loading.\<close>

definition announced :: "bridge_effect list \<Rightarrow> nat list \<Rightarrow> uint256 \<Rightarrow> 'a list \<Rightarrow> 'a list" where
  "announced effects heights account ds =
     (case map_of (zip effects heights) (SubscribeBridge account) of None \<Rightarrow> [] | Some p \<Rightarrow> drop p ds)"

definition in_view :: "bridge_effect list \<Rightarrow> nat list \<Rightarrow> nat" where
  "in_view effects heights =
     (case map_of (zip effects heights) LoadConfigurations of None \<Rightarrow> 0 | Some n \<Rightarrow> n)"

lemma bridge_heights:
  assumes "effects = bridge_listeners @ SubscribeBridge account # LoadConfigurations # rest"
    and "length heights = length effects" "sorted heights"
  obtains p where "announced effects heights account ds = drop p ds"
    "p \<le> in_view effects heights" "in_view effects heights \<in> set heights"
proof -
  define hs where "hs = take 6 heights"
  have len: "length hs = 6" "length heights = 8 + length rest"
    using assms(1,2) by (simp_all add: hs_def bridge_listeners_def)
  then obtain p n ns where drop: "drop 6 heights = p # n # ns"
    by (cases "drop 6 heights" rule: remdups_adj.cases) (auto dest: arg_cong [of _ _ length])
  then have split: "heights = hs @ p # n # ns" by (metis append_take_drop_id hs_def)
  then have le: "p \<le> n" "n \<in> set heights" using assms(3) by (auto simp: sorted_append)
  have zip: "zip effects heights =
      zip bridge_listeners hs @ (SubscribeBridge account, p) # (LoadConfigurations, n) # zip rest ns"
    unfolding assms(1) split using len(1)
    by (subst zip_append) (simp_all add: bridge_listeners_def)
  have "map_of (zip bridge_listeners hs) (SubscribeBridge account) = None"
    "map_of (zip bridge_listeners hs) LoadConfigurations = None"
    using len by (simp_all add: map_of_zip_is_None bridge_listeners_def)
  then have "announced effects heights account ds = drop p ds" "in_view effects heights = n"
    by (simp_all add: announced_def in_view_def zip map_add_def)
  with le show ?thesis using that by simp
qed

text \<open>The part of a list after \<open>p\<close>, without what its first \<open>n \<ge> p\<close> elements cover.\<close>

lemma drop_overlap:
  assumes "p \<le> n" "n \<le> length ds"
  shows "drop p ds = drop p (take n ds) @ drop n ds"
proof -
  have "drop p ds = drop p (take n ds @ drop n ds)" by simp
  also have "\<dots> = drop p (take n ds) @ drop n ds"
    using assms by (simp del: append_take_drop_id)
  finally show ?thesis .
qed

lemma set_drop_cover:
  "p \<le> n \<Longrightarrow> n \<le> length ds \<Longrightarrow> set (take n ds) \<union> set (drop p ds) = set ds"
proof -
  assume "p \<le> n" "n \<le> length ds"
  then have "set (drop n ds) \<subseteq> set (drop p ds)" by (simp add: drop_overlap [of p n ds])
  moreover have "set ds = set (take n ds) \<union> set (drop n ds)" by (simp flip: set_append)
  ultimately show ?thesis using set_drop_subset [of p ds] by blast
qed

lemma set_take_nth: "n \<le> length ds \<Longrightarrow> f ` set (take n ds) = (\<lambda>i. f (ds ! i)) ` {0..<n}"
  by (simp add: nth_image [symmetric] image_image)

section \<open>Property\<close>

text \<open>C15: A start misses no connector that it could learn of. The bridge subscribes its account before it
  takes its view, so wherever the chain stands at each effect, a deployed connector ends up known
  exactly when it was announced after the subscription or can be read in the view: what is missing
  was deployed earlier and is skipped as unreadable. Every known connector has the subscription of
  its observer. A check is spawned for the \<open>j\<close> announcements handled before the loading took its lock,
  and of the others exactly for those not loaded.\<close>

theorem no_connector_missed:
  assumes "start_listening_events bridge_event_handler
      (map (\<lambda>d. (ConnectorDeployed d, True)) (take j (announced effects heights account ds)))
      (bridge_state_default, []) = (locked, early)"
    and "bridge_new ton abi skip context locked account = (Inr b, effects)"
    and "start_listening_events bridge_event_handler
      (map (\<lambda>d. (ConnectorDeployed d, True)) (drop j (announced effects heights account ds)))
      (bg_state b, early) = (s', checks)"
    and "length heights = length effects" "sorted heights" "\<forall>h \<in> set heights. h \<le> length ds"
    and "bcx_find_account context = Inr find_acc" "find_acc account = Inr (Some bridge)"
    and "bridge_connector_counter ton bridge = Inr (of_nat (in_view effects heights))"
    and "length ds < 2 ^ 64"
    and "\<And>i. i < in_view effects heights \<Longrightarrow>
      bridge_derive_connector_address ton bridge (of_nat i) = Inr (cde_connector (ds ! i))"
    and "distinct (map cde_connector ds)"
  shows "(hm_contains x (br_connectors s') \<longleftrightarrow>
      (\<exists>d \<in> set ds. x = cde_connector d \<and>
         (d \<in> set (announced effects heights account ds) \<or>
          readable_connector ton find_acc (cde_connector d)))) \<and>
    (\<forall>observer. hm_get (br_connectors s') x = Some observer \<longrightarrow>
       (x, observer) \<in> set (br_subscriptions s')) \<and>
    checks = map cde_connector (take j (announced effects heights account ds)) @
      filter (\<lambda>a. \<not> (readable_connector ton find_acc a \<and>
          a \<in> cde_connector ` set (take (in_view effects heights) ds)))
        (map cde_connector (drop j (announced effects heights account ds)))"
proof -
  let ?n = "in_view effects heights"
  let ?A = "announced effects heights account ds"
  let ?loaded = "\<lambda>y. readable_connector ton find_acc y \<and> y \<in> cde_connector ` set (take ?n ds)"
  from bridge_new_Inr [OF assms(2)] obtain rest where
    conf: "get_all_configurations ton abi (bcx_has_subscriber context) (bcx_current_utime context)
      (Inr find_acc) account locked = (Inr (), bg_state b)" and
    effects: "effects = bridge_listeners @ SubscribeBridge account # LoadConfigurations # rest"
    by (auto simp: assms(7))
  obtain p where A: "?A = drop p ds" and pn: "p \<le> ?n" "?n \<in> set heights"
    by (rule bridge_heights [OF effects assms(4,5), of ds])
  then have n: "?n \<le> length ds" "?n < 2 ^ 64" using assms(6,10) by auto
  then have counter: "unat (of_nat ?n :: u64) = ?n"
    by (simp add: unat_of_nat take_bit_nat_eq_self)
  have "distinct (map cde_connector ?A)"
    using assms(12) by (simp add: A drop_map [symmetric] distinct_drop del: drop_map)
  moreover have "map cde_connector ?A = map cde_connector (take j ?A) @ map cde_connector (drop j ?A)"
    by (simp only: append_take_drop_id flip: map_append)
  ultimately have "distinct (map cde_connector (take j ?A) @ map cde_connector (drop j ?A))"
    by metis
  then have dist: "distinct (map cde_connector (take j ?A))" "distinct (map cde_connector (drop j ?A))"
    "set (map cde_connector (take j ?A)) \<inter> set (map cde_connector (drop j ?A)) = {}"
    by simp_all
  have before: "(hm_contains y (br_connectors locked) \<longleftrightarrow> y \<in> cde_connector ` set (take j ?A)) \<and>
      connectors_subscribed locked \<and> early = map cde_connector (take j ?A)" for y
    using listener_known [OF assms(1) connectors_subscribed_default dist(1), of y]
    by (simp add: bridge_state_default_def hmap_simps)
  have load: "load_connectors ton abi (bcx_has_subscriber context) (bcx_current_utime context) find_acc
      bridge (map of_nat [0..<?n]) locked = (Inr (), bg_state b)"
    using conf by (simp add: get_all_configurations_def assms(8,9) counter)
  have loaded: "(hm_contains y (br_connectors (bg_state b)) \<longleftrightarrow>
      y \<in> cde_connector ` set (take j ?A) \<or> ?loaded y) \<and> connectors_subscribed (bg_state b)" for y
    using load_connectors_known [OF load _ assms(11), of y] before [of y]
    by (simp add: set_take_nth [OF n(1)])
  note after = listener_known [OF assms(3) conjunct2 [OF loaded] dist(2), of x]
  have known: "hm_contains x (br_connectors s') \<longleftrightarrow> x \<in> cde_connector ` set ?A \<or> ?loaded x"
    using after loaded [of x] append_take_drop_id [of j ?A]
    by (metis (no_types, lifting) Un_iff image_Un set_append)
  have "set ds = set (take ?n ds) \<union> set ?A"
    using pn(1) set_drop_cover [of p ?n ds] n(1) by (simp add: A)
  then have "hm_contains x (br_connectors s') \<longleftrightarrow>
      (\<exists>d \<in> set ds. x = cde_connector d \<and>
         (d \<in> set ?A \<or> readable_connector ton find_acc (cde_connector d)))"
    using known by blast
  moreover have "filter (\<lambda>a. \<not> hm_contains a (br_connectors (bg_state b)))
      (map cde_connector (drop j ?A)) = filter (\<lambda>a. \<not> ?loaded a) (map cde_connector (drop j ?A))"
    using loaded dist(3) by (intro filter_cong) auto
  ultimately show ?thesis
    using after before unfolding connectors_subscribed_def by auto
qed

definition example_deployments :: "connector_deployed_event list" where
  "example_deployments = map (\<lambda>i. \<lparr>cde_id = i, cde_connector = ucast i + 10, cde_event_configuration = 20\<rparr>)
     [0, 1, 2]"

definition example_bridge_context :: "(nat, nat) bridge_context" where
  "example_bridge_context = \<lparr>bcx_public_key = 42, bcx_has_subscriber = \<lambda>_. True, bcx_current_utime = 10,
     bcx_find_account = Inr example_find, bcx_shards = Inr []\<rparr>"

text \<open>One deployment before the subscription, a second before the view, a third during the scan.\<close>

definition example_effects :: "bridge_effect list" where
  "example_effects = bridge_listeners @ [SubscribeBridge 1, LoadConfigurations, ScanEvents, StartCollector]"

definition example_heights :: "nat list" where
  "example_heights = [0, 0, 0, 0, 0, 0, 1, 2, 3, 3]"

lemma example_announced:
  "announced example_effects example_heights 1 example_deployments = drop 1 example_deployments"
  "in_view example_effects example_heights = 2"
  by (simp_all add: announced_def in_view_def example_effects_def example_heights_def bridge_listeners_def)

lemma example_bridge_new:
  "\<exists>b. bridge_new example_ton_lib example_abi example_skip_lib example_bridge_context
     bridge_state_default 1 = (Inr b, example_effects)"
proof -
  have "fst (get_all_configurations example_ton_lib example_abi (\<lambda>_. True) 10 (Inr example_find) 1
      bridge_state_default) = Inr ()"
    by (simp add: get_all_configurations_def getter_defs example_find_def
        bridge_state_default_def load_connector_def Let_def subscribe_observer_def upt_rec)
  then obtain s where "get_all_configurations example_ton_lib example_abi (\<lambda>_. True) 10
      (Inr example_find) 1 bridge_state_default = (Inr (), s)"
    by (metis prod.collapse)
  then show ?thesis
    by (simp add: bridge_new_def example_bridge_context_def get_all_events_def example_effects_def
        bridge_prepared_def)
qed

theorem no_connector_missed_witness:
  "\<exists>b s'. bridge_new example_ton_lib example_abi example_skip_lib example_bridge_context
       bridge_state_default 1 = (Inr b, example_effects) \<and>
     start_listening_events bridge_event_handler
       (map (\<lambda>d. (ConnectorDeployed d, True)) (drop 1 example_deployments)) (bg_state b, []) = (s', [12]) \<and>
     hm_contains 10 (br_connectors s') \<and> \<not> hm_contains 13 (br_connectors s')"
proof -
  let ?ds = example_deployments
  obtain b where new: "bridge_new example_ton_lib example_abi example_skip_lib example_bridge_context
      bridge_state_default 1 = (Inr b, example_effects)"
    using example_bridge_new by blast
  obtain s' checks where run: "start_listening_events bridge_event_handler
      (map (\<lambda>d. (ConnectorDeployed d, True)) (drop 1 ?ds)) (bg_state b, []) = (s', checks)"
    by (cases "start_listening_events bridge_event_handler
      (map (\<lambda>d. (ConnectorDeployed d, True)) (drop 1 ?ds)) (bg_state b, [])")
  have addr: "cde_connector (?ds ! 0) = 10" "cde_connector (?ds ! 1) = 11"
    by (simp_all add: example_deployments_def)
  have derive: "bridge_derive_connector_address example_ton_lib (example_contract 1) (of_nat i) =
      Inr (cde_connector (?ds ! i))" if "i < 2" for i
    using that addr by (auto simp: getter_defs less_2_cases_iff)
  have readable: "readable_connector example_ton_lib example_find a" for a
    by (simp add: readable_connector_def example_find_def getter_defs)
  have parts: "bcx_find_account example_bridge_context = Inr example_find"
    "example_find 1 = Inr (Some (example_contract 1))"
    "bridge_connector_counter example_ton_lib (example_contract 1) = Inr (of_nat 2)"
    "length ?ds < 2 ^ 64" "distinct (map cde_connector ?ds)"
    "length example_heights = length example_effects" "sorted example_heights"
    "\<forall>h \<in> set example_heights. h \<le> length ?ds"
    by (simp_all add: example_bridge_context_def example_find_def getter_defs example_deployments_def
        example_heights_def example_effects_def bridge_listeners_def)
  have result: "(hm_contains x (br_connectors s') \<longleftrightarrow> x \<in> cde_connector ` set ?ds) \<and> checks = [12]" for x
    using no_connector_missed [where j = 0 and effects = example_effects and heights = example_heights
        and account = 1 and ds = ?ds and locked = bridge_state_default and early = "[]" and x = x,
        unfolded example_announced, OF _ new _ parts(6-8,1-3,4) derive parts(5)] run readable
    by (auto simp: example_deployments_def)
  then show ?thesis using new run by (auto simp: example_deployments_def)
qed

end
