(* ===== verification/Relay_Life.thy ===== *)
theory Relay_Life
  imports Command_Line
begin

text \<open>
  The life of the process in \<open>main.rs\<close>: the engine's future of \<open>CmdRun::execute\<close> races with the signals
  of \<open>any_signal\<close>. That future subscribes to SIGHUP, creates and starts the engine and waits for a
  shutdown request, while the listener it has spawned reloads the configuration. What happens is a list of
  events in the order in which the executor sees them; the engine is its metrics exporter, the only
  part a reload touches.
\<close>

text \<open>The command line as the derived parser returns it, with the default path of the configuration.\<close>

datatype subcommand =
    Run string string \<comment> \<open>configuration, global configuration\<close>
  | Generate string bool bool string \<comment> \<open>output, import, empty password, configuration\<close>
  | Export string bool string \<comment> \<open>key file, empty password, configuration\<close>

definition default_config_path :: string where
  "default_config_path = ''config.yaml''"

definition execute_subcommand ::
  "(string \<Rightarrow> string \<Rightarrow> 'r) \<Rightarrow> (string \<Rightarrow> bool \<Rightarrow> bool \<Rightarrow> string \<Rightarrow> 'r) \<Rightarrow>
   (string \<Rightarrow> bool \<Rightarrow> string \<Rightarrow> 'r) \<Rightarrow> subcommand \<Rightarrow> 'r" where
  "execute_subcommand run generate export command =
     (case command of
        Run config global_config \<Rightarrow> run config global_config
      | Generate output import' empty_password config \<Rightarrow> generate output import' empty_password config
      | Export from' empty_password config \<Rightarrow> export from' empty_password config)"

datatype signal_kind = Interrupt | Terminate | Quit | Hangup | Raw int












section \<open>Facts\<close>















section \<open>Property\<close>



end
