(* ===== verification/App_Config.thy ===== *)
theory App_Config
  imports Config Eth_Properties
begin

text \<open>
  The whole configuration file of \<open>config/mod.rs\<close>: what the relay gets from the fields that are present.
  The structures of the file are records of options, read as the derived deserialisers document it: an
  absent field takes its default or is an error, and \<open>deny_unknown_fields\<close> refuses others. Which of
  several errors is reported is left open. \<open>read_address\<close> parses an address and \<open>path\<close> makes a path.
\<close>

section \<open>Default settings of the logger\<close>

datatype yaml =
    YString string
  | YBool bool
  | YSeq "yaml list"
  | YMap "(string \<times> yaml) list"

definition default_logger_settings :: yaml where
  "default_logger_settings = YMap
     [(''appenders'', YMap
         [(''stdout'', YMap
             [(''kind'', YString ''console''),
              (''encoder'', YMap
                 [(''pattern'', YString ''{d(%Y-%m-%d %H:%M:%S %Z)(utc)} - {h({l})} {M} = {m} {n}'')])])]),
      (''root'', YMap
         [(''level'', YString ''error''), (''appenders'', YSeq [YString ''stdout''])]),
      (''loggers'', YMap
         [(''relay'', YMap
             [(''level'', YString ''info''), (''appenders'', YSeq [YString ''stdout'']),
              (''additive'', YBool False)])])]"

section \<open>Structures of the file\<close>

record address_verification_config_fields =
  avf_min_balance_gwei :: "u64 option"
  avf_gas_price_gwei :: "u64 option"
  avf_state_path :: "string option"
  avf_unknown_fields :: bool

definition read_address_verification_config ::
  "address_verification_config_fields \<Rightarrow> address_verification_config result" where
  "read_address_verification_config f =
     (let d = address_verification_config_default
      in if avf_unknown_fields f then Inl (Foreign ''unknown field'')
         else Inr \<lparr>avc_min_balance_gwei = or_default (avc_min_balance_gwei d) (avf_min_balance_gwei f),
                avc_gas_price_gwei = or_default (avc_gas_price_gwei d) (avf_gas_price_gwei f),
                avc_state_path = or_default (avc_state_path d) (avf_state_path f)\<rparr>)"

record 'ip node_config_fields =
  ncf_adnl_public_ip :: "'ip option"
  ncf_adnl_port :: "u16 option"
  ncf_db_path :: "string option"
  ncf_temp_keys_path :: "string option"
  ncf_max_db_memory_usage :: "usize option"
  ncf_parallel_archive_downloads :: "u32 option"
  ncf_states_gc_enabled :: "bool option"
  ncf_blocks_gc_enabled :: "bool option"
  ncf_unknown_fields :: bool

definition read_node_config ::
  "(string \<Rightarrow> 'path) \<Rightarrow> usize \<Rightarrow> 'ip node_config_fields \<Rightarrow> ('ip, 'path) node_config result" where
  "read_node_config path default_max_db_memory_usage f =
     (let d = node_config_default path default_max_db_memory_usage :: ('ip, 'path) node_config
      in if ncf_unknown_fields f then Inl (Foreign ''unknown field'')
         else Inr \<lparr>nc_adnl_public_ip = ncf_adnl_public_ip f,
                nc_adnl_port = or_default (nc_adnl_port d) (ncf_adnl_port f),
                nc_db_path = or_default (nc_db_path d) (map_option path (ncf_db_path f)),
                nc_temp_keys_path = or_default (nc_temp_keys_path d) (map_option path (ncf_temp_keys_path f)),
                nc_max_db_memory_usage =
                  or_default (nc_max_db_memory_usage d) (ncf_max_db_memory_usage f),
                nc_parallel_archive_downloads =
                  or_default (nc_parallel_archive_downloads d) (ncf_parallel_archive_downloads f),
                nc_states_gc_enabled = or_default (nc_states_gc_enabled d) (ncf_states_gc_enabled f),
                nc_blocks_gc_enabled = or_default (nc_blocks_gc_enabled d) (ncf_blocks_gc_enabled f)\<rparr>)"

record bridge_config_fields =
  bcf_keys_path :: "string option"
  bcf_bridge_address :: "string option"
  bcf_ignore_elections :: "bool option"
  bcf_networks :: "eth_config_fields list option"
  bcf_address_verification :: "address_verification_config_fields option"
  bcf_unknown_fields :: bool

fun read_networks :: "eth_config_fields list \<Rightarrow> eth_config list result" where
  "read_networks [] = Inr []"
| "read_networks (f # fs) =
     and_then (read_eth_config f) (\<lambda>config. and_then (read_networks fs) (\<lambda>configs. Inr (config # configs)))"

definition read_optional :: "('f \<Rightarrow> 'c result) \<Rightarrow> 'c \<Rightarrow> 'f option \<Rightarrow> 'c result" where
  "read_optional read d f = (case f of None \<Rightarrow> Inr d | Some f \<Rightarrow> read f)"

definition read_bridge_config ::
  "(string \<Rightarrow> 'path) \<Rightarrow> (string \<Rightarrow> uint256 result) \<Rightarrow> bridge_config_fields \<Rightarrow> 'path bridge_config result" where
  "read_bridge_config path read_address f =
     (if bcf_unknown_fields f then Inl (Foreign ''unknown field'')
      else
        and_then (context_opt ''missing field `keys_path`'' (bcf_keys_path f)) (\<lambda>keys_path.
        and_then (context_opt ''missing field `bridge_address`'' (bcf_bridge_address f)) (\<lambda>address.
        and_then (read_address address) (\<lambda>bridge_address.
        and_then (context_opt ''missing field `networks`'' (bcf_networks f)) (\<lambda>networks.
        and_then (read_networks networks) (\<lambda>networks.
        and_then (read_optional read_address_verification_config address_verification_config_default
                    (bcf_address_verification f)) (\<lambda>address_verification.
        Inr \<lparr>bc_keys_path = path keys_path, bc_bridge_address = bridge_address,
             bc_ignore_elections = or_default False (bcf_ignore_elections f),
             bc_networks = networks, bc_address_verification = address_verification\<rparr>)))))))"

record ('ip, 'address) app_config_fields =
  acf_master_password :: "string option"
  acf_require_protected_keystore :: "bool option"
  acf_staker_address :: "string option"
  acf_bridge_settings :: "bridge_config_fields option"
  acf_node_settings :: "'ip node_config_fields option"
  acf_metrics_settings :: "'address metrics_config_fields option"
  acf_logger_settings :: "yaml option"

text \<open>\<open>localhost\<close> is the default address of the metrics exporter. Without \<open>metrics_settings\<close> there is
  none; the full configuration needs a password, the brief one does not.\<close>

definition read_app_config ::
  "(string \<Rightarrow> 'path) \<Rightarrow> usize \<Rightarrow> (string \<Rightarrow> uint256 result) \<Rightarrow> (string \<Rightarrow> string result) \<Rightarrow> 'address \<Rightarrow>
   ('ip, 'address) app_config_fields \<Rightarrow> ('path, 'ip, 'address, yaml) app_config result" where
  "read_app_config path default_max_db_memory_usage read_address from_str localhost f =
     and_then (context_opt ''missing field `master_password`'' (acf_master_password f)) (\<lambda>master_password.
     and_then (context_opt ''missing field `staker_address`'' (acf_staker_address f)) (\<lambda>address.
     and_then (read_address address) (\<lambda>staker_address.
     and_then (context_opt ''missing field `bridge_settings`'' (acf_bridge_settings f)) (\<lambda>bridge_settings.
     and_then (read_bridge_config path read_address bridge_settings) (\<lambda>bridge_settings.
     and_then (read_optional (read_node_config path default_max_db_memory_usage)
                 (node_config_default path default_max_db_memory_usage) (acf_node_settings f))
       (\<lambda>node_settings.
     and_then (read_optional (\<lambda>m. and_then (read_metrics_config from_str localhost m) (\<lambda>m. Inr (Some m)))
                 None (acf_metrics_settings f)) (\<lambda>metrics_settings.
     Inr \<lparr>ac_master_password = master_password,
          ac_require_protected_keystore = or_default False (acf_require_protected_keystore f),
          ac_staker_address = staker_address, ac_bridge_settings = bridge_settings,
          ac_node_settings = node_settings, ac_metrics_settings = metrics_settings,
          ac_logger_settings = or_default default_logger_settings (acf_logger_settings f)\<rparr>)))))))"

definition read_brief_app_config :: "('ip, 'address) app_config_fields \<Rightarrow> brief_app_config result" where
  "read_brief_app_config f = Inr \<lparr>bac_master_password = acf_master_password f\<rparr>"

section \<open>Facts\<close>

lemma read_networks_Inr: "read_networks fs = Inr configs \<longleftrightarrow> list_all2 (\<lambda>f c. read_eth_config f = Inr c) fs configs"
  by (induction fs arbitrary: configs) (auto simp: and_then_Inr_iff list_all2_Cons1)

lemma read_eth_config_range:
  assumes "read_eth_config f = Inr config"
  shows "ec_max_block_range config = ecf_max_block_range f"
  using assms by (auto simp: read_eth_config_def and_then_Inr_iff split: if_splits)

lemma read_bridge_config_Inr:
  assumes "read_bridge_config path read_address b = Inr config"
  shows "\<exists>fs. bcf_networks b = Some fs \<and> read_networks fs = Inr (bc_networks config) \<and>
    read_optional read_address_verification_config address_verification_config_default
      (bcf_address_verification b) = Inr (bc_address_verification config)"
  using assms by (auto simp: read_bridge_config_def and_then_Inr_iff split: if_splits)

lemma read_balance_bound:
  assumes "read_optional read_address_verification_config address_verification_config_default x = Inr c"
    and "\<And>a gwei. x = Some a \<Longrightarrow> avf_min_balance_gwei a = Some gwei \<Longrightarrow> gwei \<le> 18446744073"
  shows "avc_min_balance_gwei c \<le> 18446744073"
proof (cases x)
  case None
  then show ?thesis using assms(1) by (auto simp: read_optional_def address_verification_config_default_def)
next
  case (Some a)
  then show ?thesis
    using assms(1) assms(2) [OF Some]
    by (cases "avf_min_balance_gwei a")
      (auto simp: read_optional_def read_address_verification_config_def or_default_def
        address_verification_config_default_def Let_def split: if_splits)
qed

text \<open>Whatever a file leaves out, the relay runs with settings for which the update loops advance and the
  required balance is exact, as long as the file itself sets no range of zero or beyond \<open>2 ^ 63\<close> and no
  balance that wraps.\<close>

theorem read_settings_sound:
  assumes "read_app_config path memory read_address from_str localhost f = Inr config"
    and "acf_bridge_settings f = Some b"
    and "\<And>networks network. bcf_networks b = Some networks \<Longrightarrow> network \<in> set networks \<Longrightarrow>
      case ecf_max_block_range network of None \<Rightarrow> True | Some m \<Rightarrow> 0 < m \<and> m < 2 ^ 63"
    and "\<And>a gwei. bcf_address_verification b = Some a \<Longrightarrow> avf_min_balance_gwei a = Some gwei \<Longrightarrow>
      gwei \<le> 18446744073"
  shows "list_all range_config_ok (bc_networks (ac_bridge_settings config)) \<and>
    avc_min_balance_gwei (bc_address_verification (ac_bridge_settings config)) \<le> 18446744073"
proof
  from assms(1,2) have bridge: "read_bridge_config path read_address b = Inr (ac_bridge_settings config)"
    by (auto simp: read_app_config_def and_then_Inr_iff)
  from read_bridge_config_Inr [OF this] obtain fs where fs: "bcf_networks b = Some fs"
    and networks: "read_networks fs = Inr (bc_networks (ac_bridge_settings config))"
    and verification: "read_optional read_address_verification_config address_verification_config_default
      (bcf_address_verification b) = Inr (bc_address_verification (ac_bridge_settings config))"
    by blast
  show "list_all range_config_ok (bc_networks (ac_bridge_settings config))"
    unfolding list_all_length
  proof (intro allI impI)
    fix i assume i: "i < length (bc_networks (ac_bridge_settings config))"
    then have "i < length fs" and "read_eth_config (fs ! i) = Inr (bc_networks (ac_bridge_settings config) ! i)"
      using networks by (auto simp: read_networks_Inr list_all2_conv_all_nth)
    then show "range_config_ok (bc_networks (ac_bridge_settings config) ! i)"
      using assms(3) [OF fs, of "fs ! i"] read_eth_config_range [of "fs ! i"] by (simp add: fs range_config_ok_def)
  qed
  show "avc_min_balance_gwei (bc_address_verification (ac_bridge_settings config)) \<le> 18446744073"
    by (rule read_balance_bound [OF verification assms(4)])
qed

text \<open>A file with only the mandatory fields, as the documentation describes the defaults.\<close>

lemma minimal_settings:
  assumes "read_address staker = Inr s" "read_address bridge = Inr a"
  shows "read_app_config path memory read_address from_str localhost
    \<lparr>acf_master_password = Some password, acf_require_protected_keystore = None,
     acf_staker_address = Some staker,
     acf_bridge_settings = Some \<lparr>bcf_keys_path = Some keys, bcf_bridge_address = Some bridge,
       bcf_ignore_elections = None, bcf_networks = Some [], bcf_address_verification = None,
       bcf_unknown_fields = False\<rparr>,
     acf_node_settings = None, acf_metrics_settings = None, acf_logger_settings = None\<rparr> =
   Inr \<lparr>ac_master_password = password, ac_require_protected_keystore = False, ac_staker_address = s,
     ac_bridge_settings = \<lparr>bc_keys_path = path keys, bc_bridge_address = a, bc_ignore_elections = False,
       bc_networks = [], bc_address_verification = address_verification_config_default\<rparr>,
     ac_node_settings = node_config_default path memory, ac_metrics_settings = None,
     ac_logger_settings = default_logger_settings\<rparr>"
  by (simp add: read_app_config_def read_bridge_config_def read_optional_def or_default_def assms)

end
