(* ===== verification/Spec2Isabelle.thy ===== *)
theory Spec2Isabelle
  imports
    Eth_Properties
    Bridge_Readers
    Bridge_State_Props
    Bridge_Events_Props
    Delivery
    Staking_Props
    Elections_Loop
    Relay_Messages
    Ton_Votes
    Ton_Subscriber_Props
    Wait_Sync
    Engine
    Address_Verification
    Retry
    Metrics_Props
    Metrics_Exporter
    Config
    Stored_Keys
    Command_Line
    Event_Scan
    Delivery_System
    Eth_Update
    Eth_Votes
    Bridge_Start
    Identity
    Relay_Life
    App_Config
begin

text \<open>
  A verification development for the relay of the TON-ETH bridge (\<open>src/src\<close>).

  The program. A relay watches two chains. \<open>engine/ton_subscriber\<close> follows the blocks of TON and hands
  transactions to observers; \<open>engine/eth_subscriber\<close> follows an EVM chain and confirms events of it;
  \<open>engine/bridge\<close> keeps the configurations and the pending events and votes for or against them;
  \<open>engine/staking\<close> takes part in the elections of relays; \<open>engine/keystore\<close> signs; \<open>engine/mod.rs\<close>
  starts the components in order, sends messages to TON and repeats them until they are delivered;
  \<open>engine/metrics_exporter\<close> publishes counters; \<open>config\<close> and \<open>main.rs\<close> read settings and keep the keys.

  Theories and code.
  \<^item> \<open>Prelude\<close>: machine words, errors as values (\<open>error\<close>, \<open>result\<close>, \<open>and_then\<close> for \<open>?\<close>, \<open>context_res\<close>
    for \<open>.context\<close>), hash maps as association lists with distinct keys (\<open>hmap\<close>).
  \<^item> \<open>Channels\<close>: the contract of oneshot channels, \<open>oneshot_channels\<close> with its extension over time
    \<open>oneshot_system\<close>; the queue and the EVM subscriber provide both.
  \<^item> \<open>Shard_Utils\<close>: \<open>utils/shard_utils.rs\<close>, \<open>utils/existing_contract.rs\<close>. Prefixes of accounts,
    containment in a shard, lookup over all shards.
  \<^item> \<open>Tristate\<close>: \<open>utils/tristate.rs\<close>, with the contract \<open>flag_cell\<close> that staking uses.
  \<^item> \<open>Message_Queue\<close>: \<open>utils/pending_messages_queue.rs\<close>. The map, the two atomics and the oneshot
    channels; the contract \<open>message_queue\<close>; every interleaving of its operations.
  \<^item> \<open>Contract_Models\<close>, \<open>Ton_Abi\<close>, \<open>Ton_Contracts\<close>: \<open>engine/ton_contracts\<close>. The structures, the declared
    functions and events, one getter per function; \<open>ton_lib\<close> is the virtual machine and the derived
    unpackers.
  \<^item> \<open>Tx_Context\<close>, \<open>Bridge_Readers\<close>: \<open>utils/tx_context.rs\<close> and the \<open>ReadFromTransaction\<close> instances of
    the bridge. \<open>Example_Contracts\<close> holds the concrete library the witnesses use.
  \<^item> \<open>Eth_Events\<close>, \<open>Eth_Topics\<close>, \<open>Eth_Subscriber\<close>, \<open>Eth_Confirmations\<close>, \<open>Eth_Properties\<close>:
    \<open>engine/eth_subscriber\<close>. One round of \<open>update\<close> is a start, a locked part and a commit, because
    \<open>verify\<close> may come between them. A start that panics, because the retry configuration cannot be
    built (\<open>Fixed_Retry\<close>), is an outcome of its own. \<open>Eth_Update\<close> puts the phases together to the
    whole call and the loop of \<open>start\<close>, which a panic ends, over the list of what the node answers in
    each call.
  \<^item> \<open>Bridge_State\<close>, \<open>Bridge_Events\<close> with their \<open>_Props\<close>: \<open>engine/bridge\<close>. The configuration state under
    its lock, and the two registries of pending events with the tasks that vote for them.
    \<open>Eth_Votes\<close> composes the tasks of \<open>update_eth_event\<close> with the subscriber of their chain and the
    changing configurations; \<open>Ton_Votes\<close> takes the votes for TON events to the recovery of the
    signer on the EVM side; \<open>Bridge_Start\<close> is \<open>Bridge::new\<close>, each call of which that the outside can
    see is an effect in the order of the code, with the queued events of the bridge.
  \<^item> \<open>Account_Cell\<close>, \<open>Event_Scan\<close>: the scan of all accounts on startup, with the reader of code hashes
    against the bit layout of an account.
  \<^item> \<open>Keystore\<close>, \<open>Delivery\<close>: \<open>engine/keystore\<close>, \<open>send_ton_message\<close> and \<open>deliver_message\<close> of
    \<open>engine/mod.rs\<close>, over the queue. \<open>Delivery_System\<close> has all delivery loops at once, interleaved with the
    blocks and expirations of the queue.
  \<^item> \<open>Staking\<close>, \<open>Staking_Props\<close>: \<open>engine/staking\<close>. \<open>Staking::new\<close> waits for the confirmation of the keys
    and for the first request to become a relay; what happens meanwhile is the record \<open>staking_start\<close>.
    \<open>Elections_Loop\<close> interleaves the loop of \<open>start_managing_elections\<close> with the events.
  \<^item> \<open>Relay_Messages\<close>: the seven calls of \<open>deliver_message\<close> in the bridge and in staking.
  \<^item> \<open>Ton_Subscriber\<close>, \<open>Ton_Subscriber_Props\<close>, \<open>Wait_Sync\<close>: \<open>engine/ton_subscriber\<close>. One shard block
    passes all subscriptions and then the queue of \<open>Message_Queue\<close>; readers hold receivers of a watch
    channel with versions; the wait for synchronisation is a small interleaving of its own.
  \<^item> \<open>Engine\<close>: construction and start of \<open>engine/mod.rs\<close> and the view of all shard accounts.
  \<^item> \<open>Evm_Contracts\<close>, \<open>Address_Verification\<close>: \<open>verify_relay_staker_address\<close> with the contract it calls
    and its state file.
  \<^item> \<open>Fixed_Retry\<close>, \<open>Retry\<close>: \<open>utils/retry.rs\<close>, with the floating-point numbers as reals.
  \<^item> \<open>Metrics_Format\<close>, \<open>Metrics_Props\<close>, \<open>Metrics_Exporter\<close>: the displays of \<open>engine/mod.rs\<close> and
    \<open>engine/metrics_exporter\<close>. \<open>Metrics_Props\<close> has a reader of the exposition format; the double
    buffer is interleaved with any number of requests.
  \<^item> \<open>Config\<close>, \<open>App_Config\<close>, \<open>Stored_Keys\<close>, \<open>Command_Line\<close>, \<open>Keystore_Start\<close>: \<open>config\<close>, \<open>utils/serde_helpers.rs\<close>,
    \<open>main.rs\<close> and \<open>KeyStore::new\<close>. \<open>Relay_Life\<close> is the process of the \<open>run\<close> command, from the subscription to
    SIGHUP to the end, with its signals.
  \<^item> \<open>Eth_Address\<close>, \<open>Identity\<close>: \<open>utils/eth_address.rs\<close>, the derivation of keys from phrases, the two
    signers and what the commands print; the abstract \<open>cipher\<close> becomes the record \<open>relay_cipher\<close>.

  What the lemmas show. Each component has an invariant that every operation keeps, and the functional
  behaviour of its operations on every branch. The concurrent components (queue, both subscribers,
  pending events, elections loop, metrics buffer) are step relations, with invariants over all
  reachable states; \<open>Eth_Votes\<close> joins two of them to the end-to-end statement that every vote for an
  ETH event is justified, and \<open>Delivery_System\<close> shows that deliveries never overlap. \<open>Eth_Properties\<close>
  shows that the requests for logs leave out no block and no subscribed log, and \<open>Eth_Update\<close> that the
  update loop catches up with the node and answers every caller. The interfaces are
  locales: \<open>flag_cell\<close>, \<open>message_queue\<close>, \<open>pending_registry\<close>, \<open>oneshot_channels\<close> and \<open>oneshot_system\<close>,
  each interpreted on the model of the code. The properties carry their numbers in the theories.

  Conventions. Integers have the width of the source and wrap as in the release build. An answer of the
  network, the virtual machine or a clock is a parameter; a loop that waits is a function of the list
  of answers it gets, and \<open>None\<close> says that it still waits, so no fuel is needed.

  Not modelled. Logging; the parser that is derived from the argument structs of \<open>main.rs\<close>; the parsers
  of YAML and JSON texts, of which the model has the fields they find; the macro that makes a static
  lazy. The node, its block store, the RPC clients, the virtual machine of contracts, hashes, ciphers
  and curves are other crates: parameters where the model needs them.
\<close>

end
